theory Spec2Isabelle
  imports Complex_Main "HOL-Library.Word" "HOL-Library.AList" "HOL-Library.Multiset"
begin

unbundle bit_operations_syntax

section \<open>Conventions of the embedding\<close>

text \<open>
  The Prism campaign pipeline is written in Python.  Its functions are embedded as HOL
  functions that keep the names, the case order and the checks of the source.

  \<^item> Python \<^verbatim>\<open>float\<close> values (token counts, clock readings, costs, pixel arithmetic, crop
    boxes) are modelled by exact rationals: where the source rounds to a binary double, the
    embedding does not.
  \<^item> An exception is a value: a class and the message that \<^verbatim>\<open>str(e)\<close> yields.  A function
    that may raise returns \<open>exn + 'a\<close>, with \<open>Inl\<close> for the raised exception.
  \<^item> A Python \<^verbatim>\<open>dict\<close> is an association list updated with \<open>AList.update\<close>, which keeps
    the position of a key that is already present and appends a new one, as the insertion
    order of a \<^verbatim>\<open>dict\<close> does.
  \<^item> Mutable objects (the rate limiter, the execution context, the file system) are records
    that are passed in and returned updated.
\<close>

datatype exn_class =
  ValueError | ZeroDivisionError | IndexError | KeyError | AttributeError | TypeError
  | OSError | JSONDecodeError | ServiceError | GenericException

datatype exn = Exn (exn_class: exn_class) (exn_str: string)

section \<open>Rate limiter (\<^verbatim>\<open>src/utils.py\<close>, class \<^verbatim>\<open>RateLimiter\<close>)\<close>

record RateLimiter =
  max_per_minute :: int
  tokens :: rat
  last_refill :: rat
  refill_rate :: rat

text \<open>\<^verbatim>\<open>RateLimiter.__init__\<close>; \<open>now\<close> is the value that \<^verbatim>\<open>time.time()\<close> returns.\<close>

definition RateLimiter_init :: "int \<Rightarrow> rat \<Rightarrow> RateLimiter" where
  "RateLimiter_init m now =
     \<lparr>max_per_minute = m, tokens = of_int m, last_refill = now, refill_rate = of_int m / 60\<rparr>"

text \<open>
  \<^verbatim>\<open>RateLimiter.acquire\<close>.  The argument \<open>now\<close> is the clock reading of the call.  The result is
  the updated limiter and either the exception raised or the time slept (\<open>0\<close> when the
  call returns without sleeping).  The refill is stored before the test, so it persists when
  the division by a zero refill rate raises; \<^verbatim>\<open>time.sleep\<close> raises on a negative length.
\<close>

definition acquire :: "RateLimiter \<Rightarrow> rat \<Rightarrow> RateLimiter \<times> (exn + rat)" where
  "acquire rl now =
     (let elapsed = now - last_refill rl;
          rl1 = rl\<lparr>tokens := min (of_int (max_per_minute rl)) (tokens rl + elapsed * refill_rate rl),
                    last_refill := now\<rparr>
      in if tokens rl1 < 1 then
           (if refill_rate rl1 = 0 then (rl1, Inl (Exn ZeroDivisionError ''float division by zero''))
            else
              let wait_time = (1 - tokens rl1) / refill_rate rl1 in
              if wait_time < 0 then (rl1, Inl (Exn ValueError ''sleep length must be non-negative''))
              else (rl1\<lparr>tokens := 0\<rparr>, Inr wait_time))
         else (rl1\<lparr>tokens := tokens rl1 - 1\<rparr>, Inr 0))"

text \<open>
  A simulation with a controllable clock: the list gives the clock reading at each call of
  \<^verbatim>\<open>acquire()\<close>.  Each call yields its outcome: the exception, or the pair of the time at
  which the call returned and the time it slept.
\<close>

fun simulate :: "RateLimiter \<Rightarrow> rat list \<Rightarrow> (exn + rat \<times> rat) list" where
  "simulate rl [] = []"
| "simulate rl (now # ts) =
     (case acquire rl now of
        (rl', Inl e) \<Rightarrow> Inl e # simulate rl' ts
      | (rl', Inr slept) \<Rightarrow> Inr (now + slept, slept) # simulate rl' ts)"

text \<open>The completed calls whose return time lies in the closed window \<open>[a, b]\<close>.\<close>

fun completed_in :: "rat \<Rightarrow> rat \<Rightarrow> (exn + rat \<times> rat) \<Rightarrow> bool" where
  "completed_in a b (Inl e) = False"
| "completed_in a b (Inr (t, slept)) = (a \<le> t \<and> t \<le> b)"

text \<open>Among them, the calls that returned without sleeping.\<close>

fun immediate_in :: "rat \<Rightarrow> rat \<Rightarrow> (exn + rat \<times> rat) \<Rightarrow> bool" where
  "immediate_in a b (Inl e) = False"
| "immediate_in a b (Inr (t, slept)) = (slept = 0 \<and> a \<le> t \<and> t \<le> b)"

definition limiter_inv :: "int \<Rightarrow> RateLimiter \<Rightarrow> bool" where
  "limiter_inv m rl \<longleftrightarrow>
     max_per_minute rl = m \<and> refill_rate rl = of_int m / 60 \<and> 0 \<le> tokens rl \<and> tokens rl \<le> of_int m"

subsection \<open>What a call of \<^verbatim>\<open>acquire()\<close> does\<close>

lemma acquire_inv:
  assumes "limiter_inv m rl" "0 < m" "last_refill rl \<le> now"
  shows "limiter_inv m (fst (acquire rl now)) \<and> last_refill (fst (acquire rl now)) = now"
  using assms unfolding limiter_inv_def acquire_def Let_def
  by (auto simp: min_def  split: if_splits)

lemma acquire_wait:
  assumes "0 < refill_rate rl"
    and "min (of_int (max_per_minute rl)) (tokens rl + (now - last_refill rl) * refill_rate rl) < 1"
  shows "acquire rl now = (rl\<lparr>tokens := 0, last_refill := now\<rparr>,
     Inr ((1 - min (of_int (max_per_minute rl)) (tokens rl + (now - last_refill rl) * refill_rate rl)) / refill_rate rl))"
proof -
  have "0 \<le> (1 - min (of_int (max_per_minute rl)) (tokens rl + (now - last_refill rl) * refill_rate rl)) / refill_rate rl"
    using assms by simp
  then show ?thesis using assms unfolding acquire_def Let_def by (simp add: not_less)
qed

lemma acquire_now:
  assumes "\<not> min (of_int (max_per_minute rl)) (tokens rl + (now - last_refill rl) * refill_rate rl) < 1"
  shows "acquire rl now = (rl\<lparr>tokens := min (of_int (max_per_minute rl)) (tokens rl + (now - last_refill rl) * refill_rate rl) - 1, last_refill := now\<rparr>,
     Inr 0)"
  using assms unfolding acquire_def Let_def by simp

lemma imm_count_inside:
  assumes "limiter_inv m rl" "0 < m" "sorted ts" "\<forall>t\<in>set ts. last_refill rl \<le> t"
  shows "of_nat (length (filter (immediate_in a b) (simulate rl ts)))
          \<le> max 0 (tokens rl + refill_rate rl * (b - last_refill rl))"
  using assms
proof (induction ts arbitrary: rl)
  case Nil
  then show ?case by simp
next
  case (Cons t ts)
  define Tr where "Tr = min (of_int (max_per_minute rl)) (tokens rl + (t - last_refill rl) * refill_rate rl)"
  define r where "r = refill_rate rl"
  have Lt: "last_refill rl \<le> t" using Cons.prems by simp
  have inv: "max_per_minute rl = m" "r = of_int m / 60" "0 \<le> tokens rl" "tokens rl \<le> of_int m"
    using Cons.prems(1) by (auto simp: limiter_inv_def r_def)
  have rpos: "0 < r" using inv Cons.prems(2) by simp
  have Tr_le: "Tr \<le> tokens rl + r * (t - last_refill rl)" "0 \<le> Tr"
    using inv Lt rpos Cons.prems(2) by (auto simp: Tr_def r_def[symmetric] mult.commute min_def)
  have inv': "limiter_inv m (fst (acquire rl t))" and L': "last_refill (fst (acquire rl t)) = t"
    using acquire_inv[OF Cons.prems(1,2) Lt] by auto
  have IH: "of_nat (length (filter (immediate_in a b) (simulate (fst (acquire rl t)) ts)))
          \<le> max 0 (tokens (fst (acquire rl t)) + refill_rate (fst (acquire rl t)) * (b - t))"
    using Cons.IH[OF inv' Cons.prems(2)] Cons.prems(3,4) L' by auto
  have r': "refill_rate (fst (acquire rl t)) = r"
    using inv' inv by (simp add: limiter_inv_def)
  have split: "r * (b - last_refill rl) = r * (b - t) + r * (t - last_refill rl)"
    by (simp add: algebra_simps)
  have nn: "0 \<le> r * (t - last_refill rl)" using rpos Lt by simp
  show ?case
  proof (cases "Tr < 1")
    case True
    have acq: "acquire rl t = (rl\<lparr>tokens := 0, last_refill := t\<rparr>, Inr ((1 - Tr) / r))"
      unfolding Tr_def r_def by (rule acquire_wait) (use rpos True in \<open>simp_all add: Tr_def r_def\<close>)
    have wpos: "(1 - Tr) / r \<noteq> 0" using True rpos by simp
    have "of_nat (length (filter (immediate_in a b) (simulate rl (t # ts))))
        = (of_nat (length (filter (immediate_in a b) (simulate (fst (acquire rl t)) ts))) :: rat)"
      using wpos by (simp add: acq)
    also have "\<dots> \<le> max 0 (0 + r * (b - t))" using IH r' by (simp add: acq)
    also have "\<dots> \<le> max 0 (tokens rl + r * (b - last_refill rl))"
      using inv(3) nn split by (simp add: max_def)
    finally show ?thesis by (simp add: r_def)
  next
    case False
    have acq: "acquire rl t = (rl\<lparr>tokens := Tr - 1, last_refill := t\<rparr>, Inr 0)"
      unfolding Tr_def r_def by (rule acquire_now) (use False in \<open>simp_all add: Tr_def r_def\<close>)
    have "of_nat (length (filter (immediate_in a b) (simulate rl (t # ts))))
        \<le> (if t \<le> b then 1 else 0) + (of_nat (length (filter (immediate_in a b) (simulate (fst (acquire rl t)) ts))) :: rat)"
      by (simp add: acq)
    also have "\<dots> \<le> (if t \<le> b then 1 else 0) + max 0 (Tr - 1 + r * (b - t))" using IH r' by (simp add: acq)
    also have "\<dots> \<le> max 0 (tokens rl + r * (b - last_refill rl))"
    proof (cases "t \<le> b")
      case True
      then have "0 \<le> r * (b - t)" using rpos by simp
      then show ?thesis using True False Tr_le split nn by (simp add: max_def)
    next
      case False
      then show ?thesis using Tr_le split nn by (simp add: max_def)
    qed
    finally show ?thesis by (simp add: r_def)
  qed
qed

lemma acquire_refilled:
  "acquire (rl\<lparr>tokens := min (of_int (max_per_minute rl)) (tokens rl + (now - last_refill rl) * refill_rate rl),
                last_refill := now\<rparr>) now = acquire rl now"
  unfolding acquire_def Let_def by simp

lemma imm_count_window:
  assumes "limiter_inv m rl" "0 < m" "sorted ts" "\<forall>t\<in>set ts. last_refill rl \<le> t" "a \<le> b"
  shows "of_nat (length (filter (immediate_in a b) (simulate rl ts)))
          \<le> of_int m + refill_rate rl * (b - a)"
  using assms
proof (induction ts arbitrary: rl)
  case Nil
  then show ?case by (simp add: limiter_inv_def)
next
  case (Cons t ts)
  have Lt: "last_refill rl \<le> t" using Cons.prems by simp
  have inv: "max_per_minute rl = m" "refill_rate rl = of_int m / 60" "0 \<le> tokens rl" "tokens rl \<le> of_int m"
    using Cons.prems(1) by (auto simp: limiter_inv_def)
  have rpos: "0 < refill_rate rl" using inv Cons.prems(2) by simp
  show ?case
  proof (cases "t < a")
    case True
    have inv': "limiter_inv m (fst (acquire rl t))" and L': "last_refill (fst (acquire rl t)) = t"
      using acquire_inv[OF Cons.prems(1,2) Lt] by auto
    have r': "refill_rate (fst (acquire rl t)) = refill_rate rl"
      using inv' inv by (simp add: limiter_inv_def)
    have IH: "of_nat (length (filter (immediate_in a b) (simulate (fst (acquire rl t)) ts)))
          \<le> of_int m + refill_rate rl * (b - a)"
      using Cons.IH[OF inv' Cons.prems(2)] Cons.prems(3,4,5) L' r' by auto
    have "filter (immediate_in a b) (simulate rl (t # ts))
        = filter (immediate_in a b) (simulate (fst (acquire rl t)) ts)"
      using True by (cases "acquire rl t") (auto split: sum.splits)
    then show ?thesis using IH by simp
  next
    case False
    define rl0 where "rl0 = rl\<lparr>tokens := min (of_int (max_per_minute rl)) (tokens rl + (t - last_refill rl) * refill_rate rl),
                last_refill := t\<rparr>"
    have eq: "simulate rl (t # ts) = simulate rl0 (t # ts)"
      by (simp add: rl0_def acquire_refilled)
    have nn: "0 \<le> (t - last_refill rl) * refill_rate rl" using rpos Lt by simp
    have inv0: "limiter_inv m rl0"
      using inv nn Cons.prems(2) by (simp add: limiter_inv_def rl0_def min_def)
    have T0: "tokens rl0 \<le> of_int m" "refill_rate rl0 = refill_rate rl" "last_refill rl0 = t"
      using inv by (simp_all add: rl0_def)
    have "of_nat (length (filter (immediate_in a b) (simulate rl0 (t # ts))))
          \<le> max 0 (tokens rl0 + refill_rate rl0 * (b - last_refill rl0))"
      by (rule imm_count_inside[OF inv0 Cons.prems(2,3)]) (use Cons.prems(3) T0 in auto)
    also have "\<dots> \<le> of_int m + refill_rate rl * (b - a)"
    proof -
      have "refill_rate rl * (b - t) \<le> refill_rate rl * (b - a)"
        using rpos False by simp
      moreover have "0 \<le> refill_rate rl * (b - a)" using rpos Cons.prems(5) by simp
      moreover have "(0::rat) \<le> of_int m" using Cons.prems(2) by simp
      ultimately show ?thesis using T0 by (simp add: max_def)
    qed
    finally show ?thesis unfolding eq .
  qed
qed

lemma acquire_at_refill:
  assumes "1 \<le> tokens rl" "tokens rl \<le> of_int (max_per_minute rl)"
  shows "acquire rl (last_refill rl) = (rl\<lparr>tokens := tokens rl - 1\<rparr>, Inr 0)"
  using assms unfolding acquire_def Let_def by (simp add: min_def)

lemma simulate_burst:
  assumes "of_nat n \<le> tokens rl" "tokens rl \<le> of_int (max_per_minute rl)"
  shows "simulate rl (replicate n (last_refill rl) @ ts)
       = replicate n (Inr (last_refill rl, 0)) @ simulate (rl\<lparr>tokens := tokens rl - of_nat n\<rparr>) ts"
  using assms
proof (induction n arbitrary: rl)
  case 0
  then show ?case by simp
next
  case (Suc n)
  have a: "acquire rl (last_refill rl) = (rl\<lparr>tokens := tokens rl - 1\<rparr>, Inr 0)"
    by (rule acquire_at_refill) (use Suc.prems in auto)
  have "simulate (rl\<lparr>tokens := tokens rl - 1\<rparr>) (replicate n (last_refill (rl\<lparr>tokens := tokens rl - 1\<rparr>)) @ ts)
      = replicate n (Inr (last_refill (rl\<lparr>tokens := tokens rl - 1\<rparr>), 0))
        @ simulate (rl\<lparr>tokens := tokens rl - 1\<rparr>\<lparr>tokens := tokens (rl\<lparr>tokens := tokens rl - 1\<rparr>) - of_nat n\<rparr>) ts"
    by (rule Suc.IH) (use Suc.prems in auto)
  then show ?case by (simp add: a algebra_simps)
qed

lemma sim15:
  "simulate (RateLimiter_init 15 0) (replicate 15 0 @ [4]) = replicate 15 (Inr (0, 0)) @ [Inr (4, 0)]"
proof -
  have "simulate (RateLimiter_init 15 0) (replicate 15 (last_refill (RateLimiter_init 15 0)) @ [4])
      = replicate 15 (Inr (last_refill (RateLimiter_init 15 0), 0))
        @ simulate ((RateLimiter_init 15 0)\<lparr>tokens := tokens (RateLimiter_init 15 0) - of_nat 15\<rparr>) [4]"
    by (rule simulate_burst) (simp_all add: RateLimiter_init_def)
  then show ?thesis
    by (simp add: RateLimiter_init_def acquire_def Let_def)
qed

text \<open>
  Claim C7, as stated: under any clock, no 60-second window contains more than
  \<^verbatim>\<open>max_per_minute\<close> completed calls of \<^verbatim>\<open>acquire()\<close>.  The bucket starts full, so a limiter
  configured with 15 calls per minute (refill rate \<open>1/4\<close> token per second) lets 15 calls
  through at time 0 and a sixteenth at time 4: sixteen completed calls within four seconds.
\<close>

theorem sliding_window_counterexample:
  "\<not> length (filter (completed_in 0 60) (simulate (RateLimiter_init 15 0) (replicate 15 0 @ [4]))) \<le> nat 15"
  by (simp add: sim15)

text \<open>
  Claim C7, amended: for a limiter configured with \<^verbatim>\<open>max_per_minute\<close> \<open>= m > 0\<close> and calls made at
  non-decreasing clock readings, every 60-second window \<open>[a, a + 60]\<close> contains at most
  \<open>2 * m\<close> calls of \<^verbatim>\<open>acquire()\<close> that return without sleeping: the capacity of the full bucket
  plus one minute of refill.  Nothing is stated about the calls that sleep.
\<close>

theorem acquire_immediate_window_bound:
  assumes "0 < m" and "sorted (t0 # ts)"
  shows "length (filter (immediate_in a (a + 60)) (simulate (RateLimiter_init m t0) ts)) \<le> nat (2 * m)"
proof -
  have inv: "limiter_inv m (RateLimiter_init m t0)"
    using assms(1) by (simp add: limiter_inv_def RateLimiter_init_def)
  have "of_nat (length (filter (immediate_in a (a + 60)) (simulate (RateLimiter_init m t0) ts)))
          \<le> of_int m + refill_rate (RateLimiter_init m t0) * ((a + 60) - a)"
    by (rule imm_count_window[OF inv assms(1)]) (use assms(2) in \<open>auto simp: RateLimiter_init_def\<close>)
  also have "\<dots> = (of_int (2 * m) :: rat)" by (simp add: RateLimiter_init_def)
  finally have "int (length (filter (immediate_in a (a + 60)) (simulate (RateLimiter_init m t0) ts))) \<le> 2 * m"
    by (metis of_int_le_iff of_int_of_nat_eq)
  then show ?thesis by simp
qed

theorem acquire_immediate_window_bound_witness:
  "(0::int) < 15 \<and> sorted ((0::rat) # replicate 15 0 @ [4]) \<and>
   length (filter (immediate_in 0 (0 + 60)) (simulate (RateLimiter_init 15 0) (replicate 15 0 @ [4])))
     \<le> nat (2 * 15)"
proof -
  have s: "sorted ((0::rat) # replicate 15 0 @ [4])" by (simp add: sorted_append)
  have m: "(0::int) < 15" by simp
  from acquire_immediate_window_bound[OF m s, of 0] m s show ?thesis by blast
qed

section \<open>Data model (\<^verbatim>\<open>src/models.py\<close>)\<close>

text \<open>
  Strings are byte strings: a Python \<^verbatim>\<open>str\<close> is represented by its UTF-8 encoding, which is
  what \<^verbatim>\<open>str.encode()\<close> hashes.  The field \<^verbatim>\<open>Product.id\<close> is named \<open>id'\<close>.
\<close>

record CreativeBrief =
  setting :: string
  mood :: string
  key_visual_elements :: "string list"

record BrandStyle =
  color_palette :: "string list"
  visual_style :: string
  photography_style :: string

record Product =
  id' :: string
  name :: string
  description :: string
  category :: string
  creative_brief :: CreativeBrief
  brand_style :: BrandStyle

record CampaignBrief =
  campaign_id :: string
  region :: string
  target_audience :: string
  campaign_message :: string
  locales :: "string list"
  products :: "Product list"

datatype AspectRatio = SQUARE | VERTICAL | HORIZONTAL

text \<open>\<^verbatim>\<open>AspectRatio.value\<close>.\<close>

fun aspect_value :: "AspectRatio \<Rightarrow> string" where
  "aspect_value SQUARE = ''1:1''"
| "aspect_value VERTICAL = ''9:16''"
| "aspect_value HORIZONTAL = ''16:9''"

section \<open>SHA-256 (\<^verbatim>\<open>hashlib.sha256\<close>, FIPS 180-4) and the cache key\<close>

text \<open>
  The standard library's hash is written out so that the cache key is a computable value.
  Words are 32 bits wide and addition wraps.  The round constants and the initial hash
  value are given in decimal; the test vector below checks them.
\<close>

definition K256 :: "32 word list" where
  "K256 =
     [1116352408, 1899447441, 3049323471, 3921009573, 961987163, 1508970993,
      2453635748, 2870763221, 3624381080, 310598401, 607225278, 1426881987,
      1925078388, 2162078206, 2614888103, 3248222580, 3835390401, 4022224774,
      264347078, 604807628, 770255983, 1249150122, 1555081692, 1996064986,
      2554220882, 2821834349, 2952996808, 3210313671, 3336571891, 3584528711,
      113926993, 338241895, 666307205, 773529912, 1294757372, 1396182291,
      1695183700, 1986661051, 2177026350, 2456956037, 2730485921, 2820302411,
      3259730800, 3345764771, 3516065817, 3600352804, 4094571909, 275423344,
      430227734, 506948616, 659060556, 883997877, 958139571, 1322822218,
      1537002063, 1747873779, 1955562222, 2024104815, 2227730452, 2361852424,
      2428436474, 2756734187, 3204031479, 3329325298]"

definition H256 :: "32 word list" where
  "H256 =
     [1779033703, 3144134277, 1013904242, 2773480762,
      1359893119, 2600822924, 528734635, 1541459225]"

definition rotr :: "nat \<Rightarrow> 32 word \<Rightarrow> 32 word" where
  "rotr n x = word_rotr n x"

definition Ch :: "32 word \<Rightarrow> 32 word \<Rightarrow> 32 word \<Rightarrow> 32 word" where
  "Ch x y z = (x AND y) XOR (NOT x AND z)"

definition Maj :: "32 word \<Rightarrow> 32 word \<Rightarrow> 32 word \<Rightarrow> 32 word" where
  "Maj x y z = (x AND y) XOR (x AND z) XOR (y AND z)"

definition Sigma0 :: "32 word \<Rightarrow> 32 word" where
  "Sigma0 x = rotr 2 x XOR rotr 13 x XOR rotr 22 x"

definition Sigma1 :: "32 word \<Rightarrow> 32 word" where
  "Sigma1 x = rotr 6 x XOR rotr 11 x XOR rotr 25 x"

definition sigma0 :: "32 word \<Rightarrow> 32 word" where
  "sigma0 x = rotr 7 x XOR rotr 18 x XOR drop_bit 3 x"

definition sigma1 :: "32 word \<Rightarrow> 32 word" where
  "sigma1 x = rotr 17 x XOR rotr 19 x XOR drop_bit 10 x"

definition be_bytes64 :: "64 word \<Rightarrow> 8 word list" where
  "be_bytes64 v = map (\<lambda>i. ucast (drop_bit (8 * (7 - i)) v)) [0..<8]"

definition sha_pad :: "8 word list \<Rightarrow> 8 word list" where
  "sha_pad bs =
     bs @ [0x80] @ replicate ((55 + 64 - length bs mod 64) mod 64) 0
        @ be_bytes64 (of_nat (8 * length bs))"

fun be_words :: "8 word list \<Rightarrow> 32 word list" where
  "be_words (a # b # c # d # bs) =
     (push_bit 24 (ucast a) OR push_bit 16 (ucast b) OR push_bit 8 (ucast c) OR ucast d) # be_words bs"
| "be_words bs = []"

fun chunks :: "nat \<Rightarrow> 'a list \<Rightarrow> 'a list list" where
  "chunks 0 xs = []"
| "chunks (Suc n) xs = take 16 xs # chunks n (drop 16 xs)"

fun schedule :: "nat \<Rightarrow> 32 word list \<Rightarrow> 32 word list" where
  "schedule 0 w = w"
| "schedule (Suc n) w =
     schedule n (w @ [sigma1 (w ! (length w - 2)) + w ! (length w - 7)
                      + sigma0 (w ! (length w - 15)) + w ! (length w - 16)])"

fun sha_round :: "32 word list \<Rightarrow> 32 word \<times> 32 word \<Rightarrow> 32 word list" where
  "sha_round [a, b, c, d, e, f, g, h] (k, w) =
     (let t1 = h + Sigma1 e + Ch e f g + k + w;
          t2 = Sigma0 a + Maj a b c
      in [t1 + t2, a, b, c, d + t1, e, f, g])"
| "sha_round s kw = s"

definition compress :: "32 word list \<Rightarrow> 32 word list \<Rightarrow> 32 word list" where
  "compress hs block = map2 (+) hs (foldl sha_round hs (zip K256 (schedule 48 block)))"

definition sha256 :: "8 word list \<Rightarrow> 32 word list" where
  "sha256 bs =
     (let ws = be_words (sha_pad bs) in foldl compress H256 (chunks (length ws div 16) ws))"

definition hex_chars :: string where
  "hex_chars = ''0123456789abcdef''"

definition hex_digit :: "nat \<Rightarrow> char" where
  "hex_digit n = hex_chars ! n"

definition hex32 :: "32 word \<Rightarrow> string" where
  "hex32 w = map (\<lambda>i. hex_digit (unat (drop_bit (4 * (7 - i)) w AND 15))) [0..<8]"

definition hexdigest :: "32 word list \<Rightarrow> string" where
  "hexdigest ws = concat (map hex32 ws)"

definition encode :: "string \<Rightarrow> 8 word list" where
  "encode s = map (\<lambda>c. of_nat (of_char c)) s"

text \<open>
  \<^verbatim>\<open>AssetManager._compute_cache_key\<close> (\<^verbatim>\<open>src/asset_manager.py\<close>): the f-string joins the product
  id, the campaign message and the region with underscores; the key is the first 16
  characters of the hexadecimal digest.
\<close>

definition compute_cache_key :: "string \<Rightarrow> CampaignBrief \<Rightarrow> string" where
  "compute_cache_key product_id campaign_brief =
     (let content = product_id @ ''_'' @ campaign_message campaign_brief @ ''_'' @ region campaign_brief
      in take 16 (hexdigest (sha256 (encode content))))"

subsection \<open>Properties of the digest and of the key\<close>

text \<open>A test vector of FIPS 180-4, evaluated by the kernel.\<close>

lemma sha256_abc:
  "hexdigest (sha256 (encode ''abc''))
     = ''ba7816bf8f01cfea414140de5dae2223b00361a396177a9cb410ff61f20015ad''"
  by code_simp

lemma length_sha_round: "length (sha_round s kw) = length s"
  by (induction s kw rule: sha_round.induct) (auto simp: Let_def)

lemma length_foldl_sha_round: "length (foldl sha_round s kws) = length s"
  by (induction kws arbitrary: s) (auto simp: length_sha_round)

lemma length_compress: "length (compress hs block) = length hs"
  by (simp add: compress_def length_foldl_sha_round)

lemma length_foldl_compress: "length (foldl compress hs bs) = length hs"
  by (induction bs arbitrary: hs) (auto simp: length_compress)

lemma length_sha256: "length (sha256 bs) = 8"
  by (simp add: sha256_def Let_def length_foldl_compress H256_def)

lemma length_hex32: "length (hex32 w) = 8"
  by (simp add: hex32_def)

lemma length_hexdigest: "length (hexdigest ws) = 8 * length ws"
  by (induction ws) (auto simp: hexdigest_def length_hex32)

lemma hex_digit_in: "n < 16 \<Longrightarrow> hex_digit n \<in> set hex_chars"
  unfolding hex_digit_def by (rule nth_mem) (simp add: hex_chars_def)

lemma unat_and_15: "unat ((w :: 32 word) AND 15) < 16"
proof -
  have "w AND 15 \<le> 15" by (rule word_and_le1)
  then have "unat (w AND 15) \<le> unat (15 :: 32 word)" by (simp add: word_le_nat_alt)
  then show ?thesis by simp
qed

lemma set_hex32: "set (hex32 w) \<subseteq> set hex_chars"
  unfolding hex32_def set_map by (rule image_subsetI) (rule hex_digit_in[OF unat_and_15])

lemma set_hexdigest: "set (hexdigest ws) \<subseteq> set hex_chars"
  unfolding hexdigest_def using set_hex32 by (induction ws) auto

text \<open>
  Claim C4: the cache key is a function of the product id, the campaign message and the
  region only.  It is the first 16 characters of the hexadecimal SHA-256 digest of the three
  values joined by underscores; it has exactly 16 characters, all of them hexadecimal
  digits; and it does not change when any other field of the brief (campaign id, audience,
  locales, products) changes.  The function has no aspect-ratio argument at all, and being
  a function, equal arguments give equal keys.
\<close>

theorem compute_cache_key_spec:
  "compute_cache_key product_id brief =
     take 16 (hexdigest (sha256 (encode (product_id @ ''_'' @ campaign_message brief @ ''_'' @ region brief))))
   \<and> length (compute_cache_key product_id brief) = 16
   \<and> set (compute_cache_key product_id brief) \<subseteq> set hex_chars
   \<and> compute_cache_key product_id
        (brief\<lparr>campaign_id := c, target_audience := a, locales := ls, products := ps\<rparr>)
       = compute_cache_key product_id brief"
proof -
  let ?d = "hexdigest (sha256 (encode (product_id @ ''_'' @ campaign_message brief @ ''_'' @ region brief)))"
  have k: "compute_cache_key product_id brief = take 16 ?d"
    unfolding compute_cache_key_def Let_def by (rule refl)
  have "length (take 16 ?d) = 16"
    by (simp only: length_take length_hexdigest length_sha256)
  then have len: "length (compute_cache_key product_id brief) = 16"
    by (simp only: k)
  have "set (take 16 ?d) \<subseteq> set hex_chars"
    using set_take_subset set_hexdigest by (rule subset_trans)
  then have hex: "set (compute_cache_key product_id brief) \<subseteq> set hex_chars"
    by (simp only: k)
  have sel: "campaign_message (brief\<lparr>campaign_id := c, target_audience := a, locales := ls, products := ps\<rparr>)
               = campaign_message brief"
       "region (brief\<lparr>campaign_id := c, target_audience := a, locales := ls, products := ps\<rparr>)
               = region brief"
    by simp_all
  have indep: "compute_cache_key product_id
        (brief\<lparr>campaign_id := c, target_audience := a, locales := ls, products := ps\<rparr>)
       = compute_cache_key product_id brief"
    unfolding compute_cache_key_def Let_def by (simp only: sel)
  show ?thesis
    by (rule conjI[OF k conjI[OF len conjI[OF hex indep]]])
qed

text \<open>The key of product \<open>p1\<close> in a campaign with message \<open>hello world\<close> for region \<open>US\<close>.\<close>

lemma compute_cache_key_example:
  "compute_cache_key ''p1''
     \<lparr>campaign_id = ''c1'', region = ''US'', target_audience = ''all'',
      campaign_message = ''hello world'', locales = [''en'', ''fr''], products = []\<rparr>
   = ''89d5517ac9c2d24d''"
  by code_simp

section \<open>File system, clock and effects\<close>

text \<open>
  The world the pipeline runs in.  A file that exists is either an image that
  \<^verbatim>\<open>Image.open\<close> returns or a file on which it raises.  The existence test \<^verbatim>\<open>Path.exists()\<close>
  answers whether the path is in \<open>files\<close>, unless the path is one for which the test itself
  raises (\<open>stat_error\<close>: \<^verbatim>\<open>OSError\<close> for a component that is too long or a directory that
  may not be searched).  A write to a path may fail with an exception (\<open>write_error\<close>).  The clock is the reading of \<^verbatim>\<open>time.time()\<close>; sleeping
  advances it.  The trace records, in order, the calls whose occurrence the claims speak
  about; it is the only thing added to what the source computes.
\<close>

datatype 'img png_file = Unreadable | Readable 'img

datatype event =
    EvAcquire
  | EvExists string
  | EvOpen string
  | EvCacheKey string
  | EvLoad string
  | EvSave string
  | EvGenerate string

record 'img world =
  files :: "string \<rightharpoonup> 'img png_file"
  stat_error :: "string \<rightharpoonup> exn"
  write_error :: "string \<rightharpoonup> exn"
  clock :: rat
  limiter :: RateLimiter
  trace :: "event list"

definition emit :: "event \<Rightarrow> 'img world \<Rightarrow> 'img world" where
  "emit e w = w\<lparr>trace := trace w @ [e]\<rparr>"

text \<open>\<^verbatim>\<open>Path(a) / b\<close>, on path components that hold no separator.\<close>

definition path_join :: "string \<Rightarrow> string \<Rightarrow> string" where
  "path_join a b = a @ ''/'' @ b"

section \<open>Storage (\<^verbatim>\<open>src/storage.py\<close>, class \<^verbatim>\<open>LocalStorage\<close>)\<close>

record LocalStorage =
  base_path :: string

text \<open>\<^verbatim>\<open>Path.exists()\<close>: the answer, or the exception of the test.\<close>

definition path_exists :: "'img world \<Rightarrow> string \<Rightarrow> exn + bool" where
  "path_exists w p = (case stat_error w p of Some e \<Rightarrow> Inl e | None \<Rightarrow> Inr (files w p \<noteq> None))"

text \<open>
  \<^verbatim>\<open>LocalStorage.load\<close>: \<^verbatim>\<open>None\<close> when the file is missing or cannot be opened.  The existence
  test stands before the \<^verbatim>\<open>try\<close>, so its exception leaves the method.
\<close>

definition load ::
  "LocalStorage \<Rightarrow> string \<Rightarrow> 'img world \<Rightarrow> (exn + 'img option) \<times> 'img world" where
  "load st path w =
     (let full_path = path_join (base_path st) path;
          w' = emit (EvLoad full_path) w
      in case path_exists w full_path of
           Inl e \<Rightarrow> (Inl e, w')
         | Inr False \<Rightarrow> (Inr None, w')
         | Inr True \<Rightarrow>
             (case files w full_path of
                Some (Readable img) \<Rightarrow> (Inr (Some img), w')
              | _ \<Rightarrow> (Inr None, w')))"

text \<open>\<^verbatim>\<open>LocalStorage.save\<close>: writes the PNG and returns the full path.\<close>

definition save :: "LocalStorage \<Rightarrow> string \<Rightarrow> 'img \<Rightarrow> 'img world \<Rightarrow> (exn + string) \<times> 'img world" where
  "save st path hero w =
     (let full_path = path_join (base_path st) path;
          w' = emit (EvSave full_path) w
      in case write_error w full_path of
           Some e \<Rightarrow> (Inl e, w')
         | None \<Rightarrow> (Inr full_path, w'\<lparr>files := (files w')(full_path \<mapsto> Readable hero)\<rparr>))"

section \<open>Hero resolution (\<^verbatim>\<open>src/asset_manager.py\<close>, class \<^verbatim>\<open>AssetManager\<close>)\<close>

text \<open>
  The image generator is the external service: \<open>image_generator am product brief\<close> is the
  outcome of \<^verbatim>\<open>ImageGenerator.generate_hero\<close>, the exception it raises after its retries or
  the image and its cost.
\<close>

record 'img AssetManager =
  input_folder :: string
  cache_enabled :: bool
  cache_storage :: LocalStorage
  image_generator :: "Product \<Rightarrow> CampaignBrief \<Rightarrow> exn + 'img \<times> rat"

definition campaign_hero_path :: "'img AssetManager \<Rightarrow> string \<Rightarrow> string \<Rightarrow> string" where
  "campaign_hero_path am product_id campaign_id' =
     path_join (path_join (input_folder am) campaign_id') (product_id @ ''.png'')"

definition global_hero_path :: "'img AssetManager \<Rightarrow> string \<Rightarrow> string" where
  "global_hero_path am product_id = path_join (input_folder am) (product_id @ ''.png'')"

text \<open>
  \<^verbatim>\<open>AssetManager._check_input_folder\<close>.  Each of the two blocks tests \<^verbatim>\<open>exists()\<close> and then
  opens the file inside \<^verbatim>\<open>try ... except Exception: pass\<close>, so a file that cannot be opened
  falls through to the next block.  The test itself stands outside the \<^verbatim>\<open>try\<close>: when it
  raises, the method raises.  \<open>try_input\<close> is one block; its result is the exception, or
  the image when the block returned one.
\<close>

definition try_input :: "string \<Rightarrow> 'img world \<Rightarrow> (exn + 'img option) \<times> 'img world" where
  "try_input path w =
     (let w1 = emit (EvExists path) w
      in case path_exists w1 path of
           Inl e \<Rightarrow> (Inl e, w1)
         | Inr False \<Rightarrow> (Inr None, w1)
         | Inr True \<Rightarrow>
             (case files w1 path of
                Some (Readable img) \<Rightarrow> (Inr (Some img), emit (EvOpen path) w1)
              | _ \<Rightarrow> (Inr None, emit (EvOpen path) w1)))"

definition check_input_folder ::
  "'img AssetManager \<Rightarrow> string \<Rightarrow> string \<Rightarrow> 'img world \<Rightarrow> (exn + 'img option) \<times> 'img world" where
  "check_input_folder am product_id campaign_id' w =
     (let campaign_hero = campaign_hero_path am product_id campaign_id'
      in case try_input campaign_hero w of
           (Inl e, w1) \<Rightarrow> (Inl e, w1)
         | (Inr (Some img), w1) \<Rightarrow> (Inr (Some img), w1)
         | (Inr None, w1) \<Rightarrow>
             (let global_hero = global_hero_path am product_id
              in try_input global_hero w1))"

definition cache_path :: "string \<Rightarrow> string" where
  "cache_path cache_key = ''hero_'' @ cache_key @ ''.png''"

text \<open>\<^verbatim>\<open>AssetManager._check_cache\<close> and \<^verbatim>\<open>AssetManager._save_to_cache\<close>.\<close>

definition check_cache ::
  "'img AssetManager \<Rightarrow> string \<Rightarrow> 'img world \<Rightarrow> (exn + 'img option) \<times> 'img world" where
  "check_cache am cache_key w = load (cache_storage am) (cache_path cache_key) w"

definition save_to_cache ::
  "'img AssetManager \<Rightarrow> string \<Rightarrow> 'img \<Rightarrow> 'img world \<Rightarrow> (exn + string) \<times> 'img world" where
  "save_to_cache am cache_key hero w = save (cache_storage am) (cache_path cache_key) hero w"

text \<open>
  \<^verbatim>\<open>AssetManager.get_or_generate_hero\<close>.  The result is the triple (image, is_cached, cost) or
  the exception raised.  \<^verbatim>\<open>if cache_key:\<close> holds for a key that is neither \<^verbatim>\<open>None\<close> nor
  empty.
\<close>

definition get_or_generate_hero ::
  "'img AssetManager \<Rightarrow> Product \<Rightarrow> CampaignBrief \<Rightarrow> 'img world
     \<Rightarrow> (exn + 'img \<times> bool \<times> rat) \<times> 'img world" where
  "get_or_generate_hero am product campaign_brief w =
     (case check_input_folder am (id' product) (campaign_id campaign_brief) w of
        (Inl e, w1) \<Rightarrow> (Inl e, w1)
      | (Inr (Some input_image), w1) \<Rightarrow> (Inr (input_image, False, 0), w1)
      | (Inr None, w1) \<Rightarrow>
          (let (cache_key, w2) =
                 (if cache_enabled am
                  then (let k = compute_cache_key (id' product) campaign_brief
                        in (Some k, emit (EvCacheKey k) w1))
                  else (None, w1));
               use_cache = (case cache_key of None \<Rightarrow> False | Some k \<Rightarrow> k \<noteq> []);
               (cached_image, w3) =
                 (if use_cache then check_cache am (the cache_key) w2 else (Inr None, w2))
           in case cached_image of
                Inl e \<Rightarrow> (Inl e, w3)
              | Inr (Some img) \<Rightarrow> (Inr (img, True, 0), w3)
              | Inr None \<Rightarrow>
                  (let w4 = emit (EvGenerate (id' product)) w3
                   in case image_generator am product campaign_brief of
                        Inl e \<Rightarrow> (Inl e, w4)
                      | Inr (hero, cost) \<Rightarrow>
                          (if use_cache
                           then (case save_to_cache am (the cache_key) hero w4 of
                                   (Inl e, w5) \<Rightarrow> (Inl e, w5)
                                 | (Inr p, w5) \<Rightarrow> (Inr (hero, False, cost), w5))
                           else (Inr (hero, False, cost), w4)))))"

text \<open>
  The resolution order in the words of the specification: the campaign-scoped file, the
  global file, the cache (when enabled), then generation.  \<open>readable w p\<close> is the image of
  a file whose existence test at \<open>p\<close> answers yes and which can be opened.  A step whose
  existence test raises ends the resolution with that exception.
\<close>

definition readable :: "'img world \<Rightarrow> string \<Rightarrow> 'img option" where
  "readable w p =
     (case stat_error w p of
        Some e \<Rightarrow> None
      | None \<Rightarrow> (case files w p of Some (Readable img) \<Rightarrow> Some img | _ \<Rightarrow> None))"

definition hero_cache_file :: "'img AssetManager \<Rightarrow> Product \<Rightarrow> CampaignBrief \<Rightarrow> string" where
  "hero_cache_file am product b =
     path_join (base_path (cache_storage am)) (cache_path (compute_cache_key (id' product) b))"

definition generate_and_cache ::
  "'img AssetManager \<Rightarrow> Product \<Rightarrow> CampaignBrief \<Rightarrow> 'img world \<Rightarrow> exn + 'img \<times> bool \<times> rat" where
  "generate_and_cache am product b w =
     (case image_generator am product b of
        Inl e \<Rightarrow> Inl e
      | Inr (hero, cost) \<Rightarrow>
          (if cache_enabled am
           then (case write_error w (hero_cache_file am product b) of
                   Some e \<Rightarrow> Inl e
                 | None \<Rightarrow> Inr (hero, False, cost))
           else Inr (hero, False, cost)))"

definition resolve_by_priority ::
  "'img AssetManager \<Rightarrow> Product \<Rightarrow> CampaignBrief \<Rightarrow> 'img world \<Rightarrow> exn + 'img \<times> bool \<times> rat" where
  "resolve_by_priority am product b w =
     (case stat_error w (campaign_hero_path am (id' product) (campaign_id b)) of
        Some e \<Rightarrow> Inl e
      | None \<Rightarrow>
     (case readable w (campaign_hero_path am (id' product) (campaign_id b)) of
        Some img \<Rightarrow> Inr (img, False, 0)
      | None \<Rightarrow>
     (case stat_error w (global_hero_path am (id' product)) of
        Some e \<Rightarrow> Inl e
      | None \<Rightarrow>
     (case readable w (global_hero_path am (id' product)) of
        Some img \<Rightarrow> Inr (img, False, 0)
      | None \<Rightarrow>
     (if cache_enabled am
      then (case stat_error w (hero_cache_file am product b) of
              Some e \<Rightarrow> Inl e
            | None \<Rightarrow>
           (case readable w (hero_cache_file am product b) of
              Some img \<Rightarrow> Inr (img, True, 0)
            | None \<Rightarrow> generate_and_cache am product b w))
      else generate_and_cache am product b w)))))"

text \<open>The events a call added to the trace, and what they tell.\<close>

definition new_events :: "'img world \<Rightarrow> 'img world \<Rightarrow> event list" where
  "new_events w w' = drop (length (trace w)) (trace w')"

fun cache_event :: "event \<Rightarrow> bool" where
  "cache_event (EvCacheKey k) = True"
| "cache_event (EvLoad p) = True"
| "cache_event (EvSave p) = True"
| "cache_event e = False"

fun generate_event :: "event \<Rightarrow> bool" where
  "generate_event (EvGenerate p) = True"
| "generate_event e = False"

subsection \<open>Properties of hero resolution\<close>

lemma compute_cache_key_nonempty: "compute_cache_key pid b \<noteq> []"
proof -
  have "length (compute_cache_key pid b) = 16"
    unfolding compute_cache_key_def Let_def
    by (simp only: length_take length_hexdigest length_sha256)
  then show ?thesis by auto
qed

lemma new_events_append [simp]: "new_events w (w'\<lparr>trace := trace w @ es\<rparr>) = es"
  by (simp add: new_events_def)

lemma path_exists_emit [simp]: "path_exists (emit ev w) p = path_exists w p"
  by (simp add: path_exists_def emit_def split: option.splits)

lemma try_input_readable:
  assumes "readable w p = Some img"
  shows "try_input p w = (Inr (Some img), w\<lparr>trace := trace w @ [EvExists p, EvOpen p]\<rparr>)"
  using assms
  by (auto simp: try_input_def path_exists_def readable_def emit_def Let_def
           split: option.splits png_file.splits)

lemma try_input_result:
  "\<exists>es. try_input p w =
         (case stat_error w p of Some e \<Rightarrow> Inl e | None \<Rightarrow> Inr (readable w p),
          w\<lparr>trace := trace w @ es\<rparr>)
       \<and> \<not> list_ex cache_event es \<and> \<not> list_ex generate_event es"
  by (auto simp: try_input_def path_exists_def readable_def emit_def Let_def
           split: option.splits png_file.splits)

lemma readable_trace [simp]: "readable (w\<lparr>trace := t\<rparr>) p = readable w p"
  by (simp add: readable_def split: option.splits)

lemma check_input_folder_campaign:
  assumes "readable w (campaign_hero_path am pid cid) = Some img"
  shows "check_input_folder am pid cid w
       = (Inr (Some img), w\<lparr>trace := trace w @ [EvExists (campaign_hero_path am pid cid),
                                                  EvOpen (campaign_hero_path am pid cid)]\<rparr>)"
  by (simp add: check_input_folder_def Let_def try_input_readable[OF assms])

text \<open>What the two blocks return, in terms of the files: \<open>input_lookup\<close>.\<close>

definition input_lookup :: "'img AssetManager \<Rightarrow> string \<Rightarrow> string \<Rightarrow> 'img world \<Rightarrow> exn + 'img option" where
  "input_lookup am pid cid w =
     (case stat_error w (campaign_hero_path am pid cid) of
        Some e \<Rightarrow> Inl e
      | None \<Rightarrow>
     (case readable w (campaign_hero_path am pid cid) of
        Some img \<Rightarrow> Inr (Some img)
      | None \<Rightarrow>
     (case stat_error w (global_hero_path am pid) of
        Some e \<Rightarrow> Inl e
      | None \<Rightarrow> Inr (readable w (global_hero_path am pid)))))"

lemma check_input_folder_result:
  "\<exists>es. check_input_folder am pid cid w = (input_lookup am pid cid w, w\<lparr>trace := trace w @ es\<rparr>)
       \<and> \<not> list_ex cache_event es \<and> \<not> list_ex generate_event es"
proof -
  let ?cp = "campaign_hero_path am pid cid"
  let ?gp = "global_hero_path am pid"
  obtain es1 where 1: "try_input ?cp w =
         (case stat_error w ?cp of Some e \<Rightarrow> Inl e | None \<Rightarrow> Inr (readable w ?cp),
          w\<lparr>trace := trace w @ es1\<rparr>)"
    and n1: "\<not> list_ex cache_event es1" "\<not> list_ex generate_event es1"
    using try_input_result[of ?cp w] by (elim exE conjE)
  let ?w1 = "w\<lparr>trace := trace w @ es1\<rparr>"
  obtain es2 where 2: "try_input ?gp ?w1 =
         (case stat_error ?w1 ?gp of Some e \<Rightarrow> Inl e | None \<Rightarrow> Inr (readable ?w1 ?gp),
          ?w1\<lparr>trace := trace ?w1 @ es2\<rparr>)"
    and n2: "\<not> list_ex cache_event es2" "\<not> list_ex generate_event es2"
    using try_input_result[of ?gp ?w1] by (elim exE conjE)
  show ?thesis
  proof (cases "stat_error w ?cp")
    case (Some e)
    then show ?thesis using 1 n1
      by (intro exI[of _ es1]) (simp add: check_input_folder_def input_lookup_def Let_def)
  next
    case None
    show ?thesis
    proof (cases "readable w ?cp")
      case (Some img)
      then show ?thesis using 1 n1 None
        by (intro exI[of _ es1]) (simp add: check_input_folder_def input_lookup_def Let_def)
    next
      case rn: None
      have "check_input_folder am pid cid w =
              (input_lookup am pid cid w, w\<lparr>trace := trace w @ (es1 @ es2)\<rparr>)"
        using 1 2 None rn
        by (simp add: check_input_folder_def input_lookup_def Let_def split: option.splits)
      moreover have "\<not> list_ex cache_event (es1 @ es2)" "\<not> list_ex generate_event (es1 @ es2)"
        using n1 n2 by (auto simp: list_ex_iff)
      ultimately show ?thesis by blast
    qed
  qed
qed

lemma get_or_generate_hero_input:
  assumes "check_input_folder am (id' p) (campaign_id b) w = (Inr (Some img), w1)"
  shows "get_or_generate_hero am p b w = (Inr (img, False, 0), w1)"
  using assms by (simp add: get_or_generate_hero_def)

lemma get_or_generate_hero_raise:
  assumes "check_input_folder am (id' p) (campaign_id b) w = (Inl e, w1)"
  shows "get_or_generate_hero am p b w = (Inl e, w1)"
  using assms by (simp add: get_or_generate_hero_def)

lemma get_or_generate_hero_miss:
  assumes "check_input_folder am (id' p) (campaign_id b) w = (Inr None, w\<lparr>trace := trace w @ es\<rparr>)"
  shows "fst (get_or_generate_hero am p b w) =
           (if cache_enabled am
            then (case stat_error w (hero_cache_file am p b) of
                    Some e \<Rightarrow> Inl e
                  | None \<Rightarrow>
                 (case readable w (hero_cache_file am p b) of
                    Some img \<Rightarrow> Inr (img, True, 0)
                  | None \<Rightarrow> generate_and_cache am p b w))
            else generate_and_cache am p b w)"
    and "list_ex generate_event (new_events w (snd (get_or_generate_hero am p b w)))
          \<Longrightarrow> es = es' \<Longrightarrow> \<not> list_ex generate_event es'
          \<Longrightarrow> cache_enabled am \<Longrightarrow> readable w (hero_cache_file am p b) = None"
  using assms compute_cache_key_nonempty[of "id' p" b]
  by (auto simp: get_or_generate_hero_def check_cache_def save_to_cache_def load_def save_def
                 hero_cache_file_def readable_def emit_def Let_def new_events_def path_exists_def
                 generate_and_cache_def
           split: option.splits png_file.splits sum.splits prod.splits bool.splits)

subsection \<open>A concrete campaign\<close>

text \<open>
  One product \<open>p1\<close> in campaign \<open>c1\<close>; images are numbered.  The example generator
  returns image 9 at the cost of an \<^verbatim>\<open>hd\<close> image, \<open>0.08\<close>.
\<close>

definition ex_product :: Product where
  "ex_product =
     \<lparr>id' = ''p1'', name = ''Bottle'', description = ''A reusable steel bottle'',
      category = ''outdoor'',
      creative_brief = \<lparr>setting = ''studio'', mood = ''calm'', key_visual_elements = [''water'']\<rparr>,
      brand_style = \<lparr>color_palette = [''#FFFFFF''], visual_style = ''minimal'',
                     photography_style = ''Commercial product photography''\<rparr>\<rparr>"

definition ex_brief :: CampaignBrief where
  "ex_brief =
     \<lparr>campaign_id = ''c1'', region = ''US'', target_audience = ''all'',
      campaign_message = ''hello world'', locales = [''en'', ''fr''], products = [ex_product]\<rparr>"

definition ex_manager :: "(Product \<Rightarrow> CampaignBrief \<Rightarrow> exn + nat \<times> rat) \<Rightarrow> nat AssetManager" where
  "ex_manager gen =
     \<lparr>input_folder = ''./assets/input'', cache_enabled = True,
      cache_storage = \<lparr>base_path = ''./cache''\<rparr>, image_generator = gen\<rparr>"

definition ex_generator :: "Product \<Rightarrow> CampaignBrief \<Rightarrow> exn + nat \<times> rat" where
  "ex_generator p b = Inr (9, 2 / 25)"

definition ex_world :: "(string \<rightharpoonup> nat png_file) \<Rightarrow> nat world" where
  "ex_world fs =
     \<lparr>files = fs, stat_error = Map.empty, write_error = Map.empty, clock = 0,
      limiter = RateLimiter_init 45 0, trace = []\<rparr>"

definition ex_cache_file :: string where
  "ex_cache_file = hero_cache_file (ex_manager ex_generator) ex_product ex_brief"

lemma ex_cache_file_eq: "ex_cache_file = ''./cache/hero_'' @ compute_cache_key ''p1'' ex_brief @ ''.png''"
  by (simp add: ex_cache_file_def hero_cache_file_def ex_manager_def path_join_def cache_path_def ex_product_def)

lemma ex_sel [simp]:
  "input_folder (ex_manager g) = ''./assets/input''"
  "cache_enabled (ex_manager g) = True"
  "cache_storage (ex_manager g) = \<lparr>base_path = ''./cache''\<rparr>"
  "image_generator (ex_manager g) = g"
  "id' ex_product = ''p1''"
  "campaign_id ex_brief = ''c1''"
  "files (ex_world fs) = fs"
  "stat_error (ex_world fs) = Map.empty"
  "write_error (ex_world fs) = Map.empty"
  "trace (ex_world fs) = []"
  by (simp_all add: ex_manager_def ex_product_def ex_brief_def ex_world_def)

lemma ex_paths:
  "campaign_hero_path (ex_manager g) ''p1'' ''c1'' = ''./assets/input/c1/p1.png''"
  "global_hero_path (ex_manager g) ''p1'' = ''./assets/input/p1.png''"
  "hero_cache_file (ex_manager g) ex_product ex_brief = ex_cache_file"
  by (simp_all add: campaign_hero_path_def global_hero_path_def path_join_def cache_path_def
        ex_cache_file_def hero_cache_file_def)

lemma ex_cache_file_neq [simp]:
  "ex_cache_file \<noteq> ''./assets/input/c1/p1.png''" "ex_cache_file \<noteq> ''./assets/input/p1.png''"
  "''./assets/input/c1/p1.png'' \<noteq> ex_cache_file" "''./assets/input/p1.png'' \<noteq> ex_cache_file"
  by (simp_all add: ex_cache_file_eq)

text \<open>The campaign file exists but cannot be opened, and a cache entry exists.\<close>

lemma run_unreadable:
  "get_or_generate_hero (ex_manager ex_generator) ex_product ex_brief
     (ex_world [''./assets/input/c1/p1.png'' \<mapsto> Unreadable, ex_cache_file \<mapsto> Readable 7])
   = (Inr (7, True, 0),
      (ex_world [''./assets/input/c1/p1.png'' \<mapsto> Unreadable, ex_cache_file \<mapsto> Readable 7])
        \<lparr>trace := [EvExists ''./assets/input/c1/p1.png'', EvOpen ''./assets/input/c1/p1.png'',
                   EvExists ''./assets/input/p1.png'',
                   EvCacheKey (compute_cache_key ''p1'' ex_brief), EvLoad ex_cache_file]\<rparr>)"
  using compute_cache_key_nonempty[of "''p1''" ex_brief]
  by (simp add: get_or_generate_hero_def check_input_folder_def try_input_def path_exists_def ex_paths check_cache_def load_def
        emit_def Let_def ex_cache_file_eq[symmetric, simplified] path_join_def cache_path_def)

text \<open>No input file and no cache entry: the hero is generated and written to the cache.\<close>

lemma run_generate:
  "get_or_generate_hero (ex_manager ex_generator) ex_product ex_brief (ex_world Map.empty)
   = (Inr (9, False, 2 / 25),
      (ex_world Map.empty)
        \<lparr>files := [ex_cache_file \<mapsto> Readable 9],
         trace := [EvExists ''./assets/input/c1/p1.png'', EvExists ''./assets/input/p1.png'',
                   EvCacheKey (compute_cache_key ''p1'' ex_brief), EvLoad ex_cache_file,
                   EvGenerate ''p1'', EvSave ex_cache_file]\<rparr>)"
  using compute_cache_key_nonempty[of "''p1''" ex_brief]
  by (simp add: get_or_generate_hero_def check_input_folder_def try_input_def path_exists_def ex_paths check_cache_def load_def
        save_to_cache_def save_def ex_generator_def
        emit_def Let_def ex_cache_file_eq[symmetric, simplified] path_join_def cache_path_def)

text \<open>
  The existence test of the campaign-scoped file raises (the name of the campaign is too
  long for a path component): the exception leaves \<^verbatim>\<open>get_or_generate_hero\<close>, and neither the
  global file nor the cache nor the generator is tried.
\<close>

lemma run_exists_raises:
  "get_or_generate_hero (ex_manager ex_generator) ex_product ex_brief
     ((ex_world [''./assets/input/p1.png'' \<mapsto> Readable 5])
        \<lparr>stat_error := [''./assets/input/c1/p1.png'' \<mapsto> Exn OSError ''File name too long'']\<rparr>)
   = (Inl (Exn OSError ''File name too long''),
      (ex_world [''./assets/input/p1.png'' \<mapsto> Readable 5])
        \<lparr>stat_error := [''./assets/input/c1/p1.png'' \<mapsto> Exn OSError ''File name too long''],
         trace := [EvExists ''./assets/input/c1/p1.png'']\<rparr>)"
  by (simp add: get_or_generate_hero_def check_input_folder_def try_input_def path_exists_def
        ex_paths emit_def Let_def)

text \<open>
  Claim C3, as stated: if a campaign-scoped file exists at
  \<^verbatim>\<open>{input_root}/{campaign_id}/{product_id}.png\<close>, it is returned with cost 0 and the cache
  is never consulted.  A file that exists but cannot be opened is skipped by the
  \<^verbatim>\<open>except Exception: pass\<close> of \<^verbatim>\<open>_check_input_folder\<close>: here the campaign file exists, the
  hero returned is the cached image 7 with \<^verbatim>\<open>is_cached = True\<close>, and the cache key was
  computed and the cache file loaded.
\<close>

theorem campaign_file_unreadable_counterexample:
  "files (ex_world [''./assets/input/c1/p1.png'' \<mapsto> Unreadable, ex_cache_file \<mapsto> Readable 7])
      (campaign_hero_path (ex_manager ex_generator) (id' ex_product) (campaign_id ex_brief))
     = Some Unreadable
   \<and> fst (get_or_generate_hero (ex_manager ex_generator) ex_product ex_brief
            (ex_world [''./assets/input/c1/p1.png'' \<mapsto> Unreadable, ex_cache_file \<mapsto> Readable 7]))
     = Inr (7, True, 0)
   \<and> list_ex cache_event
        (new_events (ex_world [''./assets/input/c1/p1.png'' \<mapsto> Unreadable, ex_cache_file \<mapsto> Readable 7])
           (snd (get_or_generate_hero (ex_manager ex_generator) ex_product ex_brief
              (ex_world [''./assets/input/c1/p1.png'' \<mapsto> Unreadable, ex_cache_file \<mapsto> Readable 7]))))"
  by (simp add: run_unreadable ex_paths new_events_def)

text \<open>
  Claim C3, amended: hero resolution is first-match-wins over the campaign-scoped file, the
  global file, the cache (when enabled) and generation, where a file matches when its
  existence test answers yes and it can be opened; an existence test that raises is not
  caught and ends the resolution with its exception.  The result of \<^verbatim>\<open>get_or_generate_hero\<close>
  is the one \<open>resolve_by_priority\<close> describes.  When the campaign-scoped file can be opened it
  is returned with \<^verbatim>\<open>is_cached = False\<close> and cost 0 and the call does nothing but test and open
  that file: no cache key is computed and no cache file is loaded.  Whenever the cache was
  consulted, neither input file could be opened; whenever the generator was called, neither
  input file could be opened and, with the cache enabled, the cache held no image that
  could be opened.
\<close>

theorem hero_resolution_priority:
  "fst (get_or_generate_hero am p b w) = resolve_by_priority am p b w
   \<and> (\<forall>img. readable w (campaign_hero_path am (id' p) (campaign_id b)) = Some img \<longrightarrow>
         get_or_generate_hero am p b w
           = (Inr (img, False, 0),
              w\<lparr>trace := trace w @ [EvExists (campaign_hero_path am (id' p) (campaign_id b)),
                                    EvOpen (campaign_hero_path am (id' p) (campaign_id b))]\<rparr>))
   \<and> (list_ex cache_event (new_events w (snd (get_or_generate_hero am p b w))) \<longrightarrow>
         readable w (campaign_hero_path am (id' p) (campaign_id b)) = None
       \<and> readable w (global_hero_path am (id' p)) = None)
   \<and> (list_ex generate_event (new_events w (snd (get_or_generate_hero am p b w))) \<longrightarrow>
         readable w (campaign_hero_path am (id' p) (campaign_id b)) = None
       \<and> readable w (global_hero_path am (id' p)) = None
       \<and> (cache_enabled am \<longrightarrow> readable w (hero_cache_file am p b) = None))"
proof -
  let ?cp = "campaign_hero_path am (id' p) (campaign_id b)"
  let ?gp = "global_hero_path am (id' p)"
  let ?look = "input_lookup am (id' p) (campaign_id b) w"
  obtain es where chk: "check_input_folder am (id' p) (campaign_id b) w =
         (?look, w\<lparr>trace := trace w @ es\<rparr>)"
    and nc: "\<not> list_ex cache_event es" and ng: "\<not> list_ex generate_event es"
    using check_input_folder_result[of am "id' p" "campaign_id b" w] by (elim exE conjE)
  have camp: "\<forall>img. readable w ?cp = Some img \<longrightarrow>
         get_or_generate_hero am p b w
           = (Inr (img, False, 0), w\<lparr>trace := trace w @ [EvExists ?cp, EvOpen ?cp]\<rparr>)"
  proof (intro allI impI)
    fix img assume a: "readable w ?cp = Some img"
    show "get_or_generate_hero am p b w
           = (Inr (img, False, 0), w\<lparr>trace := trace w @ [EvExists ?cp, EvOpen ?cp]\<rparr>)"
      by (rule get_or_generate_hero_input) (rule check_input_folder_campaign[OF a])
  qed
  show ?thesis
  proof (cases ?look)
    case (Inl e)
    have g: "get_or_generate_hero am p b w = (Inl e, w\<lparr>trace := trace w @ es\<rparr>)"
      using chk Inl get_or_generate_hero_raise by simp
    have "resolve_by_priority am p b w = Inl e"
      using Inl by (auto simp: resolve_by_priority_def input_lookup_def split: option.splits)
    then show ?thesis using g nc ng camp by simp
  next
    case (Inr found)
    show ?thesis
    proof (cases found)
      case (Some img)
      have g: "get_or_generate_hero am p b w = (Inr (img, False, 0), w\<lparr>trace := trace w @ es\<rparr>)"
        using chk Inr Some get_or_generate_hero_input by simp
      have "resolve_by_priority am p b w = Inr (img, False, 0)"
        using Inr Some by (auto simp: resolve_by_priority_def input_lookup_def split: option.splits)
      then show ?thesis using g nc ng camp by simp
    next
      case None
      have r: "stat_error w ?cp = None" "readable w ?cp = None"
              "stat_error w ?gp = None" "readable w ?gp = None"
        using Inr None by (auto simp: input_lookup_def split: option.splits)
      have chk': "check_input_folder am (id' p) (campaign_id b) w = (Inr None, w\<lparr>trace := trace w @ es\<rparr>)"
        using chk Inr None by simp
      have v: "fst (get_or_generate_hero am p b w) = resolve_by_priority am p b w"
        using get_or_generate_hero_miss(1)[OF chk'] r by (simp add: resolve_by_priority_def)
      have gen: "list_ex generate_event (new_events w (snd (get_or_generate_hero am p b w)))
            \<longrightarrow> cache_enabled am \<longrightarrow> readable w (hero_cache_file am p b) = None"
        using get_or_generate_hero_miss(2)[OF chk' _ refl ng] by blast
      show ?thesis using v r gen by simp
    qed
  qed
qed

theorem hero_resolution_priority_witness:
  "readable (ex_world [''./assets/input/c1/p1.png'' \<mapsto> Readable 3, ex_cache_file \<mapsto> Readable 7])
      (campaign_hero_path (ex_manager ex_generator) (id' ex_product) (campaign_id ex_brief)) = Some 3
   \<and> get_or_generate_hero (ex_manager ex_generator) ex_product ex_brief
        (ex_world [''./assets/input/c1/p1.png'' \<mapsto> Readable 3, ex_cache_file \<mapsto> Readable 7])
     = (Inr (3, False, 0),
        (ex_world [''./assets/input/c1/p1.png'' \<mapsto> Readable 3, ex_cache_file \<mapsto> Readable 7])
          \<lparr>trace := [EvExists ''./assets/input/c1/p1.png'', EvOpen ''./assets/input/c1/p1.png'']\<rparr>)
   \<and> list_ex cache_event
        (new_events (ex_world [''./assets/input/c1/p1.png'' \<mapsto> Unreadable, ex_cache_file \<mapsto> Readable 7])
           (snd (get_or_generate_hero (ex_manager ex_generator) ex_product ex_brief
              (ex_world [''./assets/input/c1/p1.png'' \<mapsto> Unreadable, ex_cache_file \<mapsto> Readable 7]))))
   \<and> readable (ex_world [''./assets/input/c1/p1.png'' \<mapsto> Unreadable, ex_cache_file \<mapsto> Readable 7])
        ''./assets/input/c1/p1.png'' = None
   \<and> list_ex generate_event
        (new_events (ex_world Map.empty)
           (snd (get_or_generate_hero (ex_manager ex_generator) ex_product ex_brief (ex_world Map.empty))))
   \<and> readable (ex_world Map.empty) ex_cache_file = None
   \<and> fst (get_or_generate_hero (ex_manager ex_generator) ex_product ex_brief (ex_world Map.empty))
       = resolve_by_priority (ex_manager ex_generator) ex_product ex_brief (ex_world Map.empty)"
proof -
  let ?am = "ex_manager ex_generator"
  let ?wA = "ex_world [''./assets/input/c1/p1.png'' \<mapsto> Readable 3, ex_cache_file \<mapsto> Readable 7]"
  let ?wB = "ex_world [''./assets/input/c1/p1.png'' \<mapsto> Unreadable, ex_cache_file \<mapsto> Readable 7]"
  let ?wC = "ex_world Map.empty :: nat world"
  have rA: "readable ?wA (campaign_hero_path ?am (id' ex_product) (campaign_id ex_brief)) = Some 3"
    by (simp add: readable_def ex_paths)
  have cB: "list_ex cache_event (new_events ?wB (snd (get_or_generate_hero ?am ex_product ex_brief ?wB)))"
    by (simp add: run_unreadable new_events_def)
  have gC: "list_ex generate_event (new_events ?wC (snd (get_or_generate_hero ?am ex_product ex_brief ?wC)))"
    by (simp add: run_generate new_events_def)
  note A = hero_resolution_priority[of ?am ex_product ex_brief ?wA]
  note B = hero_resolution_priority[of ?am ex_product ex_brief ?wB]
  note C = hero_resolution_priority[of ?am ex_product ex_brief ?wC]
  from A rA have "get_or_generate_hero ?am ex_product ex_brief ?wA
     = (Inr (3, False, 0),
        ?wA\<lparr>trace := trace ?wA @ [EvExists (campaign_hero_path ?am (id' ex_product) (campaign_id ex_brief)),
            EvOpen (campaign_hero_path ?am (id' ex_product) (campaign_id ex_brief))]\<rparr>)"
    by blast
  then have a: "get_or_generate_hero ?am ex_product ex_brief ?wA
     = (Inr (3, False, 0),
        ?wA\<lparr>trace := [EvExists ''./assets/input/c1/p1.png'', EvOpen ''./assets/input/c1/p1.png'']\<rparr>)"
    by (simp add: ex_paths)
  from B cB have "readable ?wB (campaign_hero_path ?am (id' ex_product) (campaign_id ex_brief)) = None"
    by blast
  then have b: "readable ?wB ''./assets/input/c1/p1.png'' = None" by (simp add: ex_paths)
  from C gC have "readable ?wC (hero_cache_file ?am ex_product ex_brief) = None"
    by simp
  then have c: "readable ?wC ex_cache_file = None" by (simp add: ex_paths)
  from C have d: "fst (get_or_generate_hero ?am ex_product ex_brief ?wC)
       = resolve_by_priority ?am ex_product ex_brief ?wC" by blast
  show ?thesis using rA a cB b gC c d by blast
qed

section \<open>Pre-flight validation (\<^verbatim>\<open>src/governance.py\<close>, \<^verbatim>\<open>GovernanceEngine.validate_campaign_brief\<close>)\<close>

text \<open>
  The validator answers in JSON.  A parsed JSON value, with Python's truth value of it;
  numbers are integers here, and an object is the \<^verbatim>\<open>dict\<close> in insertion order.  \<open>type_name\<close>
  is \<^verbatim>\<open>type(v).__name__\<close>, as the messages of \<^verbatim>\<open>AttributeError\<close> and \<^verbatim>\<open>TypeError\<close> show it.
\<close>

datatype json =
  JNull | JBool bool | JNum int | JStr string | JArr "json list" | JObj "(string \<times> json) list"

fun truthy :: "json \<Rightarrow> bool" where
  "truthy JNull = False"
| "truthy (JBool b) = b"
| "truthy (JNum n) = (n \<noteq> 0)"
| "truthy (JStr s) = (s \<noteq> [])"
| "truthy (JArr xs) = (xs \<noteq> [])"
| "truthy (JObj kvs) = (kvs \<noteq> [])"

fun type_name :: "json \<Rightarrow> string" where
  "type_name JNull = ''NoneType''"
| "type_name (JBool b) = ''bool''"
| "type_name (JNum n) = ''int''"
| "type_name (JStr s) = ''str''"
| "type_name (JArr xs) = ''list''"
| "type_name (JObj kvs) = ''dict''"

text \<open>
  \<^verbatim>\<open>v.get(key, default)\<close>: the entry or the default when \<open>v\<close> is a \<^verbatim>\<open>dict\<close>, and an
  \<^verbatim>\<open>AttributeError\<close> when it is a value of another type.
\<close>

definition no_attribute :: "json \<Rightarrow> string \<Rightarrow> exn" where
  "no_attribute v attr =
     Exn AttributeError ([CHR 0x27] @ type_name v @ [CHR 0x27] @ '' object has no attribute ''
                         @ [CHR 0x27] @ attr @ [CHR 0x27])"

definition dict_get :: "json \<Rightarrow> string \<Rightarrow> json \<Rightarrow> exn + json" where
  "dict_get v key dflt =
     (case v of
        JObj kvs \<Rightarrow> Inr (case map_of kvs key of None \<Rightarrow> dflt | Some x \<Rightarrow> x)
      | _ \<Rightarrow> Inl (no_attribute v ''get''))"

text \<open>
  The engine after \<^verbatim>\<open>__init__\<close>.  \<open>llm_client\<close> is \<^verbatim>\<open>None\<close> when validation is disabled or no
  API key is configured; otherwise it maps the prompt to the content of the first choice
  of the chat completion, or to the exception the call raises.  \<open>json_loads\<close> is the
  standard library's parser.
\<close>

record GovernanceEngine =
  prohibited_categories :: "string list"
  validation_blocking :: bool
  llm_client :: "(string \<Rightarrow> exn + string) option"
  json_loads :: "string \<Rightarrow> exn + json"

text \<open>\<^verbatim>\<open>", ".join(xs)\<close> and \<^verbatim>\<open>"\n".join(xs)\<close>.\<close>

fun join :: "string \<Rightarrow> string list \<Rightarrow> string" where
  "join sep [] = []"
| "join sep [x] = x"
| "join sep (x # y # ys) = x @ sep @ join sep (y # ys)"

text \<open>Decimal digits of a natural number, as \<^verbatim>\<open>str(n)\<close> prints them.\<close>

fun str_nat :: "nat \<Rightarrow> string" where
  "str_nat n =
     (if n < 10 then [char_of (48 + n)] else str_nat (n div 10) @ [char_of (48 + n mod 10)])"

text \<open>\<^verbatim>\<open>GovernanceEngine._format_products_for_validation\<close>.\<close>

definition format_products_for_validation :: "Product list \<Rightarrow> string" where
  "format_products_for_validation ps =
     join [CHR 0x0A]
       (concat (map (\<lambda>p.
          [''- '' @ name p @ '': '' @ description p,
           ''  Setting: '' @ setting (creative_brief p),
           ''  Mood: '' @ mood (creative_brief p),
           ''  Style: '' @ visual_style (brand_style p)]) ps))"

definition validation_prompt :: "GovernanceEngine \<Rightarrow> CampaignBrief \<Rightarrow> string" where
  "validation_prompt g brief =
     (let prohibited_list = join '', '' (prohibited_categories g) in
      ''Validate this advertising campaign brief for image generation quality:'' @ [CHR 0x0A, CHR 0x0A]
      @ ''Campaign: '' @ campaign_id brief @ [CHR 0x0A]
      @ ''Message: '' @ campaign_message brief @ [CHR 0x0A]
      @ ''Target Audience: '' @ target_audience brief @ [CHR 0x0A]
      @ ''Region: '' @ region brief @ [CHR 0x0A, CHR 0x0A]
      @ ''Products ('' @ str_nat (length (products brief)) @ ''):'' @ [CHR 0x0A]
      @ format_products_for_validation (products brief) @ [CHR 0x0A, CHR 0x0A]
      @ ''Validate for:'' @ [CHR 0x0A]
      @ ''1. Brand alignment - Does message match professional brand voice?'' @ [CHR 0x0A]
      @ ''2. Prohibited content - Check for: '' @ prohibited_list @ [CHR 0x0A]
      @ ''3. Completeness - Are all required fields present and clear?'' @ [CHR 0x0A]
      @ ''4. Image generation quality - Will this produce good commercial imagery?'' @ [CHR 0x0A, CHR 0x0A]
      @ ''Respond in JSON:'' @ [CHR 0x0A]
      @ ''{\"passed\": true/false, \"errors\": [], \"warnings\": [], \"suggestions\": []}'' @ [CHR 0x0A, CHR 0x0A]
      @ ''Errors = blocking issues that prevent generation. Warnings = proceed with caution. Suggestions = improvements.'')"

text \<open>The dictionary returned when the \<^verbatim>\<open>try\<close> block raised \<open>e\<close>.\<close>

definition validation_failed :: "exn \<Rightarrow> json" where
  "validation_failed e =
     JObj [(''passed'', JBool False),
           (''errors'', JArr [JStr (''LLM validation failed: '' @ exn_str e)]),
           (''warnings'', JArr []),
           (''suggestions'', JArr [])]"

text \<open>
  \<^verbatim>\<open>GovernanceEngine.validate_campaign_brief\<close>.  Inside the \<^verbatim>\<open>try\<close> block: the call, the parse,
  and, in blocking mode only (the \<^verbatim>\<open>and\<close> does not evaluate its right operand otherwise),
  \<^verbatim>\<open>result.get('errors')\<close> and the assignment \<^verbatim>\<open>result['passed'] = False\<close>.  Every exception
  of the block yields the failed result; without blocking mode the parsed value is returned
  as it is, whatever its type.
\<close>

definition validate_campaign_brief :: "GovernanceEngine \<Rightarrow> CampaignBrief \<Rightarrow> json" where
  "validate_campaign_brief g brief =
     (case llm_client g of
        None \<Rightarrow>
          JObj [(''passed'', JBool True), (''errors'', JArr []),
                (''warnings'', JArr [JStr ''LLM validation disabled'']), (''suggestions'', JArr [])]
      | Some client \<Rightarrow>
          (case client (validation_prompt g brief) of
             Inl e \<Rightarrow> validation_failed e
           | Inr content \<Rightarrow>
               (case json_loads g content of
                  Inl e \<Rightarrow> validation_failed e
                | Inr result \<Rightarrow>
                    (if validation_blocking g
                     then (case dict_get result ''errors'' JNull of
                             Inl e \<Rightarrow> validation_failed e
                           | Inr errs \<Rightarrow>
                               (if truthy errs
                                then (case result of
                                        JObj kvs \<Rightarrow> JObj (AList.update ''passed'' (JBool False) kvs)
                                      | _ \<Rightarrow> result)
                                else result))
                     else result))))"

text \<open>
  \<^verbatim>\<open>validation_result.get('passed', True)\<close>, as the condition of an \<^verbatim>\<open>if\<close>, and
  \<^verbatim>\<open>validation_result.get('errors', [])\<close>.
\<close>

definition result_passed :: "json \<Rightarrow> exn + bool" where
  "result_passed r = map_sum id truthy (dict_get r ''passed'' (JBool True))"

definition result_errors :: "json \<Rightarrow> exn + json" where
  "result_errors r = dict_get r ''errors'' (JArr [])"

text \<open>A validator configuration for the examples: blocking mode with the default categories.\<close>

definition ex_governance :: "(string \<Rightarrow> exn + string) option \<Rightarrow> GovernanceEngine" where
  "ex_governance client =
     \<lparr>prohibited_categories = [''violence'', ''hate speech'', ''sexual content''],
      validation_blocking = True, llm_client = client,
      json_loads = (\<lambda>s. Inr (JObj [(''passed'', JBool True), (''errors'', JArr [])]))\<rparr>"

text \<open>
  Claim C8: whenever the external validator is unavailable, that is, the call to it raises,
  \<^verbatim>\<open>validate_campaign_brief\<close> returns a failed result for every brief: \<^verbatim>\<open>passed\<close> is false and
  \<^verbatim>\<open>errors\<close> is the non-empty list holding the message of the exception.
\<close>

theorem validate_campaign_brief_fail_closed:
  assumes "llm_client g = Some client"
    and "client (validation_prompt g brief) = Inl e"
  shows "validate_campaign_brief g brief = validation_failed e
       \<and> result_passed (validate_campaign_brief g brief) = Inr False
       \<and> result_errors (validate_campaign_brief g brief)
            = Inr (JArr [JStr (''LLM validation failed: '' @ exn_str e)])
       \<and> map_sum id truthy (result_errors (validate_campaign_brief g brief)) = Inr True"
  using assms
  by (simp add: validate_campaign_brief_def validation_failed_def result_passed_def result_errors_def
        dict_get_def)

theorem validate_campaign_brief_fail_closed_witness:
  "llm_client (ex_governance (Some (\<lambda>prompt. Inl (Exn ServiceError ''Connection error.''))))
      = Some (\<lambda>prompt. Inl (Exn ServiceError ''Connection error.''))
   \<and> validate_campaign_brief (ex_governance (Some (\<lambda>prompt. Inl (Exn ServiceError ''Connection error.'')))) ex_brief
      = JObj [(''passed'', JBool False),
              (''errors'', JArr [JStr ''LLM validation failed: Connection error.'']),
              (''warnings'', JArr []),
              (''suggestions'', JArr [])]
   \<and> result_passed (validate_campaign_brief
          (ex_governance (Some (\<lambda>prompt. Inl (Exn ServiceError ''Connection error.'')))) ex_brief)
      = Inr False"
proof -
  let ?c = "\<lambda>prompt::string. (Inl (Exn ServiceError ''Connection error.'') :: exn + string)"
  have 1: "llm_client (ex_governance (Some ?c)) = Some ?c" by (simp add: ex_governance_def)
  have 2: "?c (validation_prompt (ex_governance (Some ?c)) ex_brief) = Inl (Exn ServiceError ''Connection error.'')"
    by simp
  from validate_campaign_brief_fail_closed[OF 1 2] 1 show ?thesis
    by (simp add: validation_failed_def result_passed_def dict_get_def)
qed

section \<open>Execution context (\<^verbatim>\<open>src/utils.py\<close>, class \<^verbatim>\<open>ExecutionContext\<close>)\<close>

text \<open>
  The field \<^verbatim>\<open>campaign_id\<close> of the context is named \<open>ctx_campaign_id\<close>; the fields of the
  report carry the prefix \<open>report_\<close>, and the keys \<^verbatim>\<open>passed\<close>, \<^verbatim>\<open>warnings\<close>, \<^verbatim>\<open>errors\<close> of the
  compliance summary the prefix \<open>summary_\<close>.
\<close>

record ExecutionContext =
  ctx_campaign_id :: string
  start_time :: "rat option"
  end_time :: "rat option"
  costs :: "rat list"
  timings :: "(string \<times> rat) list"
  errors :: "string list"
  assets_generated :: int
  assets_reused :: int
  stage_timings :: "(string \<times> rat) list"
  hero_images_generated :: int
  hero_images_cached :: int
  variations_created :: int
  products_count :: int

record compliance_summary =
  total_assets :: int
  summary_passed :: int
  summary_warnings :: int
  summary_errors :: int

record ExecutionReport =
  report_campaign_id :: string
  report_products_count :: int
  report_assets_generated :: int
  report_assets_reused :: int
  report_total_cost :: rat
  report_execution_time :: rat
  report_cache_efficiency :: rat
  report_output_path :: string
  report_hero_images_generated :: int
  report_hero_images_cached :: int
  report_variations_created :: int
  report_errors :: "string list"
  report_timings :: "(string \<times> rat) list"
  report_stage_timings :: "(string \<times> rat) list"
  report_compliance_summary :: "compliance_summary option"
  report_worker_count :: int

text \<open>\<^verbatim>\<open>ExecutionContext.__init__\<close> and \<^verbatim>\<open>__enter__\<close> (\<open>now\<close> is the clock reading).\<close>

definition ExecutionContext_init :: "string \<Rightarrow> ExecutionContext" where
  "ExecutionContext_init cid =
     \<lparr>ctx_campaign_id = cid, start_time = None, end_time = None, costs = [], timings = [],
      errors = [], assets_generated = 0, assets_reused = 0, stage_timings = [],
      hero_images_generated = 0, hero_images_cached = 0, variations_created = 0,
      products_count = 0\<rparr>"

definition enter :: "rat \<Rightarrow> ExecutionContext \<Rightarrow> ExecutionContext" where
  "enter now ctx = ctx\<lparr>start_time := Some now\<rparr>"

definition record_cost :: "rat \<Rightarrow> ExecutionContext \<Rightarrow> ExecutionContext" where
  "record_cost amount ctx = ctx\<lparr>costs := costs ctx @ [amount]\<rparr>"

definition record_timing :: "string \<Rightarrow> rat \<Rightarrow> ExecutionContext \<Rightarrow> ExecutionContext" where
  "record_timing operation duration ctx =
     (let stage = (if CHR ''_'' \<in> set operation
                   then takeWhile (\<lambda>c. c \<noteq> CHR ''_'') operation else operation)
      in ctx\<lparr>timings := AList.update operation duration (timings ctx),
              stage_timings :=
                AList.update stage
                  ((case map_of (stage_timings ctx) stage of None \<Rightarrow> 0 | Some d \<Rightarrow> d) + duration)
                  (stage_timings ctx)\<rparr>)"

definition record_error :: "string \<Rightarrow> ExecutionContext \<Rightarrow> ExecutionContext" where
  "record_error error ctx = ctx\<lparr>errors := errors ctx @ [error]\<rparr>"

definition get_total_cost :: "ExecutionContext \<Rightarrow> rat" where
  "get_total_cost ctx = sum_list (costs ctx)"

text \<open>
  \<^verbatim>\<open>ExecutionContext.get_report\<close>.  \<^verbatim>\<open>self.start_time and self.end_time\<close> holds when both are
  set and non-zero.  The keys \<^verbatim>\<open>products_count\<close>, \<^verbatim>\<open>worker_count\<close> and \<^verbatim>\<open>compliance_summary\<close>
  are filled in by the pipeline; until then they hold the defaults of the report model.
\<close>

definition get_report :: "rat \<Rightarrow> ExecutionContext \<Rightarrow> ExecutionReport" where
  "get_report now ctx =
     (let total_cost = get_total_cost ctx;
          total = assets_generated ctx + assets_reused ctx;
          cache_efficiency =
            (if total > 0 then of_int (assets_reused ctx) / of_int total * 100 else 0);
          started = (case start_time ctx of None \<Rightarrow> False | Some t \<Rightarrow> t \<noteq> 0);
          ended = (case end_time ctx of None \<Rightarrow> False | Some t \<Rightarrow> t \<noteq> 0);
          execution_time =
            (if started \<and> ended then the (end_time ctx) - the (start_time ctx)
             else if started then now - the (start_time ctx)
             else 0)
      in \<lparr>report_campaign_id = ctx_campaign_id ctx,
          report_products_count = 0,
          report_assets_generated = assets_generated ctx,
          report_assets_reused = assets_reused ctx,
          report_total_cost = total_cost,
          report_execution_time = execution_time,
          report_cache_efficiency = cache_efficiency,
          report_output_path = ''./output/'' @ ctx_campaign_id ctx,
          report_hero_images_generated = hero_images_generated ctx,
          report_hero_images_cached = hero_images_cached ctx,
          report_variations_created = variations_created ctx,
          report_errors = errors ctx,
          report_timings = timings ctx,
          report_stage_timings = stage_timings ctx,
          report_compliance_summary = None,
          report_worker_count = 3\<rparr>)"

section \<open>The campaign pipeline (\<^verbatim>\<open>src/pipeline.py\<close>, class \<^verbatim>\<open>CampaignPipeline\<close>)\<close>

text \<open>\<^verbatim>\<open>ComplianceResult\<close> (its field \<^verbatim>\<open>errors\<close> is named \<open>errors'\<close>) and \<^verbatim>\<open>GeneratedAsset\<close>.\<close>

record ComplianceResult =
  passed :: bool
  warnings :: "string list"
  errors' :: "string list"
  checks_performed :: "string list"

record GeneratedAsset =
  product_id :: string
  aspect_ratio :: AspectRatio
  asset_locale :: string
  file_path :: string
  generation_cost :: rat
  cached :: bool
  compliance_passed :: bool
  compliance_warnings :: "string list"
  compliance_errors :: "string list"

text \<open>
  The pipeline after \<^verbatim>\<open>__init__\<close>.  The collaborators that call external services or the
  imaging library are functions: \<open>post_processor\<close> is \<^verbatim>\<open>PostProcessor.process\<close>,
  \<open>aspect_processor\<close> is \<^verbatim>\<open>AspectRatioProcessor.create_variation\<close>, \<open>localizer\<close> is
  \<^verbatim>\<open>Localizer.localize_message\<close>, \<open>compositor\<close> is \<^verbatim>\<open>AssetCompositor.compose\<close> and \<open>check_asset\<close>
  is \<^verbatim>\<open>GovernanceEngine.check_asset\<close>; each returns its value or the exception it raises.
  \<open>py_repr\<close> is Python's \<^verbatim>\<open>str()\<close> of a list or a \<^verbatim>\<open>dict\<close>.  The rate limiter of the pipeline is
  the \<open>limiter\<close> of the world.

  The two worker pools are modelled by running the submitted tasks one after the other in
  the order of submission; \<^verbatim>\<open>as_completed\<close> then hands the futures to the collecting loop in
  an order of its own, given by \<open>as_completed_heroes\<close> and \<open>as_completed_assets\<close>.  A future is
  the outcome of its task paired with the key the source stores for it.
\<close>

type_synonym 'img hero_future = "(exn + 'img \<times> bool \<times> rat) \<times> string"

type_synonym asset_future = "(exn + GeneratedAsset) \<times> string \<times> string \<times> string"

record 'img CampaignPipeline =
  asset_manager :: "'img AssetManager"
  post_processor :: "'img \<Rightarrow> exn + 'img"
  aspect_processor :: "'img \<Rightarrow> string \<Rightarrow> exn + 'img"
  localizer :: "string \<Rightarrow> string \<Rightarrow> string \<Rightarrow> exn + string"
  compositor :: "'img \<Rightarrow> string \<Rightarrow> string \<Rightarrow> string \<Rightarrow> string \<Rightarrow> exn + 'img"
  governance :: GovernanceEngine
  check_asset :: "'img \<Rightarrow> string \<Rightarrow> string \<Rightarrow> exn + ComplianceResult"
  py_repr :: "json \<Rightarrow> string"
  output_storage :: LocalStorage
  aspect_ratios :: "AspectRatio list"
  max_workers :: int
  as_completed_heroes :: "'img hero_future list \<Rightarrow> 'img hero_future list"
  as_completed_assets :: "asset_future list \<Rightarrow> asset_future list"

text \<open>
  \<^verbatim>\<open>CampaignPipeline._get_or_generate_hero\<close>, the hero-resolution task of one product: acquire
  a token (sleeping advances the clock), resolve the hero, post-process it.
\<close>

definition pipeline_get_or_generate_hero ::
  "'img CampaignPipeline \<Rightarrow> Product \<Rightarrow> CampaignBrief \<Rightarrow> 'img world
     \<Rightarrow> (exn + 'img \<times> bool \<times> rat) \<times> 'img world" where
  "pipeline_get_or_generate_hero pl product brief w =
     (case acquire (limiter w) (clock w) of
        (rl, Inl e) \<Rightarrow> (Inl e, emit EvAcquire (w\<lparr>limiter := rl\<rparr>))
      | (rl, Inr slept) \<Rightarrow>
          (let w1 = emit EvAcquire (w\<lparr>limiter := rl, clock := clock w + slept\<rparr>)
           in case get_or_generate_hero (asset_manager pl) product brief w1 of
                (Inl e, w2) \<Rightarrow> (Inl e, w2)
              | (Inr (hero_image, is_cached, cost), w2) \<Rightarrow>
                  (case post_processor pl hero_image of
                     Inl e \<Rightarrow> (Inl e, w2)
                   | Inr processed_hero \<Rightarrow> (Inr (processed_hero, is_cached, cost), w2))))"

text \<open>The futures of phase 1: one task per product, in the order of \<^verbatim>\<open>brief.products\<close>.\<close>

fun submit_hero_tasks ::
  "'img CampaignPipeline \<Rightarrow> CampaignBrief \<Rightarrow> Product list \<Rightarrow> 'img world
     \<Rightarrow> 'img hero_future list \<times> 'img world" where
  "submit_hero_tasks pl brief [] w = ([], w)"
| "submit_hero_tasks pl brief (product # ps) w =
     (let (r, w1) = pipeline_get_or_generate_hero pl product brief w;
          (fs, w2) = submit_hero_tasks pl brief ps w1
      in ((r, id' product) # fs, w2))"

text \<open>
  The body of the loop over \<^verbatim>\<open>as_completed(futures)\<close> in \<^verbatim>\<open>_get_heroes\<close>; \<open>hero_error\<close> is
  the f-string of its \<^verbatim>\<open>except\<close> clause.
\<close>

definition hero_error :: "string \<Rightarrow> exn \<Rightarrow> string" where
  "hero_error pid e = ''Failed to get hero for '' @ pid @ '': '' @ exn_str e"

fun hero_done ::
  "(string \<times> 'img) list \<times> ExecutionContext \<Rightarrow> 'img hero_future
     \<Rightarrow> (string \<times> 'img) list \<times> ExecutionContext" where
  "hero_done (heroes, ctx) (Inr (hero_image, is_cached, cost), pid) =
     (AList.update pid hero_image heroes,
      if is_cached then ctx\<lparr>hero_images_cached := hero_images_cached ctx + 1\<rparr>
      else record_cost cost (ctx\<lparr>hero_images_generated := hero_images_generated ctx + 1\<rparr>))"
| "hero_done (heroes, ctx) (Inl e, pid) =
     (heroes, record_error (hero_error pid e) ctx)"

text \<open>\<^verbatim>\<open>CampaignPipeline._get_heroes\<close> (phase 1).\<close>

definition get_heroes ::
  "'img CampaignPipeline \<Rightarrow> CampaignBrief \<Rightarrow> 'img world \<Rightarrow> ExecutionContext
     \<Rightarrow> (string \<times> 'img) list \<times> 'img world \<times> ExecutionContext" where
  "get_heroes pl brief w ctx =
     (let (futures, w1) = submit_hero_tasks pl brief (products brief) w;
          (heroes, ctx1) = foldl hero_done ([], ctx) (as_completed_heroes pl futures)
      in (heroes, w1, ctx1))"

text \<open>
  \<^verbatim>\<open>CampaignPipeline._create_all_variations\<close> (phase 2): the inner and the outer loop.  The
  method has no \<^verbatim>\<open>try\<close>: an exception of \<^verbatim>\<open>create_variation\<close> ends both loops and leaves the
  method.
\<close>

fun create_variations_of ::
  "'img CampaignPipeline \<Rightarrow> 'img \<Rightarrow> AspectRatio list
     \<Rightarrow> (string \<times> 'img) list \<times> ExecutionContext
     \<Rightarrow> exn + (string \<times> 'img) list \<times> ExecutionContext" where
  "create_variations_of pl hero [] vc = Inr vc"
| "create_variations_of pl hero (ar # ars) (vs, c) =
     (case aspect_processor pl hero (aspect_value ar) of
        Inl e \<Rightarrow> Inl e
      | Inr variant \<Rightarrow>
          create_variations_of pl hero ars
            (AList.update (aspect_value ar) variant vs,
             c\<lparr>variations_created := variations_created c + 1\<rparr>))"

fun create_variations_loop ::
  "'img CampaignPipeline \<Rightarrow> (string \<times> 'img) list
     \<Rightarrow> (string \<times> (string \<times> 'img) list) list \<times> ExecutionContext
     \<Rightarrow> exn + (string \<times> (string \<times> 'img) list) list \<times> ExecutionContext" where
  "create_variations_loop pl [] vc = Inr vc"
| "create_variations_loop pl ((pid, hero) # heroes) (variants, c) =
     (case create_variations_of pl hero (aspect_ratios pl) ([], c) of
        Inl e \<Rightarrow> Inl e
      | Inr (vs, c1) \<Rightarrow> create_variations_loop pl heroes (AList.update pid vs variants, c1))"

definition create_all_variations ::
  "'img CampaignPipeline \<Rightarrow> (string \<times> 'img) list \<Rightarrow> ExecutionContext
     \<Rightarrow> exn + (string \<times> (string \<times> 'img) list) list \<times> ExecutionContext" where
  "create_all_variations pl heroes ctx = create_variations_loop pl heroes ([], ctx)"

text \<open>\<^verbatim>\<open>CampaignPipeline._save_output\<close>; \<^verbatim>\<open>aspect_ratio.replace(':', 'x')\<close> is the \<open>map\<close>.\<close>

definition save_output ::
  "'img CampaignPipeline \<Rightarrow> string \<Rightarrow> string \<Rightarrow> string \<Rightarrow> string \<Rightarrow> 'img \<Rightarrow> 'img world
     \<Rightarrow> (exn + string) \<times> 'img world" where
  "save_output pl cid pid aspect locale composed w =
     (let aspect_str = map (\<lambda>c. if c = CHR '':'' then CHR ''x'' else c) aspect;
          filename = aspect_str @ ''_'' @ locale @ ''.png'';
          output_path = cid @ ''/'' @ pid @ ''/'' @ filename
      in save (output_storage pl) output_path composed w)"

text \<open>
  \<^verbatim>\<open>CampaignPipeline._compose_asset\<close>, the composition task of one (product, aspect ratio,
  locale).  \<open>asset_key\<close> is the f-string \<^verbatim>\<open>{product.id}_{aspect_ratio.value}_{locale}\<close>.  An
  exception anywhere in the \<^verbatim>\<open>try\<close> block is recorded in the context and raised again.
\<close>

definition asset_key :: "string \<Rightarrow> string \<Rightarrow> string \<Rightarrow> string" where
  "asset_key pid aspect locale = pid @ ''_'' @ aspect @ ''_'' @ locale"

definition compose_asset ::
  "'img CampaignPipeline \<Rightarrow> Product \<Rightarrow> AspectRatio \<Rightarrow> string \<Rightarrow> CampaignBrief
     \<Rightarrow> (string \<times> (string \<times> 'img) list) list \<Rightarrow> 'img world \<times> ExecutionContext
     \<Rightarrow> (exn + GeneratedAsset) \<times> 'img world \<times> ExecutionContext" where
  "compose_asset pl product ar locale brief variants wc =
     (let (w, ctx) = wc;
          key = asset_key (id' product) (aspect_value ar) locale;
          started = clock w;
          raised = (\<lambda>e w'. (Inl e, w', record_error (key @ '': '' @ exn_str e) ctx))
      in case map_of variants (id' product) of
           None \<Rightarrow> raised (Exn KeyError ([CHR 0x27] @ id' product @ [CHR 0x27])) w
         | Some vs \<Rightarrow>
        (case map_of vs (aspect_value ar) of
           None \<Rightarrow> raised (Exn KeyError ([CHR 0x27] @ aspect_value ar @ [CHR 0x27])) w
         | Some base_image \<Rightarrow>
        (case localizer pl (campaign_message brief) locale (region brief) of
           Inl e \<Rightarrow> raised e w
         | Inr localized_message \<Rightarrow>
        (case compositor pl base_image localized_message (aspect_value ar) locale (campaign_id brief) of
           Inl e \<Rightarrow> raised e w
         | Inr composed_image \<Rightarrow>
        (case check_asset pl composed_image localized_message (id' product) of
           Inl e \<Rightarrow> raised e w
         | Inr compliance_result \<Rightarrow>
        (case save_output pl (campaign_id brief) (id' product) (aspect_value ar) locale
                composed_image w of
                 (Inl e, w1) \<Rightarrow> raised e w1
               | (Inr output_path, w1) \<Rightarrow>
                   (let ctx1 = (if \<not> passed compliance_result
                                then record_error (key @ '': Compliance failed'') ctx else ctx);
                        duration = clock w1 - started;
                        ctx2 = record_timing key duration ctx1
                    in (Inr \<lparr>product_id = id' product, aspect_ratio = ar, asset_locale = locale,
                              file_path = output_path, generation_cost = 0, cached = False,
                              compliance_passed = passed compliance_result,
                              compliance_warnings = warnings compliance_result,
                              compliance_errors = errors' compliance_result\<rparr>,
                        w1, ctx2))))))))"

text \<open>
  The task list of \<^verbatim>\<open>_compose_all_assets\<close>: products without variants are skipped, the others
  get one task per aspect ratio and locale.
\<close>

definition compose_tasks ::
  "'img CampaignPipeline \<Rightarrow> (string \<times> (string \<times> 'img) list) list \<Rightarrow> CampaignBrief
     \<Rightarrow> (Product \<times> AspectRatio \<times> string) list" where
  "compose_tasks pl variants brief =
     concat (map (\<lambda>product.
        if map_of variants (id' product) = None then []
        else concat (map (\<lambda>ar. map (\<lambda>locale. (product, ar, locale)) (locales brief))
                         (aspect_ratios pl)))
       (products brief))"

fun submit_compose_tasks ::
  "'img CampaignPipeline \<Rightarrow> CampaignBrief \<Rightarrow> (string \<times> (string \<times> 'img) list) list
     \<Rightarrow> (Product \<times> AspectRatio \<times> string) list \<Rightarrow> 'img world \<times> ExecutionContext
     \<Rightarrow> asset_future list \<times> 'img world \<times> ExecutionContext" where
  "submit_compose_tasks pl brief variants [] wc = ([], wc)"
| "submit_compose_tasks pl brief variants ((product, ar, locale) # ts) wc =
     (let (r, wc1) = compose_asset pl product ar locale brief variants wc;
          (fs, wc2) = submit_compose_tasks pl brief variants ts wc1
      in ((r, id' product, aspect_value ar, locale) # fs, wc2))"

text \<open>
  The body of the loop over \<^verbatim>\<open>as_completed(futures)\<close> in \<^verbatim>\<open>_compose_all_assets\<close>;
  \<open>compose_error\<close> is the f-string of its \<^verbatim>\<open>except\<close> clause.  A \<^verbatim>\<open>GeneratedAsset\<close> is always
  true in \<^verbatim>\<open>if result:\<close>.
\<close>

definition compose_error :: "string \<times> string \<times> string \<Rightarrow> exn \<Rightarrow> string" where
  "compose_error k e =
     (case k of (pid, aspect, locale) \<Rightarrow>
        ''Failed to compose '' @ pid @ ''_'' @ aspect @ ''_'' @ locale @ '': '' @ exn_str e)"

fun asset_done ::
  "GeneratedAsset list \<times> ExecutionContext \<Rightarrow> asset_future \<Rightarrow> GeneratedAsset list \<times> ExecutionContext" where
  "asset_done (results, ctx) (Inr result, k) = (results @ [result], ctx)"
| "asset_done (results, ctx) (Inl e, k) = (results, record_error (compose_error k e) ctx)"

text \<open>\<^verbatim>\<open>CampaignPipeline._compose_all_assets\<close> (phase 3).\<close>

definition compose_all_assets ::
  "'img CampaignPipeline \<Rightarrow> (string \<times> (string \<times> 'img) list) list \<Rightarrow> CampaignBrief
     \<Rightarrow> 'img world \<Rightarrow> ExecutionContext \<Rightarrow> GeneratedAsset list \<times> 'img world \<times> ExecutionContext" where
  "compose_all_assets pl variants brief w ctx =
     (let tasks = compose_tasks pl variants brief;
          (futures, w1, ctx1) = submit_compose_tasks pl brief variants tasks (w, ctx);
          (results, ctx2) = foldl asset_done ([], ctx1) (as_completed_assets pl futures)
      in (results, w1, ctx2))"

text \<open>
  Iteration over a parsed JSON value (\<^verbatim>\<open>for e in v\<close>): the elements of a list, the characters
  of a string, the keys of a \<^verbatim>\<open>dict\<close>; a \<^verbatim>\<open>TypeError\<close> for a number, a boolean or \<^verbatim>\<open>None\<close>.
  \<open>str_json\<close> is \<^verbatim>\<open>str(v)\<close>, as an f-string shows a value.
\<close>

definition iterate :: "json \<Rightarrow> exn + json list" where
  "iterate v =
     (case v of
        JArr xs \<Rightarrow> Inr xs
      | JStr s \<Rightarrow> Inr (map (\<lambda>c. JStr [c]) s)
      | JObj kvs \<Rightarrow> Inr (map (\<lambda>kv. JStr (fst kv)) kvs)
      | _ \<Rightarrow> Inl (Exn TypeError ([CHR 0x27] @ type_name v @ [CHR 0x27] @ '' object is not iterable'')))"

definition str_json :: "(json \<Rightarrow> string) \<Rightarrow> json \<Rightarrow> string" where
  "str_json repr v =
     (case v of
        JStr s \<Rightarrow> s
      | JNull \<Rightarrow> ''None''
      | JBool b \<Rightarrow> (if b then ''True'' else ''False'')
      | JNum n \<Rightarrow> (if n < 0 then ''-'' else []) @ str_nat (nat \<bar>n\<bar>)
      | _ \<Rightarrow> repr v)"

text \<open>
  The message of the \<^verbatim>\<open>ValueError\<close> raised at the pre-flight gate: one line for each element
  of \<^verbatim>\<open>errors\<close>.
\<close>

definition validation_error_message :: "(json \<Rightarrow> string) \<Rightarrow> json list \<Rightarrow> string" where
  "validation_error_message repr es =
     ''Campaign validation failed:'' @ [CHR 0x0A]
       @ join [CHR 0x0A] (map (\<lambda>e. ''- '' @ str_json repr e) es)"

text \<open>
  The two blocks of \<^verbatim>\<open>run\<close> that print the warnings and the suggestions of the validator:
  \<^verbatim>\<open>if validation_result.get(key): for x in validation_result[key]: print(...)\<close>.  What is
  printed is not modelled; the exception of iterating a value that is true and not
  iterable is.
\<close>

definition print_entries :: "json \<Rightarrow> string \<Rightarrow> exn + unit" where
  "print_entries validation_result key =
     (case dict_get validation_result key JNull of
        Inl e \<Rightarrow> Inl e
      | Inr v \<Rightarrow>
          (if truthy v then (case iterate v of Inl e \<Rightarrow> Inl e | Inr xs \<Rightarrow> Inr ()) else Inr ()))"

text \<open>
  \<^verbatim>\<open>CampaignPipeline._save_execution_report\<close>: the JSON copy of the report goes to
  \<^verbatim>\<open>logs/{campaign_id}_execution.json\<close>.  The content of that file is not part of the modelled
  file system; a failure to write it is.
\<close>

definition save_execution_report :: "string \<Rightarrow> 'img world \<Rightarrow> exn + unit" where
  "save_execution_report campaign_id' w =
     (case write_error w (path_join ''logs'' (campaign_id' @ ''_execution.json'')) of
        Some e \<Rightarrow> Inl e
      | None \<Rightarrow> Inr ())"

text \<open>
  \<^verbatim>\<open>CampaignPipeline.run\<close>.  The gate raises \<^verbatim>\<open>ValueError\<close> before anything else happens.
  Otherwise the three phases run inside the execution context and the report is built from
  it and saved.  An exception of the gate, of the printing of warnings and suggestions, of
  phase 2 or of saving the report leaves \<^verbatim>\<open>run\<close>.
\<close>

definition run_phases ::
  "'img CampaignPipeline \<Rightarrow> CampaignBrief \<Rightarrow> 'img world \<Rightarrow> (exn + ExecutionReport) \<times> 'img world" where
  "run_phases pl brief w =
     (let ctx = enter (clock w) (ExecutionContext_init (campaign_id brief));
          ctx0 = ctx\<lparr>products_count := int (length (products brief))\<rparr>;
          (heroes, w1, ctx1) = get_heroes pl brief w ctx0
      in case create_all_variations pl heroes ctx1 of
           Inl e \<Rightarrow> (Inl e, w1)
         | Inr (variants, ctx2) \<Rightarrow>
             (let (results, w2, ctx3) = compose_all_assets pl variants brief w1 ctx2;
                  report_data = get_report (clock w2) ctx3;
                  summary =
                    \<lparr>total_assets = int (length results),
                     summary_passed = int (length (filter compliance_passed results)),
                     summary_warnings = sum_list (map (\<lambda>r. int (length (compliance_warnings r))) results),
                     summary_errors = sum_list (map (\<lambda>r. int (length (compliance_errors r))) results)\<rparr>;
                  report = report_data\<lparr>report_products_count := int (length (products brief)),
                                        report_worker_count := max_workers pl,
                                        report_compliance_summary := Some summary\<rparr>
              in case save_execution_report (campaign_id brief) w2 of
                   Inl e \<Rightarrow> (Inl e, w2)
                 | Inr u \<Rightarrow> (Inr report, w2)))"

definition run ::
  "'img CampaignPipeline \<Rightarrow> CampaignBrief \<Rightarrow> 'img world \<Rightarrow> (exn + ExecutionReport) \<times> 'img world" where
  "run pl brief w =
     (let validation_result = validate_campaign_brief (governance pl) brief in
      case result_passed validation_result of
        Inl e \<Rightarrow> (Inl e, w)
      | Inr False \<Rightarrow>
          (case result_errors validation_result of
             Inl e \<Rightarrow> (Inl e, w)
           | Inr errs \<Rightarrow>
               (case iterate errs of
                  Inl e \<Rightarrow> (Inl e, w)
                | Inr es \<Rightarrow> (Inl (Exn ValueError (validation_error_message (py_repr pl) es)), w)))
      | Inr True \<Rightarrow>
          (case print_entries validation_result ''warnings'' of
             Inl e \<Rightarrow> (Inl e, w)
           | Inr u \<Rightarrow>
          (case print_entries validation_result ''suggestions'' of
             Inl e \<Rightarrow> (Inl e, w)
           | Inr u \<Rightarrow> run_phases pl brief w)))"

section \<open>Properties of the pipeline\<close>

text \<open>
  The context a run starts from, and the report it ends with: \<^verbatim>\<open>run\<close> enters the context,
  stores the number of products, and after the three phases fills \<^verbatim>\<open>products_count\<close>,
  \<^verbatim>\<open>worker_count\<close> and \<^verbatim>\<open>compliance_summary\<close> into the report of the context.
\<close>

definition initial_context :: "CampaignBrief \<Rightarrow> 'img world \<Rightarrow> ExecutionContext" where
  "initial_context brief w =
     (enter (clock w) (ExecutionContext_init (campaign_id brief)))
       \<lparr>products_count := int (length (products brief))\<rparr>"

definition final_report ::
  "'img CampaignPipeline \<Rightarrow> CampaignBrief \<Rightarrow> GeneratedAsset list \<Rightarrow> rat \<Rightarrow> ExecutionContext \<Rightarrow> ExecutionReport" where
  "final_report pl brief results now ctx =
     (get_report now ctx)
       \<lparr>report_products_count := int (length (products brief)),
        report_worker_count := max_workers pl,
        report_compliance_summary := Some
           \<lparr>total_assets = int (length results),
            summary_passed = int (length (filter compliance_passed results)),
            summary_warnings = sum_list (map (\<lambda>r. int (length (compliance_warnings r))) results),
            summary_errors = sum_list (map (\<lambda>r. int (length (compliance_errors r))) results)\<rparr>\<rparr>"

text \<open>The two counters that \<^verbatim>\<open>get_report\<close> computes the reuse figures from.\<close>

definition reuse_counters :: "ExecutionContext \<Rightarrow> int \<times> int" where
  "reuse_counters ctx = (assets_generated ctx, assets_reused ctx)"

lemma reuse_counters_simps [simp]:
  "reuse_counters (record_error m ctx) = reuse_counters ctx"
  "reuse_counters (record_cost c ctx) = reuse_counters ctx"
  "reuse_counters (record_timing k d ctx) = reuse_counters ctx"
  "reuse_counters (ctx\<lparr>hero_images_cached := a\<rparr>) = reuse_counters ctx"
  "reuse_counters (ctx\<lparr>hero_images_generated := a\<rparr>) = reuse_counters ctx"
  "reuse_counters (ctx\<lparr>variations_created := a\<rparr>) = reuse_counters ctx"
  "reuse_counters (ctx\<lparr>products_count := a\<rparr>) = reuse_counters ctx"
  "reuse_counters (enter now ctx) = reuse_counters ctx"
  "reuse_counters (ExecutionContext_init cid) = (0, 0)"
  by (simp_all add: reuse_counters_def record_error_def record_cost_def record_timing_def Let_def
        enter_def ExecutionContext_init_def)

lemma hero_done_counters: "reuse_counters (snd (hero_done hc f)) = reuse_counters (snd hc)"
  by (cases "(hc, f)" rule: hero_done.cases) auto

lemma foldl_hero_done_counters:
  "reuse_counters (snd (foldl hero_done hc fs)) = reuse_counters (snd hc)"
  by (induction fs arbitrary: hc) (simp_all add: hero_done_counters)

lemma get_heroes_counters:
  "reuse_counters (snd (snd (get_heroes pl brief w ctx))) = reuse_counters ctx"
proof -
  obtain futures w1 where s: "submit_hero_tasks pl brief (products brief) w = (futures, w1)"
    by (cases "submit_hero_tasks pl brief (products brief) w") auto
  obtain heroes ctx1 where f: "foldl hero_done ([], ctx) (as_completed_heroes pl futures) = (heroes, ctx1)"
    by (cases "foldl hero_done ([], ctx) (as_completed_heroes pl futures)") auto
  have "reuse_counters ctx1 = reuse_counters ctx"
    using foldl_hero_done_counters[of "([], ctx)" "as_completed_heroes pl futures"] f by simp
  then show ?thesis by (simp add: get_heroes_def s f)
qed

lemma foldl_snd_invariant:
  assumes "\<And>a c x. P (snd (f (a, c) x)) = P c"
  shows "P (snd (foldl f ac xs)) = P (snd ac)"
proof (induction xs arbitrary: ac)
  case Nil
  then show ?case by simp
next
  case (Cons x xs)
  obtain a c where ac: "ac = (a, c)" by (cases ac)
  have "P (snd (foldl f (f (a, c) x) xs)) = P (snd (f (a, c) x))" by (rule Cons.IH)
  then show ?case using assms[of a c x] by (simp add: ac)
qed

text \<open>Phase 2, when it returns: what it leaves untouched, and the products it has variants for.\<close>

lemma create_variations_of_ctx:
  "create_variations_of pl hero ars (vs, c) = Inr (vs', c')
   \<Longrightarrow> reuse_counters c' = reuse_counters c \<and> errors c' = errors c"
proof (induction ars arbitrary: vs c)
  case Nil
  then show ?case by simp
next
  case (Cons ar ars)
  show ?case
  proof (cases "aspect_processor pl hero (aspect_value ar)")
    case (Inl e)
    then show ?thesis using Cons.prems by simp
  next
    case (Inr variant)
    have "create_variations_of pl hero ars
            (AList.update (aspect_value ar) variant vs, c\<lparr>variations_created := variations_created c + 1\<rparr>)
          = Inr (vs', c')"
      using Cons.prems Inr by simp
    from Cons.IH[OF this] show ?thesis by simp
  qed
qed

lemma create_variations_loop_ctx:
  "create_variations_loop pl heroes (variants, c) = Inr (variants', c')
   \<Longrightarrow> reuse_counters c' = reuse_counters c \<and> errors c' = errors c
       \<and> fst ` set variants' = fst ` set variants \<union> fst ` set heroes"
proof (induction heroes arbitrary: variants c)
  case Nil
  then show ?case by simp
next
  case (Cons h heroes)
  obtain pid hero where h: "h = (pid, hero)" by (cases h)
  show ?case
  proof (cases "create_variations_of pl hero (aspect_ratios pl) ([], c)")
    case (Inl e)
    then show ?thesis using Cons.prems by (simp add: h)
  next
    case (Inr r)
    obtain vs c1 where r: "r = (vs, c1)" by (cases r)
    have 1: "reuse_counters c1 = reuse_counters c \<and> errors c1 = errors c"
      using create_variations_of_ctx[of pl hero "aspect_ratios pl" "[]" c vs c1] Inr r by simp
    have "create_variations_loop pl heroes (AList.update pid vs variants, c1) = Inr (variants', c')"
      using Cons.prems Inr r by (simp add: h)
    from Cons.IH[OF this] 1 show ?thesis by (auto simp: h dom_update)
  qed
qed

lemma create_all_variations_ctx:
  assumes "create_all_variations pl heroes ctx = Inr (variants, ctx2)"
  shows "reuse_counters ctx2 = reuse_counters ctx" and "errors ctx2 = errors ctx"
    and "fst ` set variants = fst ` set heroes"
  using create_variations_loop_ctx[of pl heroes "[]" ctx variants ctx2] assms
  by (simp_all add: create_all_variations_def)

text \<open>Phase 2 returns when \<^verbatim>\<open>create_variation\<close> raises on none of the heroes.\<close>

lemma create_variations_of_returns:
  assumes "\<And>ar. ar \<in> set ars \<Longrightarrow> \<not> isl (aspect_processor pl hero (aspect_value ar))"
  shows "\<not> isl (create_variations_of pl hero ars vc)"
  using assms
proof (induction ars arbitrary: vc)
  case Nil
  then show ?case by simp
next
  case (Cons ar ars)
  obtain vs c where vc: "vc = (vs, c)" by (cases vc)
  have "\<not> isl (aspect_processor pl hero (aspect_value ar))" using Cons.prems by simp
  then obtain variant where v: "aspect_processor pl hero (aspect_value ar) = Inr variant"
    by (cases "aspect_processor pl hero (aspect_value ar)") auto
  show ?case using Cons.IH Cons.prems by (simp add: vc v)
qed

lemma create_variations_loop_returns:
  assumes "\<And>pid hero ar. (pid, hero) \<in> set heroes \<Longrightarrow> ar \<in> set (aspect_ratios pl)
             \<Longrightarrow> \<not> isl (aspect_processor pl hero (aspect_value ar))"
  shows "\<not> isl (create_variations_loop pl heroes vc)"
  using assms
proof (induction heroes arbitrary: vc)
  case Nil
  then show ?case by simp
next
  case (Cons h heroes)
  obtain pid hero where h: "h = (pid, hero)" by (cases h)
  obtain variants c where vc: "vc = (variants, c)" by (cases vc)
  have "\<not> isl (create_variations_of pl hero (aspect_ratios pl) ([], c))"
    by (rule create_variations_of_returns) (rule Cons.prems[of pid hero], simp add: h)
  then obtain vs c1 where v: "create_variations_of pl hero (aspect_ratios pl) ([], c) = Inr (vs, c1)"
    by (cases "create_variations_of pl hero (aspect_ratios pl) ([], c)") auto
  have "\<not> isl (create_variations_loop pl heroes (AList.update pid vs variants, c1))"
  proof (rule Cons.IH)
    fix pid' hero' ar
    assume "(pid', hero') \<in> set heroes" "ar \<in> set (aspect_ratios pl)"
    then show "\<not> isl (aspect_processor pl hero' (aspect_value ar))"
      using Cons.prems[of pid' hero' ar] by simp
  qed
  then show ?case by (simp add: h vc v)
qed

lemma compose_asset_counters:
  "reuse_counters (snd (snd (compose_asset pl product ar locale brief variants (w, ctx)))) = reuse_counters ctx"
  by (simp add: compose_asset_def Let_def split: option.splits sum.splits prod.splits)

lemma submit_compose_tasks_counters:
  "reuse_counters (snd (snd (submit_compose_tasks pl brief variants ts wc))) = reuse_counters (snd wc)"
proof (induction ts arbitrary: wc)
  case Nil
  then show ?case by simp
next
  case (Cons t ts)
  obtain product ar loc where t: "t = (product, ar, loc)" by (cases t)
  obtain w ctx where wc: "wc = (w, ctx)" by (cases wc)
  obtain r wc1 where c: "compose_asset pl product ar loc brief variants (w, ctx) = (r, wc1)"
    by (cases "compose_asset pl product ar loc brief variants (w, ctx)") auto
  obtain fs wc2 where r: "submit_compose_tasks pl brief variants ts wc1 = (fs, wc2)"
    by (cases "submit_compose_tasks pl brief variants ts wc1") auto
  have "reuse_counters (snd wc1) = reuse_counters ctx"
    using compose_asset_counters[of pl product ar loc brief variants w ctx] c by simp
  moreover have "reuse_counters (snd wc2) = reuse_counters (snd wc1)"
    using Cons.IH[of wc1] r by simp
  ultimately show ?case by (simp add: t wc c r)
qed

lemma asset_done_counters: "reuse_counters (snd (asset_done rc f)) = reuse_counters (snd rc)"
  by (cases "(rc, f)" rule: asset_done.cases) auto

lemma foldl_asset_done_counters:
  "reuse_counters (snd (foldl asset_done rc fs)) = reuse_counters (snd rc)"
  by (induction fs arbitrary: rc) (simp_all add: asset_done_counters)

lemma compose_all_assets_counters:
  "reuse_counters (snd (snd (compose_all_assets pl variants brief w ctx))) = reuse_counters ctx"
proof -
  obtain futures w1 ctx1 where
    s: "submit_compose_tasks pl brief variants (compose_tasks pl variants brief) (w, ctx) = (futures, w1, ctx1)"
    by (cases "submit_compose_tasks pl brief variants (compose_tasks pl variants brief) (w, ctx)") auto
  obtain results ctx2 where f: "foldl asset_done ([], ctx1) (as_completed_assets pl futures) = (results, ctx2)"
    by (cases "foldl asset_done ([], ctx1) (as_completed_assets pl futures)") auto
  have "reuse_counters ctx1 = reuse_counters ctx"
    using submit_compose_tasks_counters[of pl brief variants "compose_tasks pl variants brief" "(w, ctx)"] s
    by simp
  moreover have "reuse_counters ctx2 = reuse_counters ctx1"
    using foldl_asset_done_counters[of "([], ctx1)" "as_completed_assets pl futures"] f by simp
  ultimately show ?thesis by (simp add: compose_all_assets_def s f)
qed

lemma get_report_counters:
  "reuse_counters ctx = (0, 0) \<Longrightarrow>
   report_assets_generated (get_report now ctx) = 0 \<and> report_assets_reused (get_report now ctx) = 0
   \<and> report_cache_efficiency (get_report now ctx) = 0"
  by (simp add: get_report_def reuse_counters_def Let_def)

text \<open>
  \<open>accepted\<close>: the pre-flight gate lets the brief pass.  \<open>printing_returns\<close>: neither of the
  two blocks that print the warnings and the suggestions of the validator raises.
\<close>

definition accepted :: "'img CampaignPipeline \<Rightarrow> CampaignBrief \<Rightarrow> bool" where
  "accepted pl brief \<longleftrightarrow>
     result_passed (validate_campaign_brief (governance pl) brief) = Inr True"

definition printing_returns :: "'img CampaignPipeline \<Rightarrow> CampaignBrief \<Rightarrow> bool" where
  "printing_returns pl brief \<longleftrightarrow>
     print_entries (validate_campaign_brief (governance pl) brief) ''warnings'' = Inr ()
     \<and> print_entries (validate_campaign_brief (governance pl) brief) ''suggestions'' = Inr ()"

lemma run_accepted:
  assumes "accepted pl brief" and "printing_returns pl brief"
  shows "run pl brief w = run_phases pl brief w"
  using assms by (simp add: run_def accepted_def printing_returns_def Let_def)

lemma run_returns_phases:
  assumes "run pl brief w = (Inr report, w')"
  shows "accepted pl brief" and "run_phases pl brief w = (Inr report, w')"
  using assms
  by (auto simp: run_def accepted_def Let_def split: sum.splits bool.splits)

lemma run_phases_passed:
  assumes "get_heroes pl brief w (initial_context brief w) = (heroes, w1, ctx1)"
    and "create_all_variations pl heroes ctx1 = Inr (variants, ctx2)"
    and "compose_all_assets pl variants brief w1 ctx2 = (results, w2, ctx3)"
    and "save_execution_report (campaign_id brief) w2 = Inr ()"
  shows "run_phases pl brief w = (Inr (final_report pl brief results (clock w2) ctx3), w2)"
  using assms by (simp add: run_phases_def Let_def initial_context_def final_report_def)

lemma run_phases_returns:
  assumes "run_phases pl brief w = (Inr report, w')"
  obtains heroes w1 ctx1 variants ctx2 results ctx3 where
    "get_heroes pl brief w (initial_context brief w) = (heroes, w1, ctx1)"
    "create_all_variations pl heroes ctx1 = Inr (variants, ctx2)"
    "compose_all_assets pl variants brief w1 ctx2 = (results, w', ctx3)"
    "report = final_report pl brief results (clock w') ctx3"
proof -
  obtain heroes w1 ctx1 where h: "get_heroes pl brief w (initial_context brief w) = (heroes, w1, ctx1)"
    by (cases "get_heroes pl brief w (initial_context brief w)") auto
  obtain variants ctx2 where v: "create_all_variations pl heroes ctx1 = Inr (variants, ctx2)"
    using assms h
    by (cases "create_all_variations pl heroes ctx1")
       (auto simp: run_phases_def Let_def initial_context_def)
  obtain results w2 ctx3 where c: "compose_all_assets pl variants brief w1 ctx2 = (results, w2, ctx3)"
    by (cases "compose_all_assets pl variants brief w1 ctx2") auto
  have "w' = w2 \<and> report = final_report pl brief results (clock w2) ctx3"
    using assms h v c
    by (auto simp: run_phases_def Let_def initial_context_def final_report_def split: sum.splits)
  then show ?thesis using that[OF h v] c by simp
qed

subsection \<open>Futures, phases and traces\<close>

text \<open>
  \<open>hero_futures\<close> and \<open>asset_futures\<close> are the futures a run creates in phase 1 and in
  phase 3 (none in phase 3 when phase 2 raised); \<open>resolved_ids\<close> are the product ids for which some hero task succeeded, and
  \<open>expected_tasks\<close> the composition tasks for the products with such an id.
\<close>

definition hero_futures :: "'img CampaignPipeline \<Rightarrow> CampaignBrief \<Rightarrow> 'img world \<Rightarrow> 'img hero_future list" where
  "hero_futures pl brief w = fst (submit_hero_tasks pl brief (products brief) w)"

definition asset_futures :: "'img CampaignPipeline \<Rightarrow> CampaignBrief \<Rightarrow> 'img world \<Rightarrow> asset_future list" where
  "asset_futures pl brief w =
     (let (heroes, w1, ctx1) = get_heroes pl brief w (initial_context brief w)
      in case create_all_variations pl heroes ctx1 of
           Inl e \<Rightarrow> []
         | Inr (variants, ctx2) \<Rightarrow>
             fst (submit_compose_tasks pl brief variants (compose_tasks pl variants brief) (w1, ctx2)))"

lemma submit_hero_tasks_keys:
  "map snd (fst (submit_hero_tasks pl brief ps w)) = map id' ps"
proof (induction ps arbitrary: w)
  case Nil
  then show ?case by simp
next
  case (Cons p ps)
  obtain r w1 where t: "pipeline_get_or_generate_hero pl p brief w = (r, w1)"
    by (cases "pipeline_get_or_generate_hero pl p brief w")
  obtain fs w2 where s: "submit_hero_tasks pl brief ps w1 = (fs, w2)"
    by (cases "submit_hero_tasks pl brief ps w1")
  show ?case using Cons.IH[of w1] by (simp add: t s)
qed

lemma submit_compose_tasks_keys:
  "map snd (fst (submit_compose_tasks pl brief variants ts wc))
     = map (\<lambda>(p, ar, loc). (id' p, aspect_value ar, loc)) ts"
proof (induction ts arbitrary: wc)
  case Nil
  then show ?case by simp
next
  case (Cons t ts)
  obtain p ar loc where t: "t = (p, ar, loc)" by (cases t)
  obtain r wc1 where c: "compose_asset pl p ar loc brief variants wc = (r, wc1)"
    by (cases "compose_asset pl p ar loc brief variants wc")
  obtain fs wc2 where s: "submit_compose_tasks pl brief variants ts wc1 = (fs, wc2)"
    by (cases "submit_compose_tasks pl brief variants ts wc1")
  show ?case using Cons.IH[of wc1] by (simp add: t c s)
qed

lemma foldl_hero_done_keys:
  "fst ` set (fst (foldl hero_done (hs, ctx) fs))
     = fst ` set hs \<union> {pid. \<exists>r. (Inr r, pid) \<in> set fs}"
proof (induction fs arbitrary: hs ctx)
  case Nil
  then show ?case by simp
next
  case (Cons f fs)
  obtain r pid where f: "f = (r, pid)" by (cases f)
  show ?case
  proof (cases r)
    case (Inl e)
    then show ?thesis using Cons.IH by (auto simp: f)
  next
    case (Inr t)
    obtain h c cost where t: "t = (h, c, cost)" by (cases t)
    show ?thesis using Cons.IH by (auto simp: f Inr t dom_update)
  qed
qed

lemma foldl_hero_done_errors:
  "set (errors (snd (foldl hero_done (hs, ctx) fs)))
     = set (errors ctx) \<union> {hero_error pid e | pid e. (Inl e, pid) \<in> set fs}"
proof (induction fs arbitrary: hs ctx)
  case Nil
  then show ?case by simp
next
  case (Cons f fs)
  obtain r pid where f: "f = (r, pid)" by (cases f)
  show ?case
  proof (cases r)
    case (Inl e)
    then show ?thesis using Cons.IH by (auto simp: f record_error_def)
  next
    case (Inr t)
    obtain h c cost where t: "t = (h, c, cost)" by (cases t)
    show ?thesis using Cons.IH by (auto simp: f Inr t record_cost_def)
  qed
qed

lemma foldl_asset_done_results:
  "fst (foldl asset_done (rs, ctx) fs) = rs @ [r. (Inr r, k) \<leftarrow> fs]"
proof (induction fs arbitrary: rs ctx)
  case Nil
  then show ?case by simp
next
  case (Cons f fs)
  obtain r k where f: "f = (r, k)" by (cases f)
  show ?case using Cons.IH by (cases r) (auto simp: f)
qed

lemma foldl_asset_done_errors:
  "set (errors (snd (foldl asset_done (rs, ctx) fs)))
     = set (errors ctx) \<union> {compose_error k e | k e. (Inl e, k) \<in> set fs}"
proof (induction fs arbitrary: rs ctx)
  case Nil
  then show ?case by simp
next
  case (Cons f fs)
  obtain r a b c where f: "f = (r, a, b, c)" by (cases f)
  show ?case
  proof (cases r)
    case (Inl e)
    have "set (errors (snd (foldl asset_done (rs, ctx) (f # fs))))
        = insert (compose_error (a, b, c) e) (set (errors ctx))
            \<union> {compose_error k e | k e. (Inl e, k) \<in> set fs}"
      using Cons.IH[of rs "record_error (compose_error (a, b, c) e) ctx"]
      by (simp add: f Inl record_error_def)
    also have "\<dots> = set (errors ctx) \<union> {compose_error k e' | k e'. (Inl e', k) \<in> set (f # fs)}"
      unfolding f Inl by (rule set_eqI) (simp, blast)
    finally show ?thesis .
  next
    case (Inr t)
    then show ?thesis using Cons.IH[of "rs @ [t]" ctx] by (auto simp: f)
  qed
qed

lemma compose_asset_errors:
  "set (errors ctx) \<subseteq> set (errors (snd (snd (compose_asset pl p ar loc brief variants (w, ctx)))))"
  by (auto simp: compose_asset_def Let_def record_error_def record_timing_def
           split: option.splits sum.splits prod.splits)

lemma submit_compose_tasks_errors:
  "set (errors (snd wc)) \<subseteq> set (errors (snd (snd (submit_compose_tasks pl brief variants ts wc))))"
proof (induction ts arbitrary: wc)
  case Nil
  then show ?case by simp
next
  case (Cons t ts)
  obtain p ar loc where t: "t = (p, ar, loc)" by (cases t)
  obtain w ctx where wc: "wc = (w, ctx)" by (cases wc)
  obtain r wc1 where c: "compose_asset pl p ar loc brief variants (w, ctx) = (r, wc1)"
    by (cases "compose_asset pl p ar loc brief variants (w, ctx)")
  obtain fs wc2 where s: "submit_compose_tasks pl brief variants ts wc1 = (fs, wc2)"
    by (cases "submit_compose_tasks pl brief variants ts wc1")
  have "set (errors ctx) \<subseteq> set (errors (snd wc1))"
    using compose_asset_errors[of ctx pl p ar loc brief variants w] c by simp
  moreover have "set (errors (snd wc1)) \<subseteq> set (errors (snd wc2))"
    using Cons.IH[of wc1] s by simp
  ultimately show ?case by (simp add: t wc c s)
qed

lemma compose_tasks_mem:
  "(p, ar, loc) \<in> set (compose_tasks pl variants brief) \<longleftrightarrow>
     p \<in> set (products brief) \<and> id' p \<in> fst ` set variants
     \<and> ar \<in> set (aspect_ratios pl) \<and> loc \<in> set (locales brief)"
  by (auto simp: compose_tasks_def map_of_eq_None_iff)

lemma length_concat_const:
  "(\<And>x. x \<in> set xs \<Longrightarrow> length (f x) = n) \<Longrightarrow> length (concat (map f xs)) = length xs * n"
  by (induction xs) auto

lemma compose_tasks_length:
  assumes "\<And>p. p \<in> set (products brief) \<Longrightarrow> id' p \<in> fst ` set variants"
  shows "length (compose_tasks pl variants brief)
       = length (products brief) * (length (aspect_ratios pl) * length (locales brief))"
proof -
  have inner: "length (concat (map (\<lambda>ar. map (\<lambda>locale. (product, ar, locale)) (locales brief))
                         (aspect_ratios pl))) = length (aspect_ratios pl) * length (locales brief)"
    for product :: Product
    by (rule length_concat_const) simp
  show ?thesis
    unfolding compose_tasks_def
    by (rule length_concat_const) (use assms inner in \<open>simp add: map_of_eq_None_iff\<close>)
qed

lemma fair_set: "mset xs' = mset xs \<Longrightarrow> set xs' = set xs"
  by (rule mset_eq_setD)

lemma comprehension_length:
  "length [r. (Inr r, k) \<leftarrow> fs] = length (filter (\<lambda>f. \<not> isl (fst f)) fs)"
proof (induction fs)
  case Nil
  then show ?case by simp
next
  case (Cons f fs)
  obtain r k where f: "f = (r, k)" by (cases f)
  show ?case using Cons.IH by (cases r) (simp_all add: f)
qed

lemma comprehension_set:
  "set [r. (Inr r, k) \<leftarrow> fs] = {r. \<exists>k. (Inr r, k) \<in> set fs}"
proof (induction fs)
  case Nil
  then show ?case by simp
next
  case (Cons f fs)
  obtain r k where f: "f = (r, k)" by (cases f)
  show ?case using Cons.IH by (cases r) (auto simp: f)
qed

lemma fair_filter_length:
  assumes "mset xs' = mset xs"
  shows "length (filter P xs') = length (filter P xs)"
proof -
  have "mset (filter P xs') = mset (filter P xs)" using assms by simp
  then show ?thesis by (rule mset_eq_length)
qed

lemma get_heroes_char:
  assumes fair: "\<And>fs. mset (as_completed_heroes pl fs) = mset fs"
    and g: "get_heroes pl brief w ctx = (heroes, w1, ctx1)"
  shows "fst ` set heroes = {pid. \<exists>r. (Inr r, pid) \<in> set (fst (submit_hero_tasks pl brief (products brief) w))}"
    and "set (errors ctx1) = set (errors ctx)
           \<union> {hero_error pid e | pid e. (Inl e, pid) \<in> set (fst (submit_hero_tasks pl brief (products brief) w))}"
    and "w1 = snd (submit_hero_tasks pl brief (products brief) w)"
proof -
  obtain futures w' where s: "submit_hero_tasks pl brief (products brief) w = (futures, w')"
    by (cases "submit_hero_tasks pl brief (products brief) w")
  obtain hs c where f: "foldl hero_done ([], ctx) (as_completed_heroes pl futures) = (hs, c)"
    by (cases "foldl hero_done ([], ctx) (as_completed_heroes pl futures)")
  have eq: "heroes = hs" "ctx1 = c" "w1 = w'" using g by (simp_all add: get_heroes_def s f)
  have st: "set (as_completed_heroes pl futures) = set futures" by (rule fair_set[OF fair])
  show "fst ` set heroes = {pid. \<exists>r. (Inr r, pid) \<in> set (fst (submit_hero_tasks pl brief (products brief) w))}"
    using foldl_hero_done_keys[of "[]" ctx "as_completed_heroes pl futures"] by (simp add: f eq s st)
  show "set (errors ctx1) = set (errors ctx)
           \<union> {hero_error pid e | pid e. (Inl e, pid) \<in> set (fst (submit_hero_tasks pl brief (products brief) w))}"
    using foldl_hero_done_errors[of "[]" ctx "as_completed_heroes pl futures"] by (simp add: f eq s st)
  show "w1 = snd (submit_hero_tasks pl brief (products brief) w)" by (simp add: eq s)
qed

lemma compose_all_assets_char:
  assumes fair: "\<And>fs. mset (as_completed_assets pl fs) = mset fs"
    and c: "compose_all_assets pl variants brief w ctx = (results, w2, ctx3)"
  shows "length results = length (filter (\<lambda>f. \<not> isl (fst f))
           (fst (submit_compose_tasks pl brief variants (compose_tasks pl variants brief) (w, ctx))))"
    and "set results = {r. \<exists>k. (Inr r, k) \<in>
           set (fst (submit_compose_tasks pl brief variants (compose_tasks pl variants brief) (w, ctx)))}"
    and "set (errors ctx) \<subseteq> set (errors ctx3)"
    and "{compose_error k e | k e. (Inl e, k) \<in>
           set (fst (submit_compose_tasks pl brief variants (compose_tasks pl variants brief) (w, ctx)))}
         \<subseteq> set (errors ctx3)"
proof -
  let ?ts = "compose_tasks pl variants brief"
  obtain futures w' c1 where s: "submit_compose_tasks pl brief variants ?ts (w, ctx) = (futures, w', c1)"
    by (cases "submit_compose_tasks pl brief variants ?ts (w, ctx)") auto
  obtain rs c2 where f: "foldl asset_done ([], c1) (as_completed_assets pl futures) = (rs, c2)"
    by (cases "foldl asset_done ([], c1) (as_completed_assets pl futures)")
  have eq: "results = rs" "ctx3 = c2" using c by (simp_all add: compose_all_assets_def s f)
  have st: "set (as_completed_assets pl futures) = set futures" by (rule fair_set[OF fair])
  have rs: "rs = [r. (Inr r, k) \<leftarrow> as_completed_assets pl futures]"
    using foldl_asset_done_results[of "[]" c1 "as_completed_assets pl futures"] by (simp add: f)
  show "length results = length (filter (\<lambda>f. \<not> isl (fst f)) (fst (submit_compose_tasks pl brief variants ?ts (w, ctx))))"
    unfolding eq rs comprehension_length s fst_conv by (rule fair_filter_length[OF fair])
  show "set results = {r. \<exists>k. (Inr r, k) \<in> set (fst (submit_compose_tasks pl brief variants ?ts (w, ctx)))}"
    unfolding eq rs comprehension_set s fst_conv st ..
  have e1: "set (errors ctx) \<subseteq> set (errors c1)"
    using submit_compose_tasks_errors[of "(w, ctx)" pl brief variants ?ts] by (simp add: s)
  have e2: "set (errors c2) = set (errors c1) \<union> {compose_error k e | k e. (Inl e, k) \<in> set futures}"
    using foldl_asset_done_errors[of "[]" c1 "as_completed_assets pl futures"] by (simp add: f st)
  show "set (errors ctx) \<subseteq> set (errors ctx3)" using e1 e2 by (auto simp: eq)
  show "{compose_error k e | k e. (Inl e, k) \<in> set (fst (submit_compose_tasks pl brief variants ?ts (w, ctx)))}
         \<subseteq> set (errors ctx3)"
    using e2 by (auto simp: eq s)
qed

definition resolved_ids :: "'img CampaignPipeline \<Rightarrow> CampaignBrief \<Rightarrow> 'img world \<Rightarrow> string set" where
  "resolved_ids pl brief w = {pid. \<exists>r. (Inr r, pid) \<in> set (hero_futures pl brief w)}"

definition expected_tasks ::
  "'img CampaignPipeline \<Rightarrow> CampaignBrief \<Rightarrow> string set \<Rightarrow> (string \<times> string \<times> string) list" where
  "expected_tasks pl brief K =
     concat (map (\<lambda>p.
        if id' p \<in> K
        then concat (map (\<lambda>ar. map (\<lambda>loc. (id' p, aspect_value ar, loc)) (locales brief))
                         (aspect_ratios pl))
        else [])
       (products brief))"

lemma compose_tasks_expected:
  "map (\<lambda>(p, ar, loc). (id' p, aspect_value ar, loc)) (compose_tasks pl variants brief)
     = expected_tasks pl brief (fst ` set variants)"
  unfolding compose_tasks_def expected_tasks_def
  by (induction "products brief" arbitrary: brief)
     (auto simp: map_concat comp_def map_of_eq_None_iff intro!: arg_cong[where f=concat] map_cong)

definition no_acquire :: "'img world \<Rightarrow> 'img world \<Rightarrow> bool" where
  "no_acquire w w' \<longleftrightarrow>
     (\<exists>es. trace w' = trace w @ es \<and> EvAcquire \<notin> set es)
     \<and> limiter w' = limiter w \<and> clock w' = clock w \<and> write_error w' = write_error w"

lemma no_acquire_refl: "no_acquire w w"
  by (simp add: no_acquire_def)

lemma no_acquire_trans: "no_acquire w w1 \<Longrightarrow> no_acquire w1 w2 \<Longrightarrow> no_acquire w w2"
  unfolding no_acquire_def by (elim conjE exE) (rule conjI, rule_tac x = "es @ esa" in exI, auto)

lemma no_acquire_emit: "e \<noteq> EvAcquire \<Longrightarrow> no_acquire w (emit e w)"
  by (simp add: no_acquire_def emit_def)

lemma no_acquire_files: "no_acquire w w' \<Longrightarrow> no_acquire w (w'\<lparr>files := f\<rparr>)"
  by (simp add: no_acquire_def)

lemma load_no_acquire: "no_acquire w (snd (load st path w))"
  by (auto simp: load_def Let_def intro!: no_acquire_emit
           split: option.splits png_file.splits sum.splits bool.splits)

lemma try_input_no_acquire: "no_acquire w (snd (try_input path w))"
  by (auto simp: try_input_def Let_def no_acquire_def emit_def
           split: option.splits png_file.splits sum.splits bool.splits)

lemma save_no_acquire: "no_acquire w (snd (save st path img w))"
  by (auto simp: save_def Let_def intro!: no_acquire_emit no_acquire_files split: option.splits)

lemma check_input_folder_no_acquire: "no_acquire w (snd (check_input_folder am pid cid w))"
proof -
  obtain r w1 where 1: "try_input (campaign_hero_path am pid cid) w = (r, w1)"
    by (cases "try_input (campaign_hero_path am pid cid) w")
  have n1: "no_acquire w w1" using try_input_no_acquire[of w "campaign_hero_path am pid cid"] 1 by simp
  have n2: "no_acquire w (snd (try_input (global_hero_path am pid) w1))"
    using n1 try_input_no_acquire by (rule no_acquire_trans)
  show ?thesis using n1 n2
    by (simp add: check_input_folder_def Let_def 1 split: sum.splits option.splits)
qed

lemma get_or_generate_hero_no_acquire: "no_acquire w (snd (get_or_generate_hero am p b w))"
proof -
  obtain r w1 where c: "check_input_folder am (id' p) (campaign_id b) w = (r, w1)"
    by (cases "check_input_folder am (id' p) (campaign_id b) w")
  have 1: "no_acquire w w1" using check_input_folder_no_acquire[of w am "id' p" "campaign_id b"] c by simp
  define k where "k = compute_cache_key (id' p) b"
  define w2 where "w2 = (if cache_enabled am then emit (EvCacheKey k) w1 else w1)"
  define use_cache where "use_cache \<longleftrightarrow> cache_enabled am \<and> k \<noteq> []"
  define w3 where "w3 = (if use_cache then snd (check_cache am k w2) else w2)"
  define w4 where "w4 = emit (EvGenerate (id' p)) w3"
  have 2: "no_acquire w1 w2" by (simp add: w2_def no_acquire_refl no_acquire_emit)
  have 3: "no_acquire w2 w3" by (simp add: w3_def no_acquire_refl check_cache_def load_no_acquire)
  have 4: "no_acquire w3 w4" by (simp add: w4_def no_acquire_emit)
  have n3: "no_acquire w w3" using 1 2 3 by (blast intro: no_acquire_trans)
  have n4: "no_acquire w w4" using n3 4 by (rule no_acquire_trans)
  have n5: "no_acquire w (snd (save_to_cache am k img w4))" for img
    using n4 save_no_acquire[of w4 "cache_storage am" "cache_path k" img]
    unfolding save_to_cache_def by (rule no_acquire_trans)
  have "snd (get_or_generate_hero am p b w) = w1
      \<or> snd (get_or_generate_hero am p b w) = w3
      \<or> snd (get_or_generate_hero am p b w) = w4
      \<or> (\<exists>img. snd (get_or_generate_hero am p b w) = snd (save_to_cache am k img w4))"
    by (auto simp: get_or_generate_hero_def c Let_def w4_def w3_def w2_def use_cache_def k_def
                   compute_cache_key_nonempty
             split: option.splits sum.splits prod.splits)
       (metis snd_conv)+
  then show ?thesis using 1 n3 n4 n5 by auto
qed

lemma hero_task_world:
  "\<exists>es. trace (snd (pipeline_get_or_generate_hero pl p b w)) = trace w @ EvAcquire # es
        \<and> EvAcquire \<notin> set es
        \<and> limiter (snd (pipeline_get_or_generate_hero pl p b w)) = fst (acquire (limiter w) (clock w))
        \<and> write_error (snd (pipeline_get_or_generate_hero pl p b w)) = write_error w"
proof -
  obtain rl out where a: "acquire (limiter w) (clock w) = (rl, out)"
    by (cases "acquire (limiter w) (clock w)")
  show ?thesis
  proof (cases out)
    case (Inl e)
    show ?thesis
      by (simp add: pipeline_get_or_generate_hero_def a Inl emit_def)
  next
    case (Inr slept)
    define w1 where "w1 = emit EvAcquire (w\<lparr>limiter := rl, clock := clock w + slept\<rparr>)"
    have n: "no_acquire w1 (snd (get_or_generate_hero (asset_manager pl) p b w1))"
      by (rule get_or_generate_hero_no_acquire)
    have s: "snd (pipeline_get_or_generate_hero pl p b w) = snd (get_or_generate_hero (asset_manager pl) p b w1)"
      by (simp add: pipeline_get_or_generate_hero_def a Inr w1_def Let_def
            split: prod.splits sum.splits)
    have t1: "trace w1 = trace w @ [EvAcquire]" "limiter w1 = rl" "write_error w1 = write_error w"
      by (simp_all add: w1_def emit_def)
    from n obtain es where es: "trace (snd (get_or_generate_hero (asset_manager pl) p b w1)) = trace w1 @ es"
      "EvAcquire \<notin> set es" "limiter (snd (get_or_generate_hero (asset_manager pl) p b w1)) = limiter w1"
      "write_error (snd (get_or_generate_hero (asset_manager pl) p b w1)) = write_error w1"
      unfolding no_acquire_def by (elim exE conjE)
    show ?thesis
      using es t1 by (simp add: s a)
  qed
qed

lemma submit_hero_tasks_trace:
  "\<exists>es. trace (snd (submit_hero_tasks pl brief ps w)) = trace w @ es
        \<and> count_list es EvAcquire = length ps
        \<and> write_error (snd (submit_hero_tasks pl brief ps w)) = write_error w"
proof (induction ps arbitrary: w)
  case Nil
  then show ?case by simp
next
  case (Cons p ps)
  obtain r w1 where t: "pipeline_get_or_generate_hero pl p brief w = (r, w1)"
    by (cases "pipeline_get_or_generate_hero pl p brief w")
  obtain fs w2 where s: "submit_hero_tasks pl brief ps w1 = (fs, w2)"
    by (cases "submit_hero_tasks pl brief ps w1")
  obtain es1 where e1: "trace w1 = trace w @ EvAcquire # es1" "EvAcquire \<notin> set es1"
    "write_error w1 = write_error w"
    using hero_task_world[of pl p brief w] t by auto
  obtain es2 where e2: "trace w2 = trace w1 @ es2" "count_list es2 EvAcquire = length ps"
    "write_error w2 = write_error w1"
    using Cons.IH[of w1] s by auto
  have "count_list es1 EvAcquire = 0" using e1(2) by (simp add: count_list_0_iff)
  then have "trace w2 = trace w @ (EvAcquire # es1 @ es2)
      \<and> count_list (EvAcquire # es1 @ es2) EvAcquire = length (p # ps)
      \<and> write_error w2 = write_error w"
    using e1 e2 by simp
  moreover have "snd (submit_hero_tasks pl brief (p # ps) w) = w2" by (simp add: t s)
  ultimately show ?case by metis
qed

lemma save_output_no_acquire: "no_acquire w (snd (save_output pl cid pid aspect loc img w))"
  by (simp add: save_output_def Let_def save_no_acquire)

lemma compose_asset_no_acquire:
  "no_acquire w (fst (snd (compose_asset pl p ar loc brief variants (w, ctx))))"
  by (simp add: compose_asset_def Let_def case_prod_beta no_acquire_refl save_output_no_acquire
           split: option.splits sum.splits)

lemma submit_compose_tasks_no_acquire:
  "no_acquire (fst wc) (fst (snd (submit_compose_tasks pl brief variants ts wc)))"
proof (induction ts arbitrary: wc)
  case Nil
  then show ?case by (simp add: no_acquire_refl)
next
  case (Cons t ts)
  obtain p ar loc where t: "t = (p, ar, loc)" by (cases t)
  obtain w ctx where wc: "wc = (w, ctx)" by (cases wc)
  obtain r wc1 where c: "compose_asset pl p ar loc brief variants (w, ctx) = (r, wc1)"
    by (cases "compose_asset pl p ar loc brief variants (w, ctx)")
  obtain fs wc2 where s: "submit_compose_tasks pl brief variants ts wc1 = (fs, wc2)"
    by (cases "submit_compose_tasks pl brief variants ts wc1")
  have "no_acquire w (fst wc1)"
    using compose_asset_no_acquire[of w pl p ar loc brief variants ctx] c by simp
  moreover have "no_acquire (fst wc1) (fst wc2)" using Cons.IH[of wc1] s by simp
  ultimately have "no_acquire w (fst wc2)" by (rule no_acquire_trans)
  then show ?case by (simp add: t wc c s)
qed

lemma get_heroes_world:
  "fst (snd (get_heroes pl brief w ctx)) = snd (submit_hero_tasks pl brief (products brief) w)"
  by (simp add: get_heroes_def Let_def case_prod_beta)

lemma compose_all_assets_world:
  "fst (snd (compose_all_assets pl variants brief w ctx))
     = fst (snd (submit_compose_tasks pl brief variants (compose_tasks pl variants brief) (w, ctx)))"
  by (simp add: compose_all_assets_def Let_def case_prod_beta)

text \<open>
  \<open>variations_return\<close>: phase 2 of the run returns, that is, \<^verbatim>\<open>create_variation\<close> raises on
  none of the heroes of phase 1.  \<open>report_saved\<close>: the report file can be written.
\<close>

definition variations_return :: "'img CampaignPipeline \<Rightarrow> CampaignBrief \<Rightarrow> 'img world \<Rightarrow> bool" where
  "variations_return pl brief w \<longleftrightarrow>
     (case get_heroes pl brief w (initial_context brief w) of
        (heroes, w1, ctx1) \<Rightarrow> \<not> isl (create_all_variations pl heroes ctx1))"

definition report_saved :: "CampaignBrief \<Rightarrow> 'img world \<Rightarrow> bool" where
  "report_saved brief w \<longleftrightarrow> save_execution_report (campaign_id brief) w = Inr ()"

lemma variations_returnI:
  assumes "\<And>hero ar. \<not> isl (aspect_processor pl hero ar)"
  shows "variations_return pl brief w"
  unfolding variations_return_def create_all_variations_def
  by (auto intro!: create_variations_loop_returns assms)

lemma run_world:
  assumes h: "get_heroes pl brief w (initial_context brief w) = (heroes, w1, ctx1)"
    and c: "compose_all_assets pl variants brief w1 ctx2 = (results, w2, ctx3)"
  shows "\<exists>es. trace w2 = trace w @ es \<and> count_list es EvAcquire = length (products brief)"
    and "write_error w1 = write_error w" and "write_error w2 = write_error w"
proof -
  have "w1 = snd (submit_hero_tasks pl brief (products brief) w)"
    using get_heroes_world[of pl brief w "initial_context brief w"] h by simp
  then obtain es1 where e1: "trace w1 = trace w @ es1" "count_list es1 EvAcquire = length (products brief)"
    "write_error w1 = write_error w"
    using submit_hero_tasks_trace[of pl brief "products brief" w] by auto
  have "w2 = fst (snd (submit_compose_tasks pl brief variants (compose_tasks pl variants brief) (w1, ctx2)))"
    using compose_all_assets_world[of pl variants brief w1 ctx2] c by simp
  then have "no_acquire w1 w2"
    using submit_compose_tasks_no_acquire[of "(w1, ctx2)" pl brief variants "compose_tasks pl variants brief"]
    by simp
  then obtain es2 where e2: "trace w2 = trace w1 @ es2" "EvAcquire \<notin> set es2"
    "write_error w2 = write_error w1"
    unfolding no_acquire_def by (elim exE conjE)
  have "count_list es2 EvAcquire = 0" using e2(2) by (simp add: count_list_0_iff)
  then have "trace w2 = trace w @ (es1 @ es2) \<and> count_list (es1 @ es2) EvAcquire = length (products brief)"
    using e1 e2 by simp
  then show "\<exists>es. trace w2 = trace w @ es \<and> count_list es EvAcquire = length (products brief)" by blast
  show "write_error w1 = write_error w" by (rule e1(3))
  show "write_error w2 = write_error w" using e1(3) e2(3) by simp
qed

lemma asset_futures_eq:
  assumes "get_heroes pl brief w (initial_context brief w) = (heroes, w1, ctx1)"
    and "create_all_variations pl heroes ctx1 = Inr (variants, ctx2)"
  shows "asset_futures pl brief w
       = fst (submit_compose_tasks pl brief variants (compose_tasks pl variants brief) (w1, ctx2))"
  using assms by (simp add: asset_futures_def)

text \<open>What the three phases amount to, in terms of the futures, when phase 2 returns.\<close>

lemma phases_summary:
  assumes fairH: "\<And>fs. mset (as_completed_heroes pl fs) = mset fs"
    and fairA: "\<And>fs. mset (as_completed_assets pl fs) = mset fs"
    and h: "get_heroes pl brief w (initial_context brief w) = (heroes, w1, ctx1)"
    and v: "create_all_variations pl heroes ctx1 = Inr (variants, ctx2)"
    and c: "compose_all_assets pl variants brief w1 ctx2 = (results, w2, ctx3)"
  shows "map snd (hero_futures pl brief w) = map id' (products brief)"
    and "map snd (asset_futures pl brief w) = expected_tasks pl brief (resolved_ids pl brief w)"
    and "{hero_error pid e | pid e. (Inl e, pid) \<in> set (hero_futures pl brief w)}
           \<subseteq> set (report_errors (final_report pl brief results now ctx3))"
    and "{compose_error k e | k e. (Inl e, k) \<in> set (asset_futures pl brief w)}
           \<subseteq> set (report_errors (final_report pl brief results now ctx3))"
    and "map_option total_assets (report_compliance_summary (final_report pl brief results now ctx3))
       = Some (int (length (filter (\<lambda>f. \<not> isl (fst f)) (asset_futures pl brief w))))"
proof -
  let ?report = "final_report pl brief results now ctx3"
  have af: "asset_futures pl brief w
       = fst (submit_compose_tasks pl brief variants (compose_tasks pl variants brief) (w1, ctx2))"
    by (rule asset_futures_eq[OF h v])
  have keysH: "fst ` set heroes = resolved_ids pl brief w"
    using get_heroes_char(1)[OF fairH h] by (simp add: resolved_ids_def hero_futures_def)
  have keysV: "fst ` set variants = resolved_ids pl brief w"
    using create_all_variations_ctx(3)[OF v] keysH by simp
  have e1: "{hero_error pid e | pid e. (Inl e, pid) \<in> set (hero_futures pl brief w)} \<subseteq> set (errors ctx1)"
    using get_heroes_char(2)[OF fairH h] by (auto simp: hero_futures_def)
  have e2: "errors ctx2 = errors ctx1"
    by (rule create_all_variations_ctx(2)[OF v])
  have e3: "set (errors ctx2) \<subseteq> set (errors ctx3)"
    by (rule compose_all_assets_char(3)[OF fairA c])
  have e4: "{compose_error k e | k e. (Inl e, k) \<in> set (asset_futures pl brief w)} \<subseteq> set (errors ctx3)"
    unfolding af by (rule compose_all_assets_char(4)[OF fairA c])
  have rep: "report_errors ?report = errors ctx3"
    by (simp add: final_report_def get_report_def Let_def)
  have len: "length results = length (filter (\<lambda>f. \<not> isl (fst f)) (asset_futures pl brief w))"
    unfolding af by (rule compose_all_assets_char(1)[OF fairA c])
  show "map snd (hero_futures pl brief w) = map id' (products brief)"
    unfolding hero_futures_def by (rule submit_hero_tasks_keys)
  show "map snd (asset_futures pl brief w) = expected_tasks pl brief (resolved_ids pl brief w)"
    unfolding af submit_compose_tasks_keys compose_tasks_expected keysV ..
  show "{hero_error pid e | pid e. (Inl e, pid) \<in> set (hero_futures pl brief w)} \<subseteq> set (report_errors ?report)"
    using e1 e2 e3 unfolding rep by auto
  show "{compose_error k e | k e. (Inl e, k) \<in> set (asset_futures pl brief w)} \<subseteq> set (report_errors ?report)"
    using e4 unfolding rep .
  show "map_option total_assets (report_compliance_summary ?report)
     = Some (int (length (filter (\<lambda>f. \<not> isl (fst f)) (asset_futures pl brief w))))"
    using len by (simp add: final_report_def)
qed

text \<open>
  A run whose brief is accepted returns a report when nothing outside the tasks raises;
  and a run that returned a report went through the three phases.
\<close>

lemma run_returns:
  assumes gate: "accepted pl brief" and pr: "printing_returns pl brief"
    and var: "variations_return pl brief w" and sav: "report_saved brief w"
  obtains heroes w1 ctx1 variants ctx2 results w2 ctx3 where
    "get_heroes pl brief w (initial_context brief w) = (heroes, w1, ctx1)"
    "create_all_variations pl heroes ctx1 = Inr (variants, ctx2)"
    "compose_all_assets pl variants brief w1 ctx2 = (results, w2, ctx3)"
    "run pl brief w = (Inr (final_report pl brief results (clock w2) ctx3), w2)"
proof -
  obtain heroes w1 ctx1 where h: "get_heroes pl brief w (initial_context brief w) = (heroes, w1, ctx1)"
    by (cases "get_heroes pl brief w (initial_context brief w)") auto
  have "\<not> isl (create_all_variations pl heroes ctx1)"
    using var h by (simp add: variations_return_def)
  then obtain variants ctx2 where v: "create_all_variations pl heroes ctx1 = Inr (variants, ctx2)"
    by (cases "create_all_variations pl heroes ctx1") auto
  obtain results w2 ctx3 where c: "compose_all_assets pl variants brief w1 ctx2 = (results, w2, ctx3)"
    by (cases "compose_all_assets pl variants brief w1 ctx2") auto
  have "write_error w2 = write_error w" by (rule run_world(3)[OF h c])
  then have s: "save_execution_report (campaign_id brief) w2 = Inr ()"
    using sav by (simp add: report_saved_def save_execution_report_def)
  have "run pl brief w = (Inr (final_report pl brief results (clock w2) ctx3), w2)"
    unfolding run_accepted[OF gate pr] by (rule run_phases_passed[OF h v c s])
  with h v c show ?thesis by (rule that)
qed

lemma run_returned:
  assumes "run pl brief w = (Inr report, w')"
  obtains heroes w1 ctx1 variants ctx2 results ctx3 where
    "get_heroes pl brief w (initial_context brief w) = (heroes, w1, ctx1)"
    "create_all_variations pl heroes ctx1 = Inr (variants, ctx2)"
    "compose_all_assets pl variants brief w1 ctx2 = (results, w', ctx3)"
    "report = final_report pl brief results (clock w') ctx3"
  using run_phases_returns[OF run_returns_phases(2)[OF assms]] by metis

lemma expected_tasks_length:
  assumes "\<And>p. p \<in> set (products brief) \<Longrightarrow> id' p \<in> K"
  shows "length (expected_tasks pl brief K)
       = length (products brief) * (length (aspect_ratios pl) * length (locales brief))"
proof -
  have inner: "length (concat (map (\<lambda>ar. map (\<lambda>loc. (pid, aspect_value ar, loc)) (locales brief))
                         (aspect_ratios pl))) = length (aspect_ratios pl) * length (locales brief)"
    for pid :: string
    by (rule length_concat_const) simp
  show ?thesis
    unfolding expected_tasks_def
    by (rule length_concat_const) (use assms inner in simp)
qed

lemma expected_tasks_fst: "k \<in> set (expected_tasks pl brief K) \<Longrightarrow> fst k \<in> K"
  by (auto simp: expected_tasks_def split: if_splits)

lemma expected_tasks_complete:
  "p \<in> set (products brief) \<Longrightarrow> id' p \<in> K \<Longrightarrow> ar \<in> set (aspect_ratios pl)
   \<Longrightarrow> loc \<in> set (locales brief) \<Longrightarrow> (id' p, aspect_value ar, loc) \<in> set (expected_tasks pl brief K)"
  by (auto simp: expected_tasks_def)

lemma distinct_snd_unique:
  "distinct (map snd xs) \<Longrightarrow> (a, k) \<in> set xs \<Longrightarrow> (b, k) \<in> set xs \<Longrightarrow> a = b"
  by (induction xs) (auto simp: image_iff)

lemma run_phases_acquire_count:
  "count_list (new_events w (snd (run_phases pl brief w))) EvAcquire = length (products brief)"
proof -
  obtain heroes w1 ctx1 where h: "get_heroes pl brief w (initial_context brief w) = (heroes, w1, ctx1)"
    by (cases "get_heroes pl brief w (initial_context brief w)") auto
  have "w1 = snd (submit_hero_tasks pl brief (products brief) w)"
    using get_heroes_world[of pl brief w "initial_context brief w"] h by simp
  then obtain es1 where e1: "trace w1 = trace w @ es1" "count_list es1 EvAcquire = length (products brief)"
    using submit_hero_tasks_trace[of pl brief "products brief" w] by auto
  show ?thesis
  proof (cases "create_all_variations pl heroes ctx1")
    case (Inl e)
    have "snd (run_phases pl brief w) = w1"
      using h Inl by (simp add: run_phases_def Let_def initial_context_def)
    then show ?thesis using e1 by (simp add: new_events_def)
  next
    case (Inr r)
    obtain variants ctx2 where r: "r = (variants, ctx2)" by (cases r)
    obtain results w2 ctx3 where c: "compose_all_assets pl variants brief w1 ctx2 = (results, w2, ctx3)"
      by (cases "compose_all_assets pl variants brief w1 ctx2") auto
    have "snd (run_phases pl brief w) = w2"
      using h Inr r c by (simp add: run_phases_def Let_def initial_context_def split: sum.splits)
    moreover obtain es where "trace w2 = trace w @ es" "count_list es EvAcquire = length (products brief)"
      using run_world(1)[OF h c] by blast
    ultimately show ?thesis by (simp add: new_events_def)
  qed
qed

subsection \<open>A concrete pipeline\<close>

text \<open>
  The example campaign with a second product, and a pipeline whose collaborators do
  nothing: caching is off, post-processing, derivation and composition return the image
  unchanged, pre-flight validation is disabled, every asset passes the compliance checks,
  and \<^verbatim>\<open>as_completed\<close> yields the futures in reverse order of submission.  The failing
  generator raises for product \<open>p2\<close>; the failing pipeline uses it, and its compositor
  raises for the locale \<open>fr\<close>.  In the pipeline with unreadable heroes post-processing is
  disabled and the image files of the heroes cannot be decoded: \<^verbatim>\<open>create_variation\<close>, the first
  to read the pixels, raises.
\<close>

definition ex_product2 :: Product where
  "ex_product2 = ex_product\<lparr>id' := ''p2'', name := ''Lamp''\<rparr>"

definition ex_brief2 :: CampaignBrief where
  "ex_brief2 = ex_brief\<lparr>products := [ex_product, ex_product2]\<rparr>"

definition ex_pipeline :: "(Product \<Rightarrow> CampaignBrief \<Rightarrow> exn + nat \<times> rat) \<Rightarrow> nat CampaignPipeline" where
  "ex_pipeline gen =
     \<lparr>asset_manager = (ex_manager gen)\<lparr>cache_enabled := False\<rparr>,
      post_processor = Inr,
      aspect_processor = (\<lambda>hero aspect. Inr hero),
      localizer = (\<lambda>message loc reg. Inr message),
      compositor = (\<lambda>base message aspect loc cid. Inr base),
      governance = ex_governance None,
      check_asset = (\<lambda>composed message pid.
         Inr \<lparr>passed = True, warnings = [], errors' = [], checks_performed = []\<rparr>),
      py_repr = (\<lambda>v. ''[]''),
      output_storage = \<lparr>base_path = ''./output''\<rparr>,
      aspect_ratios = [SQUARE, VERTICAL, HORIZONTAL],
      max_workers = 3,
      as_completed_heroes = rev,
      as_completed_assets = rev\<rparr>"

definition ex_failing_generator :: "Product \<Rightarrow> CampaignBrief \<Rightarrow> exn + nat \<times> rat" where
  "ex_failing_generator p b =
     (if id' p = ''p2'' then Inl (Exn GenericException ''Image generation failed: timeout'')
      else Inr (9, 2 / 25))"

definition ex_failing_pipeline :: "nat CampaignPipeline" where
  "ex_failing_pipeline =
     (ex_pipeline ex_failing_generator)
       \<lparr>compositor := (\<lambda>base message aspect loc cid.
           if loc = ''fr'' then Inl (Exn GenericException ''cannot draw text'') else Inr base)\<rparr>"

definition ex_unreadable_pipeline :: "nat CampaignPipeline" where
  "ex_unreadable_pipeline =
     (ex_pipeline ex_generator)
       \<lparr>aspect_processor := (\<lambda>hero aspect. Inl (Exn OSError ''image file is truncated''))\<rparr>"

lemma ex_pipeline_sel [simp]:
  "asset_manager (ex_pipeline g) = (ex_manager g)\<lparr>cache_enabled := False\<rparr>"
  "post_processor (ex_pipeline g) = Inr"
  "aspect_processor (ex_pipeline g) = (\<lambda>hero aspect. Inr hero)"
  "localizer (ex_pipeline g) = (\<lambda>message loc reg. Inr message)"
  "compositor (ex_pipeline g) = (\<lambda>base message aspect loc cid. Inr base)"
  "governance (ex_pipeline g) = ex_governance None"
  "check_asset (ex_pipeline g) = (\<lambda>composed message pid.
         Inr \<lparr>passed = True, warnings = [], errors' = [], checks_performed = []\<rparr>)"
  "output_storage (ex_pipeline g) = \<lparr>base_path = ''./output''\<rparr>"
  "aspect_ratios (ex_pipeline g) = [SQUARE, VERTICAL, HORIZONTAL]"
  "max_workers (ex_pipeline g) = 3"
  "as_completed_heroes (ex_pipeline g) = rev"
  "as_completed_assets (ex_pipeline g) = rev"
  by (simp_all add: ex_pipeline_def)

lemma ex_failing_pipeline_sel [simp]:
  "asset_manager ex_failing_pipeline = (ex_manager ex_failing_generator)\<lparr>cache_enabled := False\<rparr>"
  "post_processor ex_failing_pipeline = Inr"
  "aspect_processor ex_failing_pipeline = (\<lambda>hero aspect. Inr hero)"
  "localizer ex_failing_pipeline = (\<lambda>message loc reg. Inr message)"
  "compositor ex_failing_pipeline = (\<lambda>base message aspect loc cid.
           if loc = ''fr'' then Inl (Exn GenericException ''cannot draw text'') else Inr base)"
  "governance ex_failing_pipeline = ex_governance None"
  "check_asset ex_failing_pipeline = (\<lambda>composed message pid.
         Inr \<lparr>passed = True, warnings = [], errors' = [], checks_performed = []\<rparr>)"
  "output_storage ex_failing_pipeline = \<lparr>base_path = ''./output''\<rparr>"
  "aspect_ratios ex_failing_pipeline = [SQUARE, VERTICAL, HORIZONTAL]"
  "max_workers ex_failing_pipeline = 3"
  "as_completed_heroes ex_failing_pipeline = rev"
  "as_completed_assets ex_failing_pipeline = rev"
  by (simp_all add: ex_failing_pipeline_def)

lemma ex_unreadable_pipeline_sel [simp]:
  "asset_manager ex_unreadable_pipeline = (ex_manager ex_generator)\<lparr>cache_enabled := False\<rparr>"
  "post_processor ex_unreadable_pipeline = Inr"
  "aspect_processor ex_unreadable_pipeline
     = (\<lambda>hero aspect. Inl (Exn OSError ''image file is truncated''))"
  "governance ex_unreadable_pipeline = ex_governance None"
  "aspect_ratios ex_unreadable_pipeline = [SQUARE, VERTICAL, HORIZONTAL]"
  "as_completed_heroes ex_unreadable_pipeline = rev"
  "as_completed_assets ex_unreadable_pipeline = rev"
  by (simp_all add: ex_unreadable_pipeline_def)

text \<open>With validation disabled the gate accepts every brief and nothing is printed wrongly.\<close>

lemma ex_validation:
  "validate_campaign_brief (ex_governance None) b
     = JObj [(''passed'', JBool True), (''errors'', JArr []),
             (''warnings'', JArr [JStr ''LLM validation disabled'']), (''suggestions'', JArr [])]"
  by (simp add: validate_campaign_brief_def ex_governance_def)

lemma ex_gate:
  "accepted (ex_pipeline g) b" "accepted ex_failing_pipeline b" "accepted ex_unreadable_pipeline b"
  by (simp_all add: accepted_def ex_validation result_passed_def dict_get_def)

lemma ex_printing:
  "printing_returns (ex_pipeline g) b" "printing_returns ex_failing_pipeline b"
  "printing_returns ex_unreadable_pipeline b"
  by (simp_all add: printing_returns_def ex_validation print_entries_def dict_get_def iterate_def)

lemma ex_variations:
  "variations_return (ex_pipeline g) b w" "variations_return ex_failing_pipeline b w"
  by (rule variations_returnI, simp)+

lemma ex_saved: "report_saved b (ex_world fs)"
  by (simp add: report_saved_def save_execution_report_def)

lemma ex_fair:
  "mset (as_completed_heroes (ex_pipeline g) fs) = mset fs"
  "mset (as_completed_assets (ex_pipeline g) fs') = mset fs'"
  "mset (as_completed_heroes ex_failing_pipeline fs) = mset fs"
  "mset (as_completed_assets ex_failing_pipeline fs') = mset fs'"
  by simp_all

lemma ex_world_sel [simp]:
  "clock (ex_world fs) = 0" "limiter (ex_world fs) = RateLimiter_init 45 0"
  by (simp_all add: ex_world_def)

lemma ex_brief2_sel [simp]:
  "products ex_brief2 = [ex_product, ex_product2]" "campaign_id ex_brief2 = ''c1''"
  "locales ex_brief2 = [''en'', ''fr'']" "id' ex_product2 = ''p2''"
  "campaign_message ex_brief2 = ''hello world''" "region ex_brief2 = ''US''"
  by (simp_all add: ex_brief2_def ex_brief_def ex_product2_def)

text \<open>A hero task of the example pipeline in a world without input files.\<close>

lemma ex_hero_futures:
  "hero_futures (ex_pipeline ex_generator) ex_brief2 (ex_world Map.empty)
     = [(Inr (9, False, 2 / 25), ''p1''), (Inr (9, False, 2 / 25), ''p2'')]"
  by (simp add: hero_futures_def pipeline_get_or_generate_hero_def acquire_def RateLimiter_init_def
        Let_def emit_def get_or_generate_hero_def check_input_folder_def try_input_def
        path_exists_def campaign_hero_path_def global_hero_path_def path_join_def ex_generator_def)

lemma ex_failing_hero_futures:
  "hero_futures ex_failing_pipeline ex_brief2 (ex_world Map.empty)
     = [(Inr (9, False, 2 / 25), ''p1''),
        (Inl (Exn GenericException ''Image generation failed: timeout''), ''p2'')]"
  by (simp add: hero_futures_def pipeline_get_or_generate_hero_def acquire_def RateLimiter_init_def
        Let_def emit_def get_or_generate_hero_def check_input_folder_def try_input_def
        path_exists_def campaign_hero_path_def global_hero_path_def path_join_def
        ex_failing_generator_def)

lemma ex_unreadable_hero_futures:
  "hero_futures ex_unreadable_pipeline ex_brief2 (ex_world Map.empty)
     = [(Inr (9, False, 2 / 25), ''p1''), (Inr (9, False, 2 / 25), ''p2'')]"
  by (simp add: hero_futures_def pipeline_get_or_generate_hero_def acquire_def RateLimiter_init_def
        Let_def emit_def get_or_generate_hero_def check_input_folder_def try_input_def
        path_exists_def campaign_hero_path_def global_hero_path_def path_join_def ex_generator_def)

lemmas ex_eval =
  pipeline_get_or_generate_hero_def acquire_def RateLimiter_init_def
  Let_def emit_def get_or_generate_hero_def check_input_folder_def try_input_def path_exists_def
  campaign_hero_path_def
  global_hero_path_def path_join_def ex_generator_def get_heroes_def initial_context_def
  enter_def ExecutionContext_init_def record_cost_def record_error_def record_timing_def
  create_all_variations_def compose_tasks_def compose_asset_def
  save_output_def save_def asset_key_def

lemma ex_asset_futures:
  "map (\<lambda>f. (isl (fst f), snd f)) (asset_futures (ex_pipeline ex_generator) ex_brief2 (ex_world Map.empty))
     = [(False, ''p1'', ''1:1'', ''en''), (False, ''p1'', ''1:1'', ''fr''),
        (False, ''p1'', ''9:16'', ''en''), (False, ''p1'', ''9:16'', ''fr''),
        (False, ''p1'', ''16:9'', ''en''), (False, ''p1'', ''16:9'', ''fr''),
        (False, ''p2'', ''1:1'', ''en''), (False, ''p2'', ''1:1'', ''fr''),
        (False, ''p2'', ''9:16'', ''en''), (False, ''p2'', ''9:16'', ''fr''),
        (False, ''p2'', ''16:9'', ''en''), (False, ''p2'', ''16:9'', ''fr'')]"
  by (simp add: asset_futures_def ex_eval)

lemma ex_failing_asset_futures:
  "map (\<lambda>f. (case fst f of Inl e \<Rightarrow> Some e | Inr a \<Rightarrow> None, snd f))
       (asset_futures ex_failing_pipeline ex_brief2 (ex_world Map.empty))
     = [(None, ''p1'', ''1:1'', ''en''),
        (Some (Exn GenericException ''cannot draw text''), ''p1'', ''1:1'', ''fr''),
        (None, ''p1'', ''9:16'', ''en''),
        (Some (Exn GenericException ''cannot draw text''), ''p1'', ''9:16'', ''fr''),
        (None, ''p1'', ''16:9'', ''en''),
        (Some (Exn GenericException ''cannot draw text''), ''p1'', ''16:9'', ''fr'')]"
  by (simp add: asset_futures_def ex_eval ex_failing_generator_def hero_error_def)

text \<open>The run of the pipeline with unreadable heroes: phase 2 raises, and so does \<^verbatim>\<open>run\<close>.\<close>

lemma ex_unreadable_run:
  "fst (run ex_unreadable_pipeline ex_brief2 (ex_world Map.empty))
     = Inl (Exn OSError ''image file is truncated'')"
  "asset_futures ex_unreadable_pipeline ex_brief2 (ex_world Map.empty) = []"
  by (simp_all add: run_accepted[OF ex_gate(3) ex_printing(3)] run_phases_def asset_futures_def
        ex_eval)

section \<open>Claims about the pipeline\<close>

text \<open>
  What a run amounts to when its brief is accepted and nothing outside the tasks raises:
  it returns a report, and the report accounts for the futures of the two pools.
\<close>

lemma run_summary:
  assumes gate: "accepted pl brief" and pr: "printing_returns pl brief"
    and var: "variations_return pl brief w" and sav: "report_saved brief w"
    and fairH: "\<And>fs. mset (as_completed_heroes pl fs) = mset fs"
    and fairA: "\<And>fs. mset (as_completed_assets pl fs) = mset fs"
  obtains report w' where
    "run pl brief w = (Inr report, w')"
    "map snd (hero_futures pl brief w) = map id' (products brief)"
    "map snd (asset_futures pl brief w) = expected_tasks pl brief (resolved_ids pl brief w)"
    "{hero_error pid e | pid e. (Inl e, pid) \<in> set (hero_futures pl brief w)} \<subseteq> set (report_errors report)"
    "{compose_error k e | k e. (Inl e, k) \<in> set (asset_futures pl brief w)} \<subseteq> set (report_errors report)"
    "map_option total_assets (report_compliance_summary report)
       = Some (int (length (filter (\<lambda>f. \<not> isl (fst f)) (asset_futures pl brief w))))"
proof -
  obtain heroes w1 ctx1 variants ctx2 results w2 ctx3 where
    h: "get_heroes pl brief w (initial_context brief w) = (heroes, w1, ctx1)" and
    v: "create_all_variations pl heroes ctx1 = Inr (variants, ctx2)" and
    c: "compose_all_assets pl variants brief w1 ctx2 = (results, w2, ctx3)" and
    r: "run pl brief w = (Inr (final_report pl brief results (clock w2) ctx3), w2)"
    by (rule run_returns[OF gate pr var sav])
  note s = phases_summary[OF fairH fairA h v c]
  show ?thesis by (rule that[OF r s])
qed

text \<open>A run raises the exception of a failed attempt to write the report.\<close>

lemma run_save_raises:
  assumes gate: "accepted pl brief" and pr: "printing_returns pl brief"
    and var: "variations_return pl brief w"
    and sav: "save_execution_report (campaign_id brief) w = Inl e"
  shows "fst (run pl brief w) = Inl e"
proof -
  obtain heroes w1 ctx1 where h: "get_heroes pl brief w (initial_context brief w) = (heroes, w1, ctx1)"
    by (cases "get_heroes pl brief w (initial_context brief w)") auto
  have "\<not> isl (create_all_variations pl heroes ctx1)"
    using var h by (simp add: variations_return_def)
  then obtain variants ctx2 where v: "create_all_variations pl heroes ctx1 = Inr (variants, ctx2)"
    by (cases "create_all_variations pl heroes ctx1") auto
  obtain results w2 ctx3 where c: "compose_all_assets pl variants brief w1 ctx2 = (results, w2, ctx3)"
    by (cases "compose_all_assets pl variants brief w1 ctx2") auto
  have "write_error w2 = write_error w" by (rule run_world(3)[OF h c])
  then have s: "save_execution_report (campaign_id brief) w2 = Inl e"
    using sav by (simp add: save_execution_report_def)
  have "fst (run_phases pl brief w) = Inl e"
    using h v c s by (simp add: run_phases_def Let_def initial_context_def)
  then show ?thesis by (simp add: run_accepted[OF gate pr])
qed

text \<open>
  Claim C9: in every report produced by a run the fields \<^verbatim>\<open>assets_generated\<close> and
  \<^verbatim>\<open>assets_reused\<close> are 0 and \<^verbatim>\<open>cache_efficiency\<close> is 0: no step of the pipeline changes the
  two counters of the execution context they are computed from.
\<close>

theorem report_reuse_fields_zero:
  assumes "run pl brief w = (Inr report, w')"
  shows "report_assets_generated report = 0 \<and> report_assets_reused report = 0
       \<and> report_cache_efficiency report = 0"
proof -
  obtain heroes w1 ctx1 variants ctx2 results ctx3 where
    h: "get_heroes pl brief w (initial_context brief w) = (heroes, w1, ctx1)" and
    v: "create_all_variations pl heroes ctx1 = Inr (variants, ctx2)" and
    c: "compose_all_assets pl variants brief w1 ctx2 = (results, w', ctx3)" and
    rep: "report = final_report pl brief results (clock w') ctx3"
    by (rule run_returned[OF assms])
  have "reuse_counters (initial_context brief w) = (0, 0)" by (simp add: initial_context_def)
  then have "reuse_counters ctx1 = (0, 0)"
    using get_heroes_counters[of pl brief w "initial_context brief w"] h by simp
  then have "reuse_counters ctx2 = (0, 0)" using create_all_variations_ctx(1)[OF v] by simp
  then have z: "reuse_counters ctx3 = (0, 0)"
    using compose_all_assets_counters[of pl variants brief w1 ctx2] c by simp
  show ?thesis using get_report_counters[OF z, of "clock w'"] by (simp add: rep final_report_def)
qed

theorem report_reuse_fields_zero_witness:
  "\<exists>report w'. run (ex_pipeline ex_generator) ex_brief2 (ex_world Map.empty) = (Inr report, w')
     \<and> report_assets_generated report = 0 \<and> report_assets_reused report = 0
     \<and> report_cache_efficiency report = 0
     \<and> map_option total_assets (report_compliance_summary report) = Some 12"
proof -
  obtain report w' where
    r: "run (ex_pipeline ex_generator) ex_brief2 (ex_world Map.empty) = (Inr report, w')" and
    t: "map_option total_assets (report_compliance_summary report)
       = Some (int (length (filter (\<lambda>f. \<not> isl (fst f))
           (asset_futures (ex_pipeline ex_generator) ex_brief2 (ex_world Map.empty)))))"
    by (rule run_summary[OF ex_gate(1) ex_printing(1) ex_variations(1) ex_saved ex_fair(1) ex_fair(2)])
  have "length (filter (\<lambda>f. \<not> isl (fst f))
           (asset_futures (ex_pipeline ex_generator) ex_brief2 (ex_world Map.empty)))
      = length (filter (\<lambda>x. \<not> fst x) (map (\<lambda>f. (isl (fst f), snd f))
           (asset_futures (ex_pipeline ex_generator) ex_brief2 (ex_world Map.empty))))"
    by (simp add: filter_map comp_def)
  also have "\<dots> = 12" unfolding ex_asset_futures by simp
  finally have t12: "map_option total_assets (report_compliance_summary report) = Some 12"
    using t by simp
  from report_reuse_fields_zero[OF r] r t12 show ?thesis by blast
qed

text \<open>
  Claim C2, as stated: if no hero-resolution task and no composition task fails, the number
  of composed assets is \<open>P \<times> A \<times> L\<close>.  Phase 2 runs outside any \<^verbatim>\<open>try\<close>.  In the pipeline with
  unreadable heroes the brief is accepted and both hero tasks succeed; \<^verbatim>\<open>create_variation\<close>
  then raises, \<^verbatim>\<open>run\<close> raises with it, no composition task is ever submitted (so none
  fails) and no asset is composed, where \<open>P \<times> A \<times> L = 12\<close>.
\<close>

theorem composed_asset_count_counterexample:
  "accepted ex_unreadable_pipeline ex_brief2
   \<and> map (\<lambda>f. isl (fst f)) (hero_futures ex_unreadable_pipeline ex_brief2 (ex_world Map.empty))
       = [False, False]
   \<and> asset_futures ex_unreadable_pipeline ex_brief2 (ex_world Map.empty) = []
   \<and> fst (run ex_unreadable_pipeline ex_brief2 (ex_world Map.empty))
       = Inl (Exn OSError ''image file is truncated'')
   \<and> length (products ex_brief2) * length (aspect_ratios ex_unreadable_pipeline)
        * length (locales ex_brief2) = 12"
  by (simp add: ex_gate ex_unreadable_hero_futures ex_unreadable_run)

text \<open>
  Claim C2, amended: for every run that returns a report, with \<open>P\<close> products, \<open>A\<close>
  configured aspect ratios and \<open>L\<close> locales, if no hero-resolution task and no composition
  task failed, then \<open>P \<times> A \<times> L\<close> composition tasks were run, all of them produced an asset,
  and \<^verbatim>\<open>compliance_summary.total_assets\<close> of the report is \<open>P \<times> A \<times> L\<close>.  (\<^verbatim>\<open>as_completed\<close> yields
  every future once.)
\<close>

theorem composed_asset_count:
  assumes r: "run pl brief w = (Inr report, w')"
    and fairH: "\<And>fs. mset (as_completed_heroes pl fs) = mset fs"
    and fairA: "\<And>fs. mset (as_completed_assets pl fs) = mset fs"
    and okH: "\<forall>f \<in> set (hero_futures pl brief w). \<not> isl (fst f)"
    and okA: "\<forall>f \<in> set (asset_futures pl brief w). \<not> isl (fst f)"
  shows "length (asset_futures pl brief w)
           = length (products brief) * length (aspect_ratios pl) * length (locales brief)
       \<and> length (filter (\<lambda>f. \<not> isl (fst f)) (asset_futures pl brief w))
           = length (products brief) * length (aspect_ratios pl) * length (locales brief)
       \<and> map_option total_assets (report_compliance_summary report)
           = Some (int (length (products brief) * length (aspect_ratios pl) * length (locales brief)))"
proof -
  obtain heroes w1 ctx1 variants ctx2 results ctx3 where
    h: "get_heroes pl brief w (initial_context brief w) = (heroes, w1, ctx1)" and
    v: "create_all_variations pl heroes ctx1 = Inr (variants, ctx2)" and
    c: "compose_all_assets pl variants brief w1 ctx2 = (results, w', ctx3)" and
    rep: "report = final_report pl brief results (clock w') ctx3"
    by (rule run_returned[OF r])
  note s = phases_summary[OF fairH fairA h v c]
  have hk: "map snd (hero_futures pl brief w) = map id' (products brief)" by (rule s(1))
  have ak: "map snd (asset_futures pl brief w) = expected_tasks pl brief (resolved_ids pl brief w)"
    by (rule s(2))
  have tot: "map_option total_assets (report_compliance_summary report)
       = Some (int (length (filter (\<lambda>f. \<not> isl (fst f)) (asset_futures pl brief w))))"
    unfolding rep by (rule s(5))
  have res: "id' p \<in> resolved_ids pl brief w" if p: "p \<in> set (products brief)" for p
  proof -
    have "id' p \<in> set (map snd (hero_futures pl brief w))" using p hk by simp
    then obtain x where m: "(x, id' p) \<in> set (hero_futures pl brief w)" by auto
    then have "\<not> isl x" using okH by auto
    then obtain y where "x = Inr y" by (cases x) auto
    then show ?thesis using m unfolding resolved_ids_def by blast
  qed
  have "length (asset_futures pl brief w) = length (expected_tasks pl brief (resolved_ids pl brief w))"
    using arg_cong[OF ak, of length] by simp
  also have "\<dots> = length (products brief) * (length (aspect_ratios pl) * length (locales brief))"
    by (rule expected_tasks_length) (rule res)
  finally have len: "length (asset_futures pl brief w)
           = length (products brief) * length (aspect_ratios pl) * length (locales brief)"
    by (simp add: mult.assoc)
  have "filter (\<lambda>f. \<not> isl (fst f)) (asset_futures pl brief w) = asset_futures pl brief w"
    using okA by (simp add: filter_id_conv)
  then show ?thesis using len tot by simp
qed

theorem composed_asset_count_witness:
  "(\<exists>report w'. run (ex_pipeline ex_generator) ex_brief2 (ex_world Map.empty) = (Inr report, w')
        \<and> map_option total_assets (report_compliance_summary report) = Some 12)
   \<and> (\<forall>f \<in> set (hero_futures (ex_pipeline ex_generator) ex_brief2 (ex_world Map.empty)). \<not> isl (fst f)) = True
   \<and> (\<forall>f \<in> set (asset_futures (ex_pipeline ex_generator) ex_brief2 (ex_world Map.empty)). \<not> isl (fst f)) = True
   \<and> length (products ex_brief2) * length (aspect_ratios (ex_pipeline ex_generator))
        * length (locales ex_brief2) = 12
   \<and> length (asset_futures (ex_pipeline ex_generator) ex_brief2 (ex_world Map.empty)) = 12"
proof -
  obtain report w' where
    r: "run (ex_pipeline ex_generator) ex_brief2 (ex_world Map.empty) = (Inr report, w')"
    by (rule run_summary[OF ex_gate(1) ex_printing(1) ex_variations(1) ex_saved ex_fair(1) ex_fair(2)])
  have okH: "\<forall>f \<in> set (hero_futures (ex_pipeline ex_generator) ex_brief2 (ex_world Map.empty)). \<not> isl (fst f)"
    by (simp add: ex_hero_futures)
  have "\<forall>x \<in> set (map (\<lambda>f. (isl (fst f), snd f))
           (asset_futures (ex_pipeline ex_generator) ex_brief2 (ex_world Map.empty))). \<not> fst x"
    unfolding ex_asset_futures by simp
  then have okA: "\<forall>f \<in> set (asset_futures (ex_pipeline ex_generator) ex_brief2 (ex_world Map.empty)). \<not> isl (fst f)"
    by simp
  have n: "length (products ex_brief2) * length (aspect_ratios (ex_pipeline ex_generator))
        * length (locales ex_brief2) = 12" by simp
  have i: "int 12 = 12" by simp
  note T = composed_asset_count[OF r ex_fair(1) ex_fair(2) okH okA, unfolded n i]
  have t: "map_option total_assets (report_compliance_summary report) = Some 12"
    using T by (elim conjE)
  have l: "length (asset_futures (ex_pipeline ex_generator) ex_brief2 (ex_world Map.empty)) = 12"
    using T by (elim conjE)
  have e: "\<exists>report w'. run (ex_pipeline ex_generator) ex_brief2 (ex_world Map.empty) = (Inr report, w')
        \<and> map_option total_assets (report_compliance_summary report) = Some 12"
    by (intro exI conjI) (rule r t)+
  show ?thesis
    by (intro conjI eqTrueI okH okA n e l)
qed

text \<open>
  Claim C1, as stated: for every brief accepted by the pre-flight gate, \<^verbatim>\<open>run\<close> returns a
  report and never raises.  Only the tasks of the two pools are guarded.  Here the brief is
  accepted, every hero task and every composition task succeeds, and the report cannot be
  written to \<^verbatim>\<open>logs/c1_execution.json\<close>: \<^verbatim>\<open>run\<close> raises the \<^verbatim>\<open>OSError\<close> of the write.
\<close>

theorem run_raises_counterexample:
  "accepted (ex_pipeline ex_generator) ex_brief2
   \<and> fst (run (ex_pipeline ex_generator) ex_brief2
           ((ex_world Map.empty)
              \<lparr>write_error := [''logs/c1_execution.json'' \<mapsto> Exn OSError ''Read-only file system'']\<rparr>))
       = Inl (Exn OSError ''Read-only file system'')"
proof -
  let ?w = "(ex_world Map.empty)
              \<lparr>write_error := [''logs/c1_execution.json'' \<mapsto> Exn OSError ''Read-only file system'']\<rparr>
            :: nat world"
  have s: "save_execution_report (campaign_id ex_brief2) ?w = Inl (Exn OSError ''Read-only file system'')"
    by (simp add: save_execution_report_def path_join_def)
  show ?thesis
    using run_save_raises[OF ex_gate(1) ex_printing(1) ex_variations(1) s] ex_gate(1) by simp
qed

text \<open>
  Claim C1, amended: for every brief accepted by the pre-flight gate, \<^verbatim>\<open>run\<close> returns a
  report whenever nothing outside the tasks raises, that is, the printing of the
  validator's warnings and suggestions, phase 2 and the writing of the report return.
  There is one hero task for each product, in the order of the brief.  Every exception of
  a hero task or of a composition task is caught where the future is collected and its
  message is in the \<^verbatim>\<open>errors\<close> of the report.  The composition tasks are exactly those of the
  products for which a hero task succeeded, one for each aspect ratio and locale; with
  distinct product ids, no composition task is run for a product whose hero task failed.
  \<^verbatim>\<open>total_assets\<close> counts the composition tasks that succeeded.  (\<^verbatim>\<open>as_completed\<close> yields every
  future once.)
\<close>

theorem run_isolates_task_failures:
  assumes gate: "accepted pl brief" and pr: "printing_returns pl brief"
    and var: "variations_return pl brief w" and sav: "report_saved brief w"
    and fairH: "\<And>fs. mset (as_completed_heroes pl fs) = mset fs"
    and fairA: "\<And>fs. mset (as_completed_assets pl fs) = mset fs"
  shows "\<exists>report w'. run pl brief w = (Inr report, w')
       \<and> map snd (hero_futures pl brief w) = map id' (products brief)
       \<and> (\<forall>pid e. (Inl e, pid) \<in> set (hero_futures pl brief w)
              \<longrightarrow> hero_error pid e \<in> set (report_errors report))
       \<and> (\<forall>k e. (Inl e, k) \<in> set (asset_futures pl brief w)
              \<longrightarrow> compose_error k e \<in> set (report_errors report))
       \<and> map snd (asset_futures pl brief w) = expected_tasks pl brief (resolved_ids pl brief w)
       \<and> (distinct (map id' (products brief)) \<longrightarrow>
            (\<forall>pid e. (Inl e, pid) \<in> set (hero_futures pl brief w)
               \<longrightarrow> pid \<notin> fst ` snd ` set (asset_futures pl brief w)))
       \<and> map_option total_assets (report_compliance_summary report)
           = Some (int (length (filter (\<lambda>f. \<not> isl (fst f)) (asset_futures pl brief w))))"
proof -
  obtain report w' where
    r: "run pl brief w = (Inr report, w')" and
    hk: "map snd (hero_futures pl brief w) = map id' (products brief)" and
    ak: "map snd (asset_futures pl brief w) = expected_tasks pl brief (resolved_ids pl brief w)" and
    eh: "{hero_error pid e | pid e. (Inl e, pid) \<in> set (hero_futures pl brief w)} \<subseteq> set (report_errors report)" and
    ea: "{compose_error k e | k e. (Inl e, k) \<in> set (asset_futures pl brief w)} \<subseteq> set (report_errors report)" and
    tot: "map_option total_assets (report_compliance_summary report)
       = Some (int (length (filter (\<lambda>f. \<not> isl (fst f)) (asset_futures pl brief w))))"
    by (rule run_summary[OF gate pr var sav fairH fairA])
  have excl: "pid \<notin> fst ` snd ` set (asset_futures pl brief w)"
    if d: "distinct (map id' (products brief))" and f: "(Inl e, pid) \<in> set (hero_futures pl brief w)"
    for pid e
  proof
    assume "pid \<in> fst ` snd ` set (asset_futures pl brief w)"
    then obtain k where k: "k \<in> set (map snd (asset_futures pl brief w))" "fst k = pid" by auto
    then have "pid \<in> resolved_ids pl brief w"
      using expected_tasks_fst[of k pl brief "resolved_ids pl brief w"] by (simp add: ak)
    then obtain x where x: "(Inr x, pid) \<in> set (hero_futures pl brief w)"
      by (auto simp: resolved_ids_def)
    have dk: "distinct (map snd (hero_futures pl brief w))" using d hk by simp
    have "(Inl e :: exn + 'a \<times> bool \<times> rat) = Inr x"
      by (rule distinct_snd_unique[OF dk f x])
    then show False by simp
  qed
  show ?thesis
    using r hk ak eh ea tot excl by blast
qed

theorem run_isolates_task_failures_witness:
  "\<exists>report w'. run ex_failing_pipeline ex_brief2 (ex_world Map.empty) = (Inr report, w')
     \<and> hero_error ''p2'' (Exn GenericException ''Image generation failed: timeout'')
          \<in> set (report_errors report)
     \<and> compose_error (''p1'', ''1:1'', ''fr'') (Exn GenericException ''cannot draw text'')
          \<in> set (report_errors report)
     \<and> ''p2'' \<notin> fst ` snd ` set (asset_futures ex_failing_pipeline ex_brief2 (ex_world Map.empty))
     \<and> map_option total_assets (report_compliance_summary report) = Some 3"
proof -
  let ?w = "ex_world Map.empty :: nat world"
  let ?fs = "asset_futures ex_failing_pipeline ex_brief2 ?w"
  have d: "distinct (map id' (products ex_brief2))" by simp
  have hf: "(Inl (Exn GenericException ''Image generation failed: timeout''), ''p2'')
              \<in> set (hero_futures ex_failing_pipeline ex_brief2 ?w)"
    by (simp add: ex_failing_hero_futures)
  have "(Some (Exn GenericException ''cannot draw text''), ''p1'', ''1:1'', ''fr'')
          \<in> set (map (\<lambda>f. (case fst f of Inl e \<Rightarrow> Some e | Inr a \<Rightarrow> None, snd f)) ?fs)"
    unfolding ex_failing_asset_futures by simp
  then have af: "(Inl (Exn GenericException ''cannot draw text''), ''p1'', ''1:1'', ''fr'') \<in> set ?fs"
    by (auto split: sum.splits)
  have "length (filter (\<lambda>f. \<not> isl (fst f)) ?fs)
      = length (filter (\<lambda>x. fst x = None)
          (map (\<lambda>f. (case fst f of Inl e \<Rightarrow> Some e | Inr a \<Rightarrow> None, snd f)) ?fs))"
    by (simp add: filter_map comp_def isl_def split: sum.splits cong: filter_cong)
  also have "\<dots> = 3" unfolding ex_failing_asset_futures by simp
  finally have n: "int (length (filter (\<lambda>f. \<not> isl (fst f)) ?fs)) = 3" by simp
  from run_isolates_task_failures[OF ex_gate(2)[of ex_brief2] ex_printing(2)[of ex_brief2]
         ex_variations(2)[of ex_brief2 ?w] ex_saved[of ex_brief2 Map.empty] ex_fair(3) ex_fair(4)]
  obtain report w' where
    r: "run ex_failing_pipeline ex_brief2 ?w = (Inr report, w')" and
    hk: "map snd (hero_futures ex_failing_pipeline ex_brief2 ?w) = map id' (products ex_brief2)" and
    eh: "\<forall>pid e. (Inl e, pid) \<in> set (hero_futures ex_failing_pipeline ex_brief2 ?w)
              \<longrightarrow> hero_error pid e \<in> set (report_errors report)" and
    ea: "\<forall>k e. (Inl e, k) \<in> set ?fs \<longrightarrow> compose_error k e \<in> set (report_errors report)" and
    ak: "map snd ?fs = expected_tasks ex_failing_pipeline ex_brief2
                         (resolved_ids ex_failing_pipeline ex_brief2 ?w)" and
    ex: "distinct (map id' (products ex_brief2)) \<longrightarrow>
            (\<forall>pid e. (Inl e, pid) \<in> set (hero_futures ex_failing_pipeline ex_brief2 ?w)
               \<longrightarrow> pid \<notin> fst ` snd ` set ?fs)" and
    t: "map_option total_assets (report_compliance_summary report)
           = Some (int (length (filter (\<lambda>f. \<not> isl (fst f)) ?fs)))"
    by (elim exE conjE)
  have 1: "hero_error ''p2'' (Exn GenericException ''Image generation failed: timeout'')
          \<in> set (report_errors report)" using eh hf by blast
  have 2: "compose_error (''p1'', ''1:1'', ''fr'') (Exn GenericException ''cannot draw text'')
          \<in> set (report_errors report)" using ea af by blast
  have 3: "''p2'' \<notin> fst ` snd ` set ?fs" using ex d hf by blast
  have 4: "map_option total_assets (report_compliance_summary report) = Some 3"
    using t unfolding n .
  show ?thesis
    by (intro exI conjI) (rule r 1 2 3 4)+
qed

text \<open>
  Claim C10: every hero-resolution task calls \<^verbatim>\<open>RateLimiter.acquire()\<close> exactly once, and
  before anything else: the events of the task start with the call of \<^verbatim>\<open>acquire\<close> and hold
  no other, and the limiter after the task is the limiter after that one call, whatever
  the source of the hero.  A run that passes the gate makes as many calls of \<^verbatim>\<open>acquire\<close> as
  the brief has products.
\<close>

theorem acquire_once_per_hero_task:
  "(\<exists>es. new_events w (snd (pipeline_get_or_generate_hero pl product brief w)) = EvAcquire # es
         \<and> EvAcquire \<notin> set es)
   \<and> limiter (snd (pipeline_get_or_generate_hero pl product brief w))
       = fst (acquire (limiter w) (clock w))
   \<and> (accepted pl brief \<and> printing_returns pl brief \<longrightarrow>
         count_list (new_events w (snd (run pl brief w))) EvAcquire = length (products brief))"
proof -
  obtain es where es: "trace (snd (pipeline_get_or_generate_hero pl product brief w)) = trace w @ EvAcquire # es"
    "EvAcquire \<notin> set es"
    "limiter (snd (pipeline_get_or_generate_hero pl product brief w)) = fst (acquire (limiter w) (clock w))"
    using hero_task_world[of pl product brief w] by (elim exE conjE)
  have "new_events w (snd (pipeline_get_or_generate_hero pl product brief w)) = EvAcquire # es"
    using es(1) by (simp add: new_events_def)
  then have 1: "\<exists>es. new_events w (snd (pipeline_get_or_generate_hero pl product brief w)) = EvAcquire # es
         \<and> EvAcquire \<notin> set es"
    using es(2) by blast
  have 3: "accepted pl brief \<and> printing_returns pl brief \<longrightarrow>
         count_list (new_events w (snd (run pl brief w))) EvAcquire = length (products brief)"
    using run_phases_acquire_count[of w pl brief] by (auto simp: run_accepted)
  show ?thesis using 1 es(3) 3 by (intro conjI)
qed

theorem acquire_once_per_hero_task_witness:
  "accepted (ex_pipeline ex_generator) ex_brief2
   \<and> printing_returns (ex_pipeline ex_generator) ex_brief2
   \<and> count_list (new_events (ex_world Map.empty)
         (snd (run (ex_pipeline ex_generator) ex_brief2 (ex_world Map.empty)))) EvAcquire = 2
   \<and> pipeline_get_or_generate_hero (ex_pipeline ex_generator) ex_product ex_brief2
         (ex_world [''./assets/input/c1/p1.png'' \<mapsto> Readable 3])
       = (Inr (3, False, 0),
          (ex_world [''./assets/input/c1/p1.png'' \<mapsto> Readable 3])
            \<lparr>limiter := (RateLimiter_init 45 0)\<lparr>tokens := 44\<rparr>,
             trace := [EvAcquire, EvExists ''./assets/input/c1/p1.png'',
                       EvOpen ''./assets/input/c1/p1.png'']\<rparr>)
   \<and> limiter (snd (pipeline_get_or_generate_hero (ex_pipeline ex_generator) ex_product ex_brief2
         (ex_world [''./assets/input/c1/p1.png'' \<mapsto> Readable 3])))
       = fst (acquire (RateLimiter_init 45 0) 0)"
proof -
  let ?wA = "ex_world [''./assets/input/c1/p1.png'' \<mapsto> Readable (3::nat)]"
  note T = acquire_once_per_hero_task[of "ex_world Map.empty" "ex_pipeline ex_generator" ex_product ex_brief2]
  note U = acquire_once_per_hero_task[of ?wA "ex_pipeline ex_generator" ex_product ex_brief2]
  have g: "accepted (ex_pipeline ex_generator) ex_brief2" by (rule ex_gate(1))
  have p: "printing_returns (ex_pipeline ex_generator) ex_brief2" by (rule ex_printing(1))
  from T g p have c: "count_list (new_events (ex_world Map.empty)
         (snd (run (ex_pipeline ex_generator) ex_brief2 (ex_world Map.empty)))) EvAcquire
       = length (products ex_brief2)" by blast
  have e: "pipeline_get_or_generate_hero (ex_pipeline ex_generator) ex_product ex_brief2 ?wA
       = (Inr (3, False, 0),
          ?wA\<lparr>limiter := (RateLimiter_init 45 0)\<lparr>tokens := 44\<rparr>,
             trace := [EvAcquire, EvExists ''./assets/input/c1/p1.png'',
                       EvOpen ''./assets/input/c1/p1.png'']\<rparr>)"
    by (simp add: pipeline_get_or_generate_hero_def acquire_def RateLimiter_init_def
        Let_def emit_def get_or_generate_hero_def check_input_folder_def try_input_def
        path_exists_def campaign_hero_path_def global_hero_path_def path_join_def ex_world_def)
  from U have l: "limiter (snd (pipeline_get_or_generate_hero (ex_pipeline ex_generator) ex_product ex_brief2 ?wA))
       = fst (acquire (RateLimiter_init 45 0) 0)" by simp
  show ?thesis using g p c e l by simp
qed

section \<open>Aspect-ratio variations (\<^verbatim>\<open>src/aspect_ratio_processor.py\<close>)\<close>

text \<open>
  The geometry of the imaging library.  An image has a size (width, height).  What
  \<^verbatim>\<open>Image.resize(size, resample, box)\<close> returns is an image of the given size (\<open>size'\<close>
  below) that shows the region \<open>box\<close> = (left, upper, right, lower) of its source, scaled
  to that size; the resampling filter decides the values of the pixels, not the framing,
  and has no place here.  With no box the region is the whole source.  The checks are
  those the library makes before it resamples.  Coordinates of a box are rationals: the
  library computes them in floating point, which this embedding replaces by exact
  arithmetic.
\<close>

record image =
  width :: nat
  height :: nat

type_synonym box = "rat \<times> rat \<times> rat \<times> rat"

record resized =
  out_size :: "nat \<times> nat"
  source_box :: box

definition resize :: "image \<Rightarrow> nat \<times> nat \<Rightarrow> box option \<Rightarrow> exn + resized" where
  "resize img size' box =
     (let (left, upper, right, lower) =
            (case box of None \<Rightarrow> (0, 0, of_nat (width img), of_nat (height img)) | Some b \<Rightarrow> b)
      in if fst size' < 1 \<or> snd size' < 1
         then Inl (Exn ValueError ''height and width must be > 0'')
         else if left < 0 \<or> upper < 0
         then Inl (Exn ValueError ''box offset can't be negative'')
         else if right > of_nat (width img) \<or> lower > of_nat (height img)
         then Inl (Exn ValueError ''box can't exceed original image size'')
         else if right - left < 0 \<or> lower - upper < 0
         then Inl (Exn ValueError ''box can't be empty'')
         else Inr \<lparr>out_size = size', source_box = (left, upper, right, lower)\<rparr>)"

text \<open>
  \<^verbatim>\<open>ImageOps.fit(image, size, method, bleed, centering)\<close> with the default \<^verbatim>\<open>bleed = 0.0\<close>, which
  is how \<^verbatim>\<open>_center_crop\<close> calls it: the largest region of the target's aspect ratio, placed
  by \<open>centering\<close>, is resized to the target size.  The two divisions raise
  \<^verbatim>\<open>ZeroDivisionError\<close> for an image of height 0 and for a target of height 0 (the third,
  by the ratio of the target, is reached only when that ratio is positive).
\<close>

definition fit :: "image \<Rightarrow> nat \<times> nat \<Rightarrow> rat \<times> rat \<Rightarrow> exn + resized" where
  "fit img size' centering =
     (let cx = (if 0 \<le> fst centering \<and> fst centering \<le> 1 then fst centering else 1 / 2);
          cy = (if 0 \<le> snd centering \<and> snd centering \<le> 1 then snd centering else 1 / 2);
          live_w = (of_nat (width img) :: rat);
          live_h = (of_nat (height img) :: rat)
      in if live_h = 0 then Inl (Exn ZeroDivisionError ''float division by zero'')
         else if snd size' = 0 then Inl (Exn ZeroDivisionError ''division by zero'')
         else
           (let live_size_ratio = live_w / live_h;
                output_ratio = (of_nat (fst size') :: rat) / of_nat (snd size');
                (crop_width, crop_height) =
                  (if live_size_ratio = output_ratio then (live_w, live_h)
                   else if live_size_ratio \<ge> output_ratio then (output_ratio * live_h, live_h)
                   else (live_w, live_w / output_ratio));
                crop_left = (live_w - crop_width) * cx;
                crop_top = (live_h - crop_height) * cy
            in resize img size'
                 (Some (crop_left, crop_top, crop_left + crop_width, crop_top + crop_height))))"

text \<open>\<^verbatim>\<open>ASPECT_RATIO_SIZES\<close>, \<^verbatim>\<open>AspectRatioProcessor._center_crop\<close> and \<^verbatim>\<open>create_variation\<close>.\<close>

definition ASPECT_RATIO_SIZES :: "(string \<times> nat \<times> nat) list" where
  "ASPECT_RATIO_SIZES = [(''1:1'', (1080, 1080)), (''9:16'', (1080, 1920)), (''16:9'', (1920, 1080))]"

definition center_crop :: "image \<Rightarrow> nat \<times> nat \<Rightarrow> exn + resized" where
  "center_crop img target_size' = fit img target_size' (1 / 2, 1 / 2)"

definition create_variation :: "image \<Rightarrow> string \<Rightarrow> exn + resized" where
  "create_variation hero_image target_aspect =
     (let target_size' = (case map_of ASPECT_RATIO_SIZES target_aspect of
                           None \<Rightarrow> (1080, 1080) | Some s \<Rightarrow> s)
      in if target_aspect = ''1:1'' then resize hero_image target_size' None
         else if target_aspect = ''9:16'' then center_crop hero_image target_size'
         else if target_aspect = ''16:9'' then center_crop hero_image target_size'
         else resize hero_image target_size' None)"

text \<open>
  A centred crop to the ratio \<open>tw : th\<close>: the region lies inside the source, has the
  ratio of the target, leaves equal margins left and right and equal margins above and
  below, and spans the full width or the full height of the source.
\<close>

definition centred_crop :: "image \<Rightarrow> nat \<times> nat \<Rightarrow> box \<Rightarrow> bool" where
  "centred_crop img target b =
     (case b of (left, upper, right, lower) \<Rightarrow>
        0 \<le> left \<and> left \<le> right \<and> right \<le> of_nat (width img)
      \<and> 0 \<le> upper \<and> upper \<le> lower \<and> lower \<le> of_nat (height img)
      \<and> (right - left) * of_nat (snd target) = (lower - upper) * of_nat (fst target)
      \<and> left = of_nat (width img) - right
      \<and> upper = of_nat (height img) - lower
      \<and> (left = 0 \<or> upper = 0))"

subsection \<open>Properties of the variations\<close>

lemma create_variation_square:
  "create_variation hero ''1:1''
     = Inr \<lparr>out_size = (1080, 1080), source_box = (0, 0, of_nat (width hero), of_nat (height hero))\<rparr>"
  by (simp add: create_variation_def ASPECT_RATIO_SIZES_def resize_def)

lemma fit_centred:
  assumes w: "0 < width img" and h: "0 < height img" and tw: "0 < tw" and th: "0 < th"
  shows "\<exists>b. fit img (tw, th) (1 / 2, 1 / 2) = Inr \<lparr>out_size = (tw, th), source_box = b\<rparr>
           \<and> centred_crop img (tw, th) b"
proof -
  define W where "W = (of_nat (width img) :: rat)"
  define H where "H = (of_nat (height img) :: rat)"
  define R where "R = (of_nat tw :: rat) / of_nat th"
  have pos: "0 < W" "0 < H" "0 < R" "0 < (of_nat tw :: rat)" "0 < (of_nat th :: rat)"
    using w h tw th by (simp_all add: W_def H_def R_def)
  consider (eq) "W / H = R" | (wide) "W / H > R" | (tall) "W / H < R" by linarith
  then show ?thesis
  proof cases
    case eq
    have r: "W * of_nat th = H * of_nat tw"
      using eq pos by (simp add: R_def field_simps)
    have "fit img (tw, th) (1 / 2, 1 / 2) = Inr \<lparr>out_size = (tw, th), source_box = (0, 0, W, H)\<rparr>"
      using eq pos th tw
      by (simp add: fit_def resize_def Let_def W_def[symmetric] H_def[symmetric] R_def[symmetric])
    moreover have "centred_crop img (tw, th) (0, 0, W, H)"
      using pos r by (simp add: centred_crop_def W_def[symmetric] H_def[symmetric])
    ultimately show ?thesis by blast
  next
    case wide
    have lt: "R * H < W" using wide pos by (simp add: field_simps)
    have rh: "\<not> R * H < 0" "\<not> H * R < 0"
      using pos by (simp_all add: not_less)
    let ?l = "(W - R * H) * (1 / 2)"
    have "fit img (tw, th) (1 / 2, 1 / 2)
            = Inr \<lparr>out_size = (tw, th), source_box = (?l, 0, ?l + R * H, H)\<rparr>"
      using wide lt pos th tw
      by (simp add: fit_def resize_def Let_def W_def[symmetric] H_def[symmetric] R_def[symmetric]
               field_simps rh)
    moreover have "centred_crop img (tw, th) (?l, 0, ?l + R * H, H)"
      using pos lt
      by (simp add: centred_crop_def W_def[symmetric] H_def[symmetric] R_def field_simps)
    ultimately show ?thesis by blast
  next
    case tall
    have lt: "W / R < H" using tall pos by (simp add: field_simps)
    let ?t = "(H - W / R) * (1 / 2)"
    have "fit img (tw, th) (1 / 2, 1 / 2)
            = Inr \<lparr>out_size = (tw, th), source_box = (0, ?t, W, ?t + W / R)\<rparr>"
      using tall lt pos th tw
      by (simp add: fit_def resize_def Let_def W_def[symmetric] H_def[symmetric] R_def[symmetric]
               field_simps)
    moreover have "centred_crop img (tw, th) (0, ?t, W, ?t + W / R)"
      using pos lt
      by (simp add: centred_crop_def W_def[symmetric] H_def[symmetric] R_def field_simps)
    ultimately show ?thesis by blast
  qed
qed

text \<open>
  Claim C5: \<^verbatim>\<open>create_variation(hero, "1:1")\<close> resizes the whole source to 1080 \<times> 1080, the
  region shown being the full image (for an image of any size); for a hero of positive
  width and height, \<^verbatim>\<open>"9:16"\<close> and \<^verbatim>\<open>"16:9"\<close> return an image of exactly 1080 \<times> 1920 and
  1920 \<times> 1080 that shows a centred crop of the hero with the ratio of the target.
\<close>

theorem create_variation_framing:
  assumes "0 < width hero" and "0 < height hero"
  shows "create_variation hero ''1:1''
           = Inr \<lparr>out_size = (1080, 1080),
                  source_box = (0, 0, of_nat (width hero), of_nat (height hero))\<rparr>
       \<and> (\<exists>b. create_variation hero ''9:16'' = Inr \<lparr>out_size = (1080, 1920), source_box = b\<rparr>
              \<and> centred_crop hero (1080, 1920) b)
       \<and> (\<exists>b. create_variation hero ''16:9'' = Inr \<lparr>out_size = (1920, 1080), source_box = b\<rparr>
              \<and> centred_crop hero (1920, 1080) b)"
proof -
  have v: "create_variation hero ''9:16'' = fit hero (1080, 1920) (1 / 2, 1 / 2)"
    by (simp add: create_variation_def ASPECT_RATIO_SIZES_def center_crop_def)
  have l: "create_variation hero ''16:9'' = fit hero (1920, 1080) (1 / 2, 1 / 2)"
    by (simp add: create_variation_def ASPECT_RATIO_SIZES_def center_crop_def)
  show ?thesis
    unfolding v l
    by (intro conjI create_variation_square fit_centred assms) simp_all
qed

theorem create_variation_framing_witness:
  "create_variation \<lparr>width = 1024, height = 1024\<rparr> ''1:1''
     = Inr \<lparr>out_size = (1080, 1080), source_box = (0, 0, 1024, 1024)\<rparr>
   \<and> create_variation \<lparr>width = 1024, height = 1024\<rparr> ''9:16''
     = Inr \<lparr>out_size = (1080, 1920), source_box = (224, 0, 800, 1024)\<rparr>
   \<and> create_variation \<lparr>width = 1024, height = 1024\<rparr> ''16:9''
     = Inr \<lparr>out_size = (1920, 1080), source_box = (0, 224, 1024, 800)\<rparr>
   \<and> centred_crop \<lparr>width = 1024, height = 1024\<rparr> (1080, 1920) (224, 0, 800, 1024)
   \<and> centred_crop \<lparr>width = 1024, height = 1024\<rparr> (1920, 1080) (0, 224, 1024, 800)"
proof -
  let ?hero = "\<lparr>width = 1024, height = 1024\<rparr>"
  have p: "0 < width ?hero" "0 < height ?hero" by simp_all
  have v: "create_variation ?hero ''9:16''
     = Inr \<lparr>out_size = (1080, 1920), source_box = (224, 0, 800, 1024)\<rparr>"
    by (simp add: create_variation_def ASPECT_RATIO_SIZES_def center_crop_def fit_def resize_def Let_def)
  have l: "create_variation ?hero ''16:9''
     = Inr \<lparr>out_size = (1920, 1080), source_box = (0, 224, 1024, 800)\<rparr>"
    by (simp add: create_variation_def ASPECT_RATIO_SIZES_def center_crop_def fit_def resize_def Let_def)
  from create_variation_framing[OF p] v l show ?thesis by simp
qed

section \<open>Post-processing (\<^verbatim>\<open>src/post_processor.py\<close>, class \<^verbatim>\<open>PostProcessor\<close>)\<close>

text \<open>
  An image is the array that \<^verbatim>\<open>np.array(img)\<close> makes of it and \<^verbatim>\<open>Image.fromarray\<close> turns back
  into an image: \<open>Gray\<close> is the two-dimensional array (height \<times> width) of an image with a
  single band (modes \<^verbatim>\<open>L\<close>, \<^verbatim>\<open>P\<close>, \<^verbatim>\<open>1\<close>, \<^verbatim>\<open>I\<close>, \<^verbatim>\<open>F\<close>), \<open>Bands\<close> the three-dimensional array
  (height \<times> width \<times> bands) of an image with several (\<^verbatim>\<open>LA\<close>, \<^verbatim>\<open>RGB\<close>, \<^verbatim>\<open>RGBA\<close>, \<^verbatim>\<open>CMYK\<close>), whose
  values are bytes.  Floating-point arrays are arrays of rationals, and the arithmetic on
  them is exact.
\<close>

datatype pixels = Gray "int list list" | Bands "int list list list"

text \<open>
  The processor after \<^verbatim>\<open>__init__\<close>.  \<open>gauss i j c\<close> is the standard normal deviate that
  \<^verbatim>\<open>np.random.normal\<close> draws for the entry (\<open>i\<close>, \<open>j\<close>, \<open>c\<close>) of the noise array, which it scales by
  its argument \<^verbatim>\<open>scale\<close>; \<open>smooth\<close> is the filter \<^verbatim>\<open>ImageFilter.SMOOTH\<close> as \<^verbatim>\<open>ImageEnhance.Sharpness\<close>
  applies it.
\<close>

record PostProcessor =
  enabled :: bool
  intensity :: rat
  gauss :: "nat \<Rightarrow> nat \<Rightarrow> nat \<Rightarrow> rat"
  smooth :: "pixels \<Rightarrow> pixels"

text \<open>\<^verbatim>\<open>np.clip(x, lo, hi)\<close>, and \<^verbatim>\<open>astype(np.uint8)\<close> of a floating-point value: towards zero.\<close>

definition clip :: "rat \<Rightarrow> rat \<Rightarrow> rat \<Rightarrow> rat" where
  "clip x lo hi = min (max x lo) hi"

definition astype_uint8 :: "rat \<Rightarrow> int" where
  "astype_uint8 x = (if 0 \<le> x then \<lfloor>x\<rfloor> else \<lceil>x\<rceil>) mod 256"

text \<open>Elementwise operations that know the index of the element.\<close>

definition imap :: "(nat \<Rightarrow> 'a \<Rightarrow> 'b) \<Rightarrow> 'a list \<Rightarrow> 'b list" where
  "imap f xs = map (\<lambda>(i, x). f i x) (enumerate 0 xs)"

definition map_gray :: "(nat \<Rightarrow> nat \<Rightarrow> int \<Rightarrow> int) \<Rightarrow> int list list \<Rightarrow> int list list" where
  "map_gray f rows = imap (\<lambda>i. imap (\<lambda>j. f i j)) rows"

definition map_bands ::
  "(nat \<Rightarrow> nat \<Rightarrow> nat \<Rightarrow> int \<Rightarrow> int) \<Rightarrow> int list list list \<Rightarrow> int list list list" where
  "map_bands f rows = imap (\<lambda>i. imap (\<lambda>j. imap (\<lambda>c. f i j c))) rows"

text \<open>
  \<^verbatim>\<open>PostProcessor._add_film_grain\<close>.  \<^verbatim>\<open>np.random.normal\<close> refuses a negative \<^verbatim>\<open>scale\<close>; the
  noise of an entry is the scale times its deviate.
\<close>

definition add_film_grain :: "PostProcessor \<Rightarrow> pixels \<Rightarrow> exn + pixels" where
  "add_film_grain pp img =
     (let noise_intensity = 2 * intensity pp;
          grain = (\<lambda>i j c v. astype_uint8 (clip (of_int v + noise_intensity * gauss pp i j c) 0 255))
      in if noise_intensity < 0 then Inl (Exn ValueError ''scale < 0'')
         else (case img of
                 Gray rows \<Rightarrow> Inr (Gray (map_gray (\<lambda>i j. grain i j 0) rows))
               | Bands rows \<Rightarrow> Inr (Bands (map_bands grain rows))))"

text \<open>
  The shape of the array and the size of the image; \<^verbatim>\<open>np.linspace(-1, 1, n)[k]\<close>; the
  exceptions of indexing the band \<open>i\<close> of an array (\<^verbatim>\<open>img_array[:, :, i]\<close>).
\<close>

definition img_height :: "pixels \<Rightarrow> nat" where
  "img_height img = (case img of Gray rows \<Rightarrow> length rows | Bands rows \<Rightarrow> length rows)"

definition img_width :: "pixels \<Rightarrow> nat" where
  "img_width img =
     (case img of
        Gray rows \<Rightarrow> (case rows of [] \<Rightarrow> 0 | r # rs \<Rightarrow> length r)
      | Bands rows \<Rightarrow> (case rows of [] \<Rightarrow> 0 | r # rs \<Rightarrow> length r))"

definition n_bands :: "int list list list \<Rightarrow> nat" where
  "n_bands rows = (case rows of [] \<Rightarrow> 0 | r # rs \<Rightarrow> (case r of [] \<Rightarrow> 0 | px # pxs \<Rightarrow> length px))"

definition linspace :: "nat \<Rightarrow> nat \<Rightarrow> rat" where
  "linspace n k = (if n = 1 then - 1 else - 1 + 2 * of_nat k / of_nat (n - 1))"

definition too_many_indices :: exn where
  "too_many_indices =
     Exn IndexError ''too many indices for array: array is 2-dimensional, but 3 were indexed''"

definition out_of_bounds :: "nat \<Rightarrow> nat \<Rightarrow> exn" where
  "out_of_bounds i n =
     Exn IndexError (''index '' @ str_nat i @ '' is out of bounds for axis 2 with size '' @ str_nat n)"

text \<open>
  \<^verbatim>\<open>PostProcessor._add_vignette\<close>.  The square of \<^verbatim>\<open>radius / radius.max()\<close> is the quotient of the
  squared radii, which needs no square root.  \<^verbatim>\<open>radius.max()\<close> raises on an empty array.  The
  loop \<^verbatim>\<open>for i in range(3): img_array[:, :, i] *= vignette\<close> indexes three bands of a
  three-dimensional array.
\<close>

definition radius2 :: "pixels \<Rightarrow> nat \<Rightarrow> nat \<Rightarrow> rat" where
  "radius2 img i j = (linspace (img_width img) j)\<^sup>2 + (linspace (img_height img) i)\<^sup>2"

definition radius2_max :: "pixels \<Rightarrow> rat" where
  "radius2_max img =
     Max (set (concat (map (\<lambda>i. map (\<lambda>j. radius2 img i j) [0..<img_width img])
                           [0..<img_height img])))"

definition add_vignette :: "PostProcessor \<Rightarrow> pixels \<Rightarrow> exn + pixels" where
  "add_vignette pp img =
     (let vignette_strength = 3 / 10 * intensity pp;
          vignette = (\<lambda>i j. clip (1 - vignette_strength * (radius2 img i j / radius2_max img)) 0 1)
      in if img_width img = 0 \<or> img_height img = 0
         then Inl (Exn ValueError
                ''zero-size array to reduction operation maximum which has no identity'')
         else (case img of
                 Gray rows \<Rightarrow> Inl too_many_indices
               | Bands rows \<Rightarrow>
                   (if n_bands rows < 3 then Inl (out_of_bounds (n_bands rows) (n_bands rows))
                    else Inr (Bands (map_bands
                           (\<lambda>i j c v. astype_uint8
                              (clip (if c < 3 then of_int v * vignette i j else of_int v) 0 255))
                           rows)))))"

text \<open>\<^verbatim>\<open>PostProcessor._adjust_color_temperature\<close>: red is band 0, blue is band 2.\<close>

definition adjust_color_temperature :: "PostProcessor \<Rightarrow> pixels \<Rightarrow> exn + pixels" where
  "adjust_color_temperature pp img =
     (let warmth = 1 / 50 * intensity pp
      in case img of
           Gray rows \<Rightarrow> Inl too_many_indices
         | Bands rows \<Rightarrow>
             (if n_bands rows = 0 then Inl (out_of_bounds 0 0)
              else if n_bands rows < 3 then Inl (out_of_bounds 2 (n_bands rows))
              else Inr (Bands (map_bands
                     (\<lambda>i j c v. astype_uint8
                        (if c = 0 then clip (of_int v * (1 + warmth)) 0 255
                         else if c = 2 then clip (of_int v * (1 - warmth / 2)) 0 255
                         else of_int v))
                     rows))))"

text \<open>
  \<^verbatim>\<open>PostProcessor._adjust_sharpness\<close>: \<^verbatim>\<open>ImageEnhance.Sharpness(img).enhance(factor)\<close> is
  \<^verbatim>\<open>Image.blend(smoothed, img, factor)\<close>, which returns a copy of its first image for the
  factor 0, a copy of its second for the factor 1, and otherwise combines the two, value by
  value.
\<close>

definition blend_value :: "rat \<Rightarrow> int \<Rightarrow> int \<Rightarrow> int" where
  "blend_value alpha a b = astype_uint8 (clip (of_int a + alpha * (of_int b - of_int a)) 0 255)"

definition blend :: "pixels \<Rightarrow> pixels \<Rightarrow> rat \<Rightarrow> exn + pixels" where
  "blend im1 im2 alpha =
     (if alpha = 0 then Inr im1
      else if alpha = 1 then Inr im2
      else (case (im1, im2) of
              (Gray r1, Gray r2) \<Rightarrow>
                Inr (Gray (map2 (map2 (blend_value alpha)) r1 r2))
            | (Bands r1, Bands r2) \<Rightarrow>
                Inr (Bands (map2 (map2 (map2 (blend_value alpha))) r1 r2))
            | _ \<Rightarrow> Inl (Exn ValueError ''images do not match'')))"

definition adjust_sharpness :: "PostProcessor \<Rightarrow> pixels \<Rightarrow> exn + pixels" where
  "adjust_sharpness pp img =
     (let sharpness_factor = 1 + 3 / 20 * intensity pp
      in blend (smooth pp img) img sharpness_factor)"

text \<open>\<^verbatim>\<open>PostProcessor.process\<close> (its parameter \<^verbatim>\<open>image\<close> is \<open>img\<close> here).\<close>

definition process :: "PostProcessor \<Rightarrow> pixels \<Rightarrow> exn + pixels" where
  "process pp img =
     (if \<not> enabled pp then Inr img
      else (case add_film_grain pp img of
              Inl e \<Rightarrow> Inl e
            | Inr img1 \<Rightarrow>
           (case add_vignette pp img1 of
              Inl e \<Rightarrow> Inl e
            | Inr img2 \<Rightarrow>
           (case adjust_color_temperature pp img2 of
              Inl e \<Rightarrow> Inl e
            | Inr img3 \<Rightarrow> adjust_sharpness pp img3))))"

subsection \<open>Properties of post-processing\<close>

text \<open>
  An image of bytes with at least three bands (\<^verbatim>\<open>RGB\<close>, \<^verbatim>\<open>RGBA\<close>, \<^verbatim>\<open>CMYK\<close>): at intensity 0
  every stage returns it as it is.
\<close>

definition byte_bands :: "int list list list \<Rightarrow> bool" where
  "byte_bands rows \<longleftrightarrow>
     rows \<noteq> [] \<and> hd rows \<noteq> [] \<and> 3 \<le> n_bands rows
     \<and> (\<forall>row \<in> set rows. \<forall>px \<in> set row. \<forall>v \<in> set px. 0 \<le> v \<and> v \<le> 255)"

lemma imap_id:
  assumes "\<And>i x. x \<in> set xs \<Longrightarrow> f i x = x"
  shows "imap f xs = xs"
proof -
  have "map (\<lambda>(i, x). f i x) (enumerate n xs) = xs" for n
    using assms
  proof (induction xs arbitrary: n)
    case Nil
    then show ?case by simp
  next
    case (Cons x xs)
    then show ?case by simp
  qed
  then show ?thesis by (simp add: imap_def)
qed

lemma map_bands_id:
  assumes "\<And>i j c row px v. row \<in> set rows \<Longrightarrow> px \<in> set row \<Longrightarrow> v \<in> set px \<Longrightarrow> f i j c v = v"
  shows "map_bands f rows = rows"
  unfolding map_bands_def
  by (intro imap_id) (rule assms, assumption+)

lemma astype_uint8_byte:
  "0 \<le> v \<Longrightarrow> v \<le> 255 \<Longrightarrow> astype_uint8 (clip (of_int v) 0 255) = v"
  by (simp add: astype_uint8_def clip_def min_def max_def)

lemma astype_uint8_byte':
  "0 \<le> v \<Longrightarrow> v \<le> 255 \<Longrightarrow> astype_uint8 (of_int v) = v"
  by (simp add: astype_uint8_def)

lemma byte_bands_shape:
  assumes "byte_bands rows"
  shows "img_width (Bands rows) \<noteq> 0" "img_height (Bands rows) \<noteq> 0" "\<not> n_bands rows < 3"
    "n_bands rows \<noteq> 0"
  using assms by (auto simp: byte_bands_def img_width_def img_height_def split: list.splits)

lemma process_zero_intensity_bands:
  assumes e: "enabled pp" and z: "intensity pp = 0" and b: "byte_bands rows"
  shows "process pp (Bands rows) = Inr (Bands rows)"
proof -
  have v: "0 \<le> v \<and> v \<le> 255" if "row \<in> set rows" "px \<in> set row" "v \<in> set px" for row px v
    using b that by (auto simp: byte_bands_def)
  have 1: "add_film_grain pp (Bands rows) = Inr (Bands rows)"
    using v by (simp add: add_film_grain_def z Let_def map_bands_id astype_uint8_byte)
  have 2: "add_vignette pp (Bands rows) = Inr (Bands rows)"
  proof -
    have m: "map_bands
            (\<lambda>i j c v. astype_uint8
               (clip (if c < 3
                      then of_int v * clip (1 - 3 / 10 * intensity pp
                             * (radius2 (Bands rows) i j / radius2_max (Bands rows))) 0 1
                      else of_int v) 0 255))
            rows = rows"
      by (rule map_bands_id, frule (2) v)
         (simp add: z astype_uint8_def clip_def min_def max_def)
    show ?thesis
      unfolding add_vignette_def Let_def pixels.case m using byte_bands_shape[OF b] by simp
  qed
  have 3: "adjust_color_temperature pp (Bands rows) = Inr (Bands rows)"
    using v byte_bands_shape[OF b]
    by (simp add: adjust_color_temperature_def z Let_def map_bands_id astype_uint8_byte
          astype_uint8_byte')
  have 4: "adjust_sharpness pp (Bands rows) = Inr (Bands rows)"
    by (simp add: adjust_sharpness_def z blend_def)
  show ?thesis using e by (simp add: process_def 1 2 3 4)
qed

text \<open>An \<^verbatim>\<open>RGB\<close> image of one row with two pixels, at intensity 0.\<close>

lemma process_zero_intensity_rgb_example:
  "process \<lparr>enabled = True, intensity = 0, gauss = g, smooth = s\<rparr> (Bands [[[255, 128, 0], [12, 34, 56]]])
     = Inr (Bands [[[255, 128, 0], [12, 34, 56]]])"
  by (rule process_zero_intensity_bands) (simp_all add: byte_bands_def n_bands_def)

text \<open>
  Claim C6 says that with the processor enabled and intensity 0 \<^verbatim>\<open>process\<close> returns, for
  every input image, an image with the pixels of the input.  For an image with a single
  band this is what the code does not do: the grain stage returns the image, and the
  vignette stage indexes three bands of its two-dimensional array and raises
  \<^verbatim>\<open>IndexError\<close>.  Here the input is the grey image of one pixel with the value 7.
\<close>

theorem process_gray_raises:
  "process \<lparr>enabled = True, intensity = 0, gauss = (\<lambda>i j c. 0), smooth = (\<lambda>img. img)\<rparr> (Gray [[7]])
     = Inl (Exn IndexError ''too many indices for array: array is 2-dimensional, but 3 were indexed'')"
  by (simp add: process_def add_film_grain_def add_vignette_def Let_def map_gray_def imap_def
        astype_uint8_def clip_def img_width_def img_height_def too_many_indices_def)

end
